(* ===== verification/Prelude.thy ===== *)
theory Prelude
  imports Main "HOL-Library.Word" "HOL-Library.List_Lexorder" "HOL-Library.Char_ord"
begin

text \<open>
  Shared vocabulary of the development: the machine integers of the C++ sources, \<^verbatim>\<open>std::map\<close>
  as a list of entries in ascending key order, \<^verbatim>\<open>std::to_string\<close>, bounded first-in first-out
  buffers, and the locales that state what these containers promise to their clients.
\<close>

named_theorems smap_simps \<open>rewriting of lookups in updated maps\<close>
named_theorems cor_simps \<open>unfolding of coroutine combinators\<close>
named_theorems guar_intros \<open>guarantees of coroutines, by their shape\<close>

section \<open>Machine integers\<close>

text \<open>Signed and unsigned C++ integers share the word type; a signed one is read with \<open>sint\<close>.\<close>

type_synonym u8 = "8 word"
type_synonym u16 = "16 word"
type_synonym u32 = "32 word"
type_synonym u64 = "64 word"
type_synonym i32 = "32 word"
type_synonym i64 = "64 word"

text \<open>
  The implicit conversions between \<^verbatim>\<open>int64_t\<close> and a protobuf \<^verbatim>\<open>int32\<close> field: the narrowing
  one drops the upper half, the widening one extends the sign.
\<close>

definition narrow_i32 :: "i64 \<Rightarrow> i32" where
  "narrow_i32 x = ucast x"

definition widen_i64 :: "i32 \<Rightarrow> i64" where
  "widen_i64 x = scast x"

definition fits_i32 :: "i64 \<Rightarrow> bool" where
  "fits_i32 x \<longleftrightarrow> - (2 ^ 31) \<le> sint x \<and> sint x < 2 ^ 31"

lemma sint_narrow_i32: "sint (narrow_i32 x) = signed_take_bit 31 (sint x)"
  unfolding narrow_i32_def by transfer (simp add: signed_take_bit_take_bit min_def)

lemma widen_narrow [simp]: "fits_i32 x \<Longrightarrow> widen_i64 (narrow_i32 x) = x"
  by (simp add: widen_i64_def scast_eq sint_narrow_i32 fits_i32_def signed_take_bit_int_eq_self)

lemma sint_widen_i64: "sint (widen_i64 y) = sint y"
  unfolding widen_i64_def by transfer (simp add: signed_take_bit_signed_take_bit min_def)

lemma fits_widen [simp]: "fits_i32 (widen_i64 y)"
  using sint_ge [of y] sint_lt [of y] by (simp add: fits_i32_def sint_widen_i64)

lemma narrow_widen [simp]: "narrow_i32 (widen_i64 y) = y"
  unfolding narrow_i32_def widen_i64_def
  by transfer (simp add: take_bit_signed_take_bit)

section \<open>Decimal rendering: \<^verbatim>\<open>std::to_string\<close>\<close>

definition digit :: "nat \<Rightarrow> char" where
  "digit n = char_of (48 + n)"

definition undigit :: "char \<Rightarrow> nat" where
  "undigit c = of_char c - 48"

fun dec_nat :: "nat \<Rightarrow> string" where
  "dec_nat n = (if n < 10 then [digit n] else dec_nat (n div 10) @ [digit (n mod 10)])"

declare dec_nat.simps [simp del]

definition to_string :: "int \<Rightarrow> string" where
  "to_string i = (if i < 0 then CHR ''-'' # dec_nat (nat (- i)) else dec_nat (nat i))"

definition undec :: "string \<Rightarrow> nat" where
  "undec = foldl (\<lambda>n c. 10 * n + undigit c) 0"

lemma undigit_digit [simp]: "n < 10 \<Longrightarrow> undigit (digit n) = n"
  by (simp add: digit_def undigit_def)

lemma undec_dec_nat [simp]: "undec (dec_nat n) = n"
proof (induction n rule: dec_nat.induct)
  case (1 n)
  then show ?case by (subst dec_nat.simps) (auto simp: undec_def)
qed

lemma dec_nat_inj [simp]: "dec_nat m = dec_nat n \<longleftrightarrow> m = n"
  by (metis undec_dec_nat)

lemma dec_nat_head: "dec_nat n \<noteq> CHR ''-'' # s"
proof (induction n arbitrary: s rule: dec_nat.induct)
  case (1 n)
  have "digit k \<noteq> CHR ''-''" if "k < 10" for k
    using that by (auto simp: digit_def char_of_eq_iff take_bit_eq_mod)
  then show ?case
    using 1 by (subst dec_nat.simps) (auto simp: append_eq_Cons_conv)
qed

lemma to_string_inj [simp]: "to_string i = to_string j \<longleftrightarrow> i = j"
  using dec_nat_head dec_nat_head [symmetric] by (auto simp: to_string_def split: if_splits)

definition is_digit :: "char \<Rightarrow> bool" where
  "is_digit c \<longleftrightarrow> of_char c \<in> {48 ..< 58 :: nat}"

lemma dec_nat_digits: "c \<in> set (dec_nat n) \<Longrightarrow> is_digit c"
proof (induction n rule: dec_nat.induct)
  case (1 n)
  have "is_digit (digit k)" if "k < 10" for k
    using that by (simp add: is_digit_def digit_def)
  then show ?case
    using 1 by (subst (asm) dec_nat.simps) (auto split: if_splits)
qed

lemma dec_nat_nonempty [simp]: "dec_nat n \<noteq> []"
  by (subst dec_nat.simps) simp

section \<open>\<^verbatim>\<open>std::map\<close>: entries in ascending key order\<close>

text \<open>
  \<^verbatim>\<open>m[k] = v\<close>, \<^verbatim>\<open>m.erase(k)\<close> and \<^verbatim>\<open>m.find(k)\<close>. The list is the order in which a range-for loop
  visits the map, which the load balancer of the status server depends on.
\<close>

fun smap_set :: "'k::linorder \<Rightarrow> 'v \<Rightarrow> ('k \<times> 'v) list \<Rightarrow> ('k \<times> 'v) list" where
  "smap_set k v [] = [(k, v)]"
| "smap_set k v ((a, b) # m) =
     (if k < a then (k, v) # (a, b) # m
      else if k = a then (k, v) # m
      else (a, b) # smap_set k v m)"

fun smap_erase :: "'k::linorder \<Rightarrow> ('k \<times> 'v) list \<Rightarrow> ('k \<times> 'v) list" where
  "smap_erase k [] = []"
| "smap_erase k ((a, b) # m) = (if k = a then m else (a, b) # smap_erase k m)"

abbreviation smap_find :: "('k \<times> 'v) list \<Rightarrow> 'k \<Rightarrow> 'v option" where
  "smap_find \<equiv> map_of"

definition smap_ok :: "('k::linorder \<times> 'v) list \<Rightarrow> bool" where
  "smap_ok m \<longleftrightarrow> sorted_wrt (<) (map fst m)"

text \<open>\<^verbatim>\<open>m.insert({k, v})\<close> keeps an entry that is there.\<close>

definition smap_insert :: "'k::linorder \<Rightarrow> 'v \<Rightarrow> ('k \<times> 'v) list \<Rightarrow> ('k \<times> 'v) list" where
  "smap_insert k v m = (if smap_find m k = None then smap_set k v m else m)"

lemma set_fst_smap_set [simp]: "fst ` set (smap_set k v m) = insert k (fst ` set m)"
  by (induction k v m rule: smap_set.induct) auto

lemma smap_ok_Nil [simp]: "smap_ok []"
  by (simp add: smap_ok_def)

lemma smap_ok_Cons [simp]: "smap_ok ((k, v) # m) \<longleftrightarrow> (\<forall>a \<in> fst ` set m. k < a) \<and> smap_ok m"
  by (auto simp: smap_ok_def)

lemma smap_ok_distinct: "smap_ok m \<Longrightarrow> distinct (map fst m)"
  by (simp add: smap_ok_def strict_sorted_iff)

lemma smap_find_set [smap_simps]: "smap_find (smap_set k v m) = (smap_find m)(k \<mapsto> v)"
  by (induction m) auto

lemma smap_find_insert [smap_simps]:
  "smap_find (smap_insert k v m) k' =
     (if k' = k \<and> smap_find m k = None then Some v else smap_find m k')"
  by (auto simp: smap_insert_def smap_find_set)

lemma smap_ok_set [simp]: "smap_ok m \<Longrightarrow> smap_ok (smap_set k v m)"
proof (induction k v m rule: smap_set.induct)
  case (2 k v a b m)
  then show ?case
    by (auto simp del: image_iff dest: order.strict_trans intro: neq_le_trans)
qed simp

lemma set_fst_smap_erase: "smap_ok m \<Longrightarrow> fst ` set (smap_erase k m) = fst ` set m - {k}"
  by (induction k m rule: smap_erase.induct) auto

lemma smap_ok_erase [simp]: "smap_ok m \<Longrightarrow> smap_ok (smap_erase k m)"
  by (induction k m rule: smap_erase.induct) (auto simp: set_fst_smap_erase)

lemma smap_find_erase [smap_simps]:
  "smap_ok m \<Longrightarrow> smap_find (smap_erase k m) = (smap_find m)(k := None)"
proof (induction m)
  case (Cons e m)
  then show ?case
    by (cases e) (auto simp: fun_eq_iff map_of_eq_None_iff)
qed simp

lemma smap_find_iff: "smap_ok m \<Longrightarrow> smap_find m k = Some v \<longleftrightarrow> (k, v) \<in> set m"
  by (simp add: smap_ok_distinct)

lemma length_smap_set:
  "smap_ok m \<Longrightarrow> length (smap_set k v m) = (if k \<in> fst ` set m then length m else Suc (length m))"
proof (induction m)
  case (Cons e m)
  then show ?case by (cases e) auto
qed simp

section \<open>What a dictionary promises\<close>

locale dictionary =
  fixes empty :: "'m"
    and upd :: "'k \<Rightarrow> 'v \<Rightarrow> 'm \<Rightarrow> 'm"
    and del :: "'k \<Rightarrow> 'm \<Rightarrow> 'm"
    and find :: "'m \<Rightarrow> 'k \<Rightarrow> 'v option"
    and ok :: "'m \<Rightarrow> bool"
  assumes ok_empty: "ok empty"
    and ok_upd: "ok m \<Longrightarrow> ok (upd k v m)"
    and ok_del: "ok m \<Longrightarrow> ok (del k m)"
    and find_empty: "find empty k = None"
    and find_upd: "ok m \<Longrightarrow> find (upd k v m) = (find m)(k \<mapsto> v)"
    and find_del: "ok m \<Longrightarrow> find (del k m) = (find m)(k := None)"
begin

lemma ok_fold_upd: "ok m \<Longrightarrow> ok (fold (\<lambda>e. upd (fst e) (snd e)) es m)"
  by (induction es arbitrary: m) (auto simp: ok_upd)

lemma find_fold_upd:
  "ok m \<Longrightarrow> distinct (map fst es) \<Longrightarrow>
   find (fold (\<lambda>e. upd (fst e) (snd e)) es m) = find m ++ map_of es"
proof (induction es arbitrary: m)
  case (Cons e es)
  then have new: "map_of es (fst e) = None" and d: "distinct (map fst es)"
    by (simp_all add: map_of_eq_None_iff)
  have "find (fold (\<lambda>e. upd (fst e) (snd e)) (e # es) m) = (find m)(fst e \<mapsto> snd e) ++ map_of es"
    using Cons.IH [OF ok_upd [OF Cons.prems(1)] d] Cons.prems(1)
    by (simp add: find_upd fun_upd_def)
  also have "\<dots> = find m ++ map_of (e # es)"
    using new by (auto simp: map_add_def fun_eq_iff fun_upd_def split: option.split)
  finally show ?case .
qed simp

lemma del_upd_new: "ok m \<Longrightarrow> find m k = None \<Longrightarrow> find (del k (upd k v m)) = find m"
  by (auto simp: ok_upd find_upd find_del)

lemma del_upd_other:
  "ok m \<Longrightarrow> k \<noteq> k' \<Longrightarrow> find (del k (upd k' v m)) k' = Some v"
  by (simp add: ok_upd find_upd find_del)

end

interpretation smap: dictionary "[]" smap_set smap_erase smap_find smap_ok
  by unfold_locales (simp_all add: smap_simps)

section \<open>What a first-in first-out buffer promises\<close>

text \<open>
  \<open>push\<close> reports whether the element was accepted, as \<^verbatim>\<open>try_send\<close> does; a client that pushes and pops
  in any order gets the accepted elements back in order, none twice and none lost.
\<close>

datatype 'a fifo_op = Push 'a | Pop

fun fifo_run :: "('a \<Rightarrow> 'q \<Rightarrow> bool \<times> 'q) \<Rightarrow> ('q \<Rightarrow> ('a \<times> 'q) option) \<Rightarrow>
    'a fifo_op list \<Rightarrow> 'q \<Rightarrow> 'a list \<times> 'a list \<times> 'q" where
  "fifo_run push pop [] q = ([], [], q)"
| "fifo_run push pop (Push x # ops) q =
     (let (ok, q') = push x q; (acc, out, q'') = fifo_run push pop ops q'
      in (if ok then x # acc else acc, out, q''))"
| "fifo_run push pop (Pop # ops) q =
     (case pop q of
        None \<Rightarrow> fifo_run push pop ops q
      | Some (x, q') \<Rightarrow> (let (acc, out, q'') = fifo_run push pop ops q' in (acc, x # out, q'')))"

locale fifo =
  fixes push :: "'a \<Rightarrow> 'q \<Rightarrow> bool \<times> 'q"
    and pop :: "'q \<Rightarrow> ('a \<times> 'q) option"
    and contents :: "'q \<Rightarrow> 'a list"
  assumes push_accepted: "push x q = (True, q') \<Longrightarrow> contents q' = contents q @ [x]"
    and push_refused: "push x q = (False, q') \<Longrightarrow> contents q' = contents q"
    and pop_None: "pop q = None \<longleftrightarrow> contents q = []"
    and pop_Some: "pop q = Some (x, q') \<Longrightarrow> contents q = x # contents q'"
begin

lemma in_order: "fifo_run push pop ops q = (acc, out, q') \<Longrightarrow> contents q @ acc = out @ contents q'"
proof (induction ops arbitrary: q acc out q')
  case (Cons op ops)
  show ?case
  proof (cases op)
    case (Push x)
    obtain ok q1 where p: "push x q = (ok, q1)" by force
    obtain a1 o1 q2 where r: "fifo_run push pop ops q1 = (a1, o1, q2)" by (metis prod_cases3)
    have "contents q1 = (if ok then contents q @ [x] else contents q)"
      using p push_accepted push_refused by (cases ok) auto
    then show ?thesis
      using Cons.IH [OF r] Cons.prems Push p r by (auto split: if_splits)
  next
    case Pop
    then show ?thesis
      using Cons by (auto split: option.splits prod.splits dest: pop_Some)
  qed
qed simp

end

section \<open>What the operations of a component keep\<close>

text \<open>
  A component whose every operation keeps its invariant keeps it over any sequence of operations;
  \<open>'p\<close> is what the invariant and the operations depend on beside the state.
\<close>

locale component =
  fixes inv :: "'p \<Rightarrow> 's \<Rightarrow> bool"
    and step :: "'p \<Rightarrow> 'c \<Rightarrow> 's \<Rightarrow> 's"
  assumes step_inv: "inv p s \<Longrightarrow> inv p (step p c s)"
begin

lemma steps_inv: "inv p s \<Longrightarrow> inv p (fold (step p) cs s)"
  by (induction cs arbitrary: s) (auto simp: step_inv)

lemma steps_prefix_inv: "inv p s \<Longrightarrow> inv p (fold (step p) (take n cs) s)"
  by (rule steps_inv)

end

end
