(* ===== verification/Json.thy ===== *)
theory Json
  imports Prelude
begin

text \<open>
  The JSON values the services build and read, with the two spellings the source uses: the element
  access of nlohmann::json (\<^verbatim>\<open>j["k"] = v\<close>, \<^verbatim>\<open>j.at("k")\<close>, \<^verbatim>\<open>contains\<close>) on value trees, and the
  library functions over text and numbers (\<^verbatim>\<open>parse\<close>, \<^verbatim>\<open>dump\<close>, \<^verbatim>\<open>get<T>\<close>), which are a parameter.
\<close>

text \<open>
  A number keeps the kind nlohmann stores it with; a float is \<open>JFloat m e\<close> for \<open>m * 2 ^ e\<close>. An
  object is a \<^verbatim>\<open>std::map\<close>: entries in ascending key order.
\<close>

datatype json =
    JNull
  | JBool bool
  | JInt int
  | JUInt nat
  | JFloat int int
  | JStr string
  | JArr "json list"
  | JObj "(string \<times> json) list"

record json_lib =
  parse :: "string \<Rightarrow> json option"
  dump :: "json \<Rightarrow> string option"
  get_i64 :: "json \<Rightarrow> i64 option"
  get_i32 :: "json \<Rightarrow> i32 option"
  get_string :: "json \<Rightarrow> string option"

section \<open>Element access\<close>

definition json_at :: "json \<Rightarrow> string \<Rightarrow> json option" where
  "json_at j k = (case j of JObj es \<Rightarrow> smap_find es k | _ \<Rightarrow> None)"

definition json_contains :: "json \<Rightarrow> string \<Rightarrow> bool" where
  "json_contains j k \<longleftrightarrow> json_at j k \<noteq> None"

text \<open>\<^verbatim>\<open>j[k] = v\<close>: a null value becomes an object first. The source never indexes anything else.\<close>

fun json_set :: "string \<Rightarrow> json \<Rightarrow> json \<Rightarrow> json" where
  "json_set k v (JObj es) = JObj (smap_set k v es)"
| "json_set k v JNull = JObj [(k, v)]"
| "json_set k v j = j"

fun is_number :: "json \<Rightarrow> bool" where
  "is_number (JInt n) = True"
| "is_number (JUInt n) = True"
| "is_number (JFloat m e) = True"
| "is_number j = False"

fun is_string :: "json \<Rightarrow> bool" where
  "is_string (JStr s) = True"
| "is_string j = False"

section \<open>Conversions generated by \<^verbatim>\<open>NLOHMANN_DEFINE_TYPE_INTRUSIVE\<close>\<close>

text \<open>Reading a member is \<^verbatim>\<open>j.at(name).get_to(member)\<close>, which throws as \<open>None\<close> does here.\<close>

definition field_i64 :: "'a json_lib_scheme \<Rightarrow> string \<Rightarrow> json \<Rightarrow> i64 option" where
  "field_i64 L k j = Option.bind (json_at j k) (get_i64 L)"

definition field_i32 :: "'a json_lib_scheme \<Rightarrow> string \<Rightarrow> json \<Rightarrow> i32 option" where
  "field_i32 L k j = Option.bind (json_at j k) (get_i32 L)"

definition field_string :: "'a json_lib_scheme \<Rightarrow> string \<Rightarrow> json \<Rightarrow> string option" where
  "field_string L k j = Option.bind (json_at j k) (get_string L)"

text \<open>Writing a signed 64-bit member, and reading an array member element by element.\<close>

definition of_i64 :: "i64 \<Rightarrow> json" where
  "of_i64 x = JInt (sint x)"

definition of_i32 :: "i32 \<Rightarrow> json" where
  "of_i32 x = JInt (sint x)"

fun all_some :: "'a option list \<Rightarrow> 'a list option" where
  "all_some [] = Some []"
| "all_some (None # xs) = None"
| "all_some (Some x # xs) = map_option ((#) x) (all_some xs)"

definition field_list :: "(json \<Rightarrow> 'b option) \<Rightarrow> string \<Rightarrow> json \<Rightarrow> 'b list option" where
  "field_list f k j =
     (case json_at j k of Some (JArr es) \<Rightarrow> all_some (map f es) | _ \<Rightarrow> None)"

text \<open>\<^verbatim>\<open>nlohmann_parse_json<T>\<close>: any exception of the library is the unexpected value.\<close>

definition nlohmann_parse_json ::
    "'a json_lib_scheme \<Rightarrow> (json \<Rightarrow> 'b option) \<Rightarrow> string \<Rightarrow> 'b option" where
  "nlohmann_parse_json L from_json s = Option.bind (parse L s) from_json"

section \<open>Documented behaviour of the library\<close>

text \<open>
  What is read back from a dumped value: a non-negative integer is stored as unsigned.
\<close>

primrec json_norm :: "json \<Rightarrow> json" where
  "json_norm JNull = JNull"
| "json_norm (JBool b) = JBool b"
| "json_norm (JInt n) = (if 0 \<le> n then JUInt (nat n) else JInt n)"
| "json_norm (JUInt n) = JUInt n"
| "json_norm (JFloat m e) = JFloat m e"
| "json_norm (JStr s) = JStr s"
| "json_norm (JArr js) = JArr (map json_norm js)"
| "json_norm (JObj es) = JObj (map (map_prod id json_norm) es)"

text \<open>The values an nlohmann tree can hold and print back: ranges of integers, ordered members.\<close>

primrec json_ok :: "json \<Rightarrow> bool" where
  "json_ok JNull = True"
| "json_ok (JBool b) = True"
| "json_ok (JInt n) = (- (2 ^ 63) \<le> n \<and> n < 2 ^ 63)"
| "json_ok (JUInt n) = (n < 2 ^ 64)"
| "json_ok (JFloat m e) = False"
| "json_ok (JStr s) = True"
| "json_ok (JArr js) = list_all id (map json_ok js)"
| "json_ok (JObj es) = (smap_ok es \<and> list_all snd (map (map_prod id json_ok) es))"

definition ascii :: "string \<Rightarrow> bool" where
  "ascii s \<longleftrightarrow> (\<forall>c\<in>set s. of_char c < (128 :: nat))"

primrec ascii_json :: "json \<Rightarrow> bool" where
  "ascii_json JNull = True"
| "ascii_json (JBool b) = True"
| "ascii_json (JInt n) = True"
| "ascii_json (JUInt n) = True"
| "ascii_json (JFloat m e) = True"
| "ascii_json (JStr s) = ascii s"
| "ascii_json (JArr js) = list_all id (map ascii_json js)"
| "ascii_json (JObj es) = list_all (\<lambda>e. ascii (fst e) \<and> snd e) (map (map_prod id ascii_json) es)"

text \<open>
  The longest compact text: a 64-bit integer takes at most 20 characters, an escaped character six,
  and each element or member a separator.
\<close>

primrec dump_bound :: "json \<Rightarrow> nat" where
  "dump_bound JNull = 4"
| "dump_bound (JBool b) = 5"
| "dump_bound (JInt n) = 22"
| "dump_bound (JUInt n) = 22"
| "dump_bound (JFloat m e) = 32"
| "dump_bound (JStr s) = 2 + 6 * length s"
| "dump_bound (JArr js) = 2 + sum_list (map (\<lambda>j. 1 + j) (map dump_bound js))"
| "dump_bound (JObj es) =
     2 + sum_list (map (\<lambda>e. 4 + 6 * length (fst e) + snd e) (map (map_prod id dump_bound) es))"

text \<open>
  \<^verbatim>\<open>parse\<close> inverts \<^verbatim>\<open>dump\<close>, which escapes control characters and throws only on text that is not
  UTF-8; \<^verbatim>\<open>get<T>\<close> converts between the integer kinds.
\<close>

definition json_lib_ok :: "'a json_lib_scheme \<Rightarrow> bool" where
  "json_lib_ok L \<longleftrightarrow>
     (\<forall>j s. json_ok j \<longrightarrow> dump L j = Some s \<longrightarrow> parse L s = Some (json_norm j)) \<and>
     (\<forall>j s. dump L j = Some s \<longrightarrow> CHR 0x00 \<notin> set s) \<and>
     (\<forall>j. ascii_json j \<longrightarrow> dump L j \<noteq> None) \<and>
     (\<forall>j s. json_ok j \<longrightarrow> dump L j = Some s \<longrightarrow> length s \<le> dump_bound j) \<and>
     (\<forall>n. get_i64 L (JInt n) = Some (word_of_int n)) \<and>
     (\<forall>n. get_i64 L (JUInt n) = Some (word_of_nat n)) \<and>
     (\<forall>n. get_i32 L (JInt n) = Some (word_of_int n)) \<and>
     (\<forall>n. get_i32 L (JUInt n) = Some (word_of_nat n)) \<and>
     (\<forall>s. get_string L (JStr s) = Some s)"

lemma json_lib_okD:
  assumes "json_lib_ok L"
  shows "json_ok j \<Longrightarrow> dump L j = Some s \<Longrightarrow> parse L s = Some (json_norm j)"
    and "dump L j = Some s \<Longrightarrow> CHR 0x00 \<notin> set s"
    and "ascii_json j \<Longrightarrow> \<exists>s. dump L j = Some s"
    and "json_ok j \<Longrightarrow> dump L j = Some s \<Longrightarrow> length s \<le> dump_bound j"
    and "get_i64 L (JInt n) = Some (word_of_int n)"
    and "get_i64 L (JUInt m) = Some (word_of_nat m)"
    and "get_i32 L (JInt n) = Some (word_of_int n)"
    and "get_i32 L (JUInt m) = Some (word_of_nat m)"
    and "get_string L (JStr s) = Some s"
  using assms by (simp_all add: json_lib_ok_def)

lemma get_norm_of_i64 [simp]: "json_lib_ok L \<Longrightarrow> get_i64 L (json_norm (of_i64 x)) = Some x"
  by (simp add: of_i64_def json_lib_okD)

lemma get_norm_of_i32 [simp]: "json_lib_ok L \<Longrightarrow> get_i32 L (json_norm (of_i32 x)) = Some x"
  by (simp add: of_i32_def json_lib_okD)

lemma get_string_ok [simp]: "json_lib_ok L \<Longrightarrow> get_string L (JStr s) = Some s"
  by (simp add: json_lib_okD)

lemma json_ok_of_i64 [simp]: "json_ok (of_i64 x)" "json_ok (of_i32 y)"
proof -
  show "json_ok (of_i64 x)" using sint_ge [of x] sint_lt [of x] by (simp add: of_i64_def)
  show "json_ok (of_i32 y)" using sint_ge [of y] sint_lt [of y] by (simp add: of_i32_def)
qed

lemma ascii_of_i64 [simp]: "ascii_json (of_i64 x)" "ascii_json (of_i32 y)"
  by (simp_all add: of_i64_def of_i32_def)

lemma list_all_smap_set:
  "P (k, v) \<Longrightarrow> list_all P es \<Longrightarrow> list_all P (smap_set k v es)"
  by (induction k v es rule: smap_set.induct) auto

lemma json_ok_set [simp]: "json_ok v \<Longrightarrow> json_ok j \<Longrightarrow> json_ok (json_set k v j)"
  by (cases j) (auto simp: json_set.simps list.pred_map comp_def intro: list_all_smap_set)

lemma ascii_json_set [simp]:
  "ascii k \<Longrightarrow> ascii_json v \<Longrightarrow> ascii_json j \<Longrightarrow> ascii_json (json_set k v j)"
  by (cases j) (auto simp: json_set.simps list.pred_map comp_def intro: list_all_smap_set)

lemma smap_find_map_prod: "smap_find (map (map_prod id f) es) k = map_option f (smap_find es k)"
  by (induction es) auto

lemma json_at_norm: "json_at (json_norm j) k = map_option json_norm (json_at j k)"
  by (cases j) (auto simp: json_at_def smap_find_map_prod)

text \<open>Members of a value built by a chain of assignments from null.\<close>

fun indexable :: "json \<Rightarrow> bool" where
  "indexable JNull = True"
| "indexable (JObj es) = True"
| "indexable j = False"

lemma indexable_set [simp]: "indexable j \<Longrightarrow> indexable (json_set k v j)"
  by (cases j) auto

lemma json_at_set [simp]:
  "indexable j \<Longrightarrow> json_at (json_set k v j) k' = (if k' = k then Some v else json_at j k')"
  by (cases j) (auto simp: json_at_def smap_simps)

lemma json_at_JNull [simp]: "json_at JNull k = None"
  by (simp add: json_at_def)

declare json_set.simps [simp del]

lemma all_some_map_Some [simp]: "(\<And>x. x \<in> set xs \<Longrightarrow> f x = Some (g x)) \<Longrightarrow> all_some (map f xs) = Some (map g xs)"
  by (induction xs) auto

end
