(* ===== verification/MessageCommon.thy ===== *)
theory MessageCommon
  imports Prelude
begin

text \<open>
  \<^verbatim>\<open>chat_server/message_common.hpp\<close>: the message ids and error codes of the chat protocol, the
  pairing of requests with responses, and the Redis key prefixes. magic_enum's reflection of the
  two enums is a parameter with its documented behaviour over the ranges the header declares.
\<close>

datatype message_id =
    LoginRequest | LoginResponse | SearchUserRequest | SearchUserResponse
  | AddFriendRequest | AddFriendResponse | NotifyAddFriend
  | AuthFriendRequest | AuthFriendResponse | NotifyAuthFriend
  | TextChatMsgReq | TextChatMsgRsp | NotifyTextChatMsg
  | InvalidRequest

fun message_code :: "message_id \<Rightarrow> u16" where
  "message_code LoginRequest = 1005"
| "message_code LoginResponse = 1006"
| "message_code SearchUserRequest = 1007"
| "message_code SearchUserResponse = 1008"
| "message_code AddFriendRequest = 1009"
| "message_code AddFriendResponse = 1010"
| "message_code NotifyAddFriend = 1011"
| "message_code AuthFriendRequest = 1013"
| "message_code AuthFriendResponse = 1014"
| "message_code NotifyAuthFriend = 1015"
| "message_code TextChatMsgReq = 1017"
| "message_code TextChatMsgRsp = 1018"
| "message_code NotifyTextChatMsg = 1019"
| "message_code InvalidRequest = 1500"

fun get_response_id :: "message_id \<Rightarrow> message_id" where
  "get_response_id LoginRequest = LoginResponse"
| "get_response_id SearchUserRequest = SearchUserResponse"
| "get_response_id AddFriendRequest = AddFriendResponse"
| "get_response_id AuthFriendRequest = AuthFriendResponse"
| "get_response_id TextChatMsgReq = TextChatMsgRsp"
| "get_response_id _ = InvalidRequest"

definition message_id_min :: nat where "message_id_min = 1005"
definition message_id_max :: nat where "message_id_max = 2000"

datatype server_error =
    Success | InvalidJson | RPCFailed | VerifyCodeExpired | VerifyCodeErr | UserExist
  | PasswdError | EmailNotMatch | PasswdUpdateFailed | TokenInvalid | InternalError
  | UserNotFound | UserUidInvalid | NotAuthenticated

fun error_code :: "server_error \<Rightarrow> u16" where
  "error_code Success = 0"
| "error_code InvalidJson = 1001"
| "error_code RPCFailed = 1002"
| "error_code VerifyCodeExpired = 1003"
| "error_code VerifyCodeErr = 1004"
| "error_code UserExist = 1005"
| "error_code PasswdError = 1006"
| "error_code EmailNotMatch = 1007"
| "error_code PasswdUpdateFailed = 1008"
| "error_code TokenInvalid = 1009"
| "error_code InternalError = 1010"
| "error_code UserNotFound = 1011"
| "error_code UserUidInvalid = 1012"
| "error_code NotAuthenticated = 1013"

fun error_ident :: "server_error \<Rightarrow> string" where
  "error_ident Success = ''Success''"
| "error_ident InvalidJson = ''InvalidJson''"
| "error_ident RPCFailed = ''RPCFailed''"
| "error_ident VerifyCodeExpired = ''VerifyCodeExpired''"
| "error_ident VerifyCodeErr = ''VerifyCodeErr''"
| "error_ident UserExist = ''UserExist''"
| "error_ident PasswdError = ''PasswdError''"
| "error_ident EmailNotMatch = ''EmailNotMatch''"
| "error_ident PasswdUpdateFailed = ''PasswdUpdateFailed''"
| "error_ident TokenInvalid = ''TokenInvalid''"
| "error_ident InternalError = ''InternalError''"
| "error_ident UserNotFound = ''UserNotFound''"
| "error_ident UserUidInvalid = ''UserUidInvalid''"
| "error_ident NotAuthenticated = ''NotAuthenticated''"

definition server_error_min :: nat where "server_error_min = 1001"
definition server_error_max :: nat where "server_error_max = 1024"

text \<open>
  magic_enum: \<^verbatim>\<open>enum_cast\<close> finds the enumerator with a value, \<^verbatim>\<open>enum_name\<close> gives its identifier;
  a value outside the reflected range has no enumerator and the empty name.
\<close>

record enum_lib =
  cast_message_id :: "u16 \<Rightarrow> message_id option"
  name_server_error :: "server_error \<Rightarrow> string"

definition enum_lib_ok :: "'a enum_lib_scheme \<Rightarrow> bool" where
  "enum_lib_ok E \<longleftrightarrow>
     (\<forall>w m. cast_message_id E w = Some m \<longleftrightarrow>
        message_code m = w \<and> message_id_min \<le> unat w \<and> unat w \<le> message_id_max) \<and>
     (\<forall>e. name_server_error E e =
        (if server_error_min \<le> unat (error_code e) \<and> unat (error_code e) \<le> server_error_max
         then error_ident e else ''''))"

definition wire_id :: "message_id \<Rightarrow> u32" where
  "wire_id m = ucast (message_code m)"

definition UserLoginServerPrefix :: string where "UserLoginServerPrefix = ''user_login_server_''"
definition UserUidInfoPrefix :: string where "UserUidInfoPrefix = ''user_uid_info_''"
definition UserNameInfoPrefix :: string where "UserNameInfoPrefix = ''user_name_info_''"
definition LoginCountKey :: string where "LoginCountKey = ''login_count''"
definition UserTokenPrefix :: string where "UserTokenPrefix = ''user_token_''"

lemma message_code_inj: "message_code m = message_code n \<longleftrightarrow> m = n"
  by (cases m; cases n) simp_all

text \<open>The keys of the handler table are ordered as \<^verbatim>\<open>enum class MessageId : uint16_t\<close>.\<close>

instantiation message_id :: linorder
begin

definition less_eq_message_id :: "message_id \<Rightarrow> message_id \<Rightarrow> bool" where
  "less_eq_message_id m n \<longleftrightarrow> message_code m \<le> message_code n"

definition less_message_id :: "message_id \<Rightarrow> message_id \<Rightarrow> bool" where
  "less_message_id m n \<longleftrightarrow> message_code m < message_code n"

instance
  by standard (auto simp: less_eq_message_id_def less_message_id_def message_code_inj [symmetric])

end

lemma message_code_range: "message_id_min \<le> unat (message_code m) \<and> unat (message_code m) \<le> message_id_max"
  by (cases m) (simp_all add: message_id_min_def message_id_max_def)

lemma cast_message_code: "enum_lib_ok E \<Longrightarrow> cast_message_id E (message_code m) = Some m"
  using message_code_range by (simp add: enum_lib_ok_def)

lemma wire_id_inj [simp]: "wire_id m = wire_id n \<longleftrightarrow> m = n"
  by (cases m; cases n) (simp_all add: wire_id_def)

lemma ascii_ident: "c \<in> set (error_ident e) \<Longrightarrow> of_char c < (128 :: nat)"
  by (cases e) auto

lemma ascii_name: "enum_lib_ok E \<Longrightarrow> c \<in> set (name_server_error E e) \<Longrightarrow> of_char c < (128 :: nat)"
  using ascii_ident [of c e] by (auto simp: enum_lib_ok_def split: if_splits)

lemma cast_message_id_Some: "enum_lib_ok E \<Longrightarrow> cast_message_id E w = Some m \<Longrightarrow> message_code m = w"
  by (simp add: enum_lib_ok_def)

end
