(* ===== verification/MsgNode.thy ===== *)
theory MsgNode
  imports Prelude
begin

text \<open>
  \<^verbatim>\<open>chat_server/msg_node.hpp\<close>: the frame \<open>[id: 4][body_length: 2][body]\<close> in one fixed buffer, its
  header in network byte order, and the reading of frames from a byte stream as the session's
  reader and the command line client do it. The conversions of Boost.Endian are a parameter.
\<close>

section \<open>Byte order\<close>

text \<open>Object representations, as \<^verbatim>\<open>memcpy\<close> sees them on a host of either byte order.\<close>

definition byte_of :: "'a::len word \<Rightarrow> nat \<Rightarrow> char" where
  "byte_of w k = char_of (unat w div 256 ^ k)"

definition bytes_le :: "nat \<Rightarrow> 'a::len word \<Rightarrow> string" where
  "bytes_le n w = map (byte_of w) [0..<n]"

definition bytes_be :: "nat \<Rightarrow> 'a::len word \<Rightarrow> string" where
  "bytes_be n w = rev (bytes_le n w)"

definition word_be :: "string \<Rightarrow> 'a::len word" where
  "word_be bs = word_of_nat (foldl (\<lambda>n c. 256 * n + of_char c) 0 bs)"

definition word_le :: "string \<Rightarrow> 'a::len word" where
  "word_le bs = word_be (rev bs)"

text \<open>The byte order of the host, and Boost.Endian's conversions (documented: identity or swap).\<close>

record platform =
  little_endian :: bool
  native_to_big32 :: "u32 \<Rightarrow> u32"
  native_to_big16 :: "u16 \<Rightarrow> u16"
  big_to_native32 :: "u32 \<Rightarrow> u32"
  big_to_native16 :: "u16 \<Rightarrow> u16"

definition swap32 :: "u32 \<Rightarrow> u32" where
  "swap32 w = word_be (bytes_le 4 w)"

definition swap16 :: "u16 \<Rightarrow> u16" where
  "swap16 w = word_be (bytes_le 2 w)"

definition platform_ok :: "platform \<Rightarrow> bool" where
  "platform_ok P \<longleftrightarrow>
     (\<forall>w. native_to_big32 P w = (if little_endian P then swap32 w else w)) \<and>
     (\<forall>w. native_to_big16 P w = (if little_endian P then swap16 w else w)) \<and>
     (\<forall>w. big_to_native32 P w = (if little_endian P then swap32 w else w)) \<and>
     (\<forall>w. big_to_native16 P w = (if little_endian P then swap16 w else w))"

definition store32 :: "platform \<Rightarrow> u32 \<Rightarrow> string" where
  "store32 P w = (if little_endian P then bytes_le 4 w else bytes_be 4 w)"

definition store16 :: "platform \<Rightarrow> u16 \<Rightarrow> string" where
  "store16 P w = (if little_endian P then bytes_le 2 w else bytes_be 2 w)"

definition load32 :: "platform \<Rightarrow> string \<Rightarrow> u32" where
  "load32 P bs = (if little_endian P then word_le bs else word_be bs)"

definition load16 :: "platform \<Rightarrow> string \<Rightarrow> u16" where
  "load16 P bs = (if little_endian P then word_le bs else word_be bs)"

section \<open>The node\<close>

definition ID_LEN :: nat where "ID_LEN = 4"
definition HEAD_LEN :: nat where "HEAD_LEN = 2"
definition PREFIX_LEN :: nat where "PREFIX_LEN = ID_LEN + HEAD_LEN"
definition MAX_LENGTH :: nat where "MAX_LENGTH = 1024"

text \<open>\<open>mn_data\<close> is \<^verbatim>\<open>data_\<close>, zero-initialised, one byte longer than the longest frame.\<close>

record msg_node =
  mn_id :: u32
  mn_body_length :: i32
  mn_data :: string

definition empty_node :: msg_node where
  "empty_node = \<lparr>mn_id = 0, mn_body_length = 0,
     mn_data = replicate (PREFIX_LEN + MAX_LENGTH + 1) (CHR 0x00)\<rparr>"

text \<open>\<^verbatim>\<open>memcpy\<close> into the buffer at an offset.\<close>

definition blit :: "nat \<Rightarrow> string \<Rightarrow> string \<Rightarrow> string" where
  "blit off bs d = take off d @ bs @ drop (off + length bs) d"

definition strlen :: "string \<Rightarrow> nat" where
  "strlen s = length (takeWhile (\<lambda>c. c \<noteq> CHR 0x00) s)"

definition set_body_length :: "i32 \<Rightarrow> msg_node \<Rightarrow> bool \<times> msg_node" where
  "set_body_length l n =
     (if sint l > int MAX_LENGTH then (False, n) else (True, n\<lparr>mn_body_length := l\<rparr>))"

definition encode_header :: "platform \<Rightarrow> msg_node \<Rightarrow> msg_node" where
  "encode_header P n =
     (let net_id = native_to_big32 P (mn_id n);
          d1 = blit 0 (store32 P net_id) (mn_data n);
          net_len = native_to_big16 P (ucast (mn_body_length n))
      in n\<lparr>mn_data := blit ID_LEN (store16 P net_len) d1\<rparr>)"

definition decode_header :: "platform \<Rightarrow> msg_node \<Rightarrow> bool \<times> msg_node" where
  "decode_header P n =
     (let net_id = load32 P (take ID_LEN (mn_data n));
          n1 = n\<lparr>mn_id := big_to_native32 P net_id\<rparr>;
          net_len = load16 P (take HEAD_LEN (drop ID_LEN (mn_data n)));
          len = big_to_native16 P net_len
      in set_body_length (ucast len) n1)"

text \<open>
  The two constructors. The result of \<^verbatim>\<open>set_body_length\<close> is ignored there, and the copied size is
  the stored length, as \<^verbatim>\<open>size_t\<close>.
\<close>

definition mk_node :: "platform \<Rightarrow> u32 \<Rightarrow> string option \<Rightarrow> msg_node" where
  "mk_node P i body =
     (let n = empty_node\<lparr>mn_id := i\<rparr> in
      case body of
        Some b \<Rightarrow>
          (let n1 = encode_header P (snd (set_body_length (word_of_nat (strlen b)) n));
               size = unat (scast (mn_body_length n1) :: u64)
           in n1\<lparr>mn_data := blit PREFIX_LEN (take size b) (mn_data n1)\<rparr>)
      | None \<Rightarrow> encode_header P n)"

definition node_length :: "msg_node \<Rightarrow> int" where
  "node_length n = int PREFIX_LEN + sint (mn_body_length n)"

text \<open>\<^verbatim>\<open>body()\<close> as the C string its readers take it for.\<close>

definition node_body :: "msg_node \<Rightarrow> string" where
  "node_body n = takeWhile (\<lambda>c. c \<noteq> CHR 0x00) (drop PREFIX_LEN (mn_data n))"

text \<open>What \<^verbatim>\<open>async_write(buffer(data(), length()))\<close> puts on the wire.\<close>

definition wire :: "msg_node \<Rightarrow> string" where
  "wire n = take (nat (node_length n)) (mn_data n)"

definition clear_node :: "msg_node \<Rightarrow> msg_node" where
  "clear_node n = n\<lparr>mn_data := blit 0 (replicate (nat (sint (mn_body_length n))) (CHR 0x00)) (mn_data n)\<rparr>"


section \<open>Byte order lemmas\<close>

lemma of_char_256 [simp]: "of_char c < (256::nat)"
  by (metis char_of_char of_char_of mod_less_divisor zero_less_numeral)

abbreviation be_value :: "nat \<Rightarrow> string \<Rightarrow> nat" where
  "be_value s cs \<equiv> foldl (\<lambda>n c. 256 * n + of_char c) s cs"

lemma be_value_digits:
  "be_value s (rev (map (\<lambda>k. char_of (m div 256 ^ k)) [0..<n])) = s * 256 ^ n + m mod 256 ^ n"
proof (induction n arbitrary: s)
  case (Suc n)
  have "m mod 256 ^ Suc n = 256 ^ n * (m div 256 ^ n mod 256) + m mod 256 ^ n"
    by (simp only: power_Suc2 mod_mult2_eq)
  then show ?case
    by (simp add: Suc.IH) (simp add: algebra_simps)
qed simp

lemma be_value_less: "be_value 0 cs < 256 ^ length cs"
proof (induction cs rule: rev_induct)
  case (snoc c cs)
  have "of_char c < (256::nat)" by simp
  with snoc show ?case by (simp; linarith)
qed simp

lemma digits_be_value:
  "rev (map (\<lambda>k. char_of (be_value 0 cs div 256 ^ k)) [0..<length cs]) = cs"
proof (induction cs rule: rev_induct)
  case (snoc c cs)
  have c: "of_char c < (256::nat)" by simp
  then have d: "(256 * be_value 0 cs + of_char c) div (256 * 256 ^ k) = be_value 0 cs div 256 ^ k" for k
    by (simp add: div_mult2_eq)
  have h: "char_of (256 * be_value 0 cs + of_char c) = c"
    by (simp add: char_of_eq_iff take_bit_eq_mod c)
  show ?case
    using snoc by (simp add: upt_conv_Cons map_Suc_upt [symmetric] comp_def d h del: upt_Suc)
qed simp

lemma byte_of_fun: "byte_of w = (\<lambda>k. char_of (unat w div 256 ^ k))"
  by (simp add: fun_eq_iff byte_of_def)

lemma word_be_bytes_be:
  assumes "LENGTH('a) = 8 * n"
  shows "word_be (bytes_be n w) = (w :: 'a::len word)"
proof -
  have "unat w < 256 ^ n"
    using unsigned_less [of w] assms by (simp add: power_mult)
  then show ?thesis
    by (simp add: word_be_def bytes_be_def bytes_le_def byte_of_fun be_value_digits)
qed

lemma bytes_be_word_be:
  assumes "LENGTH('a) = 8 * n" "length cs = n"
  shows "bytes_be n (word_be cs :: 'a::len word) = cs"
proof -
  have "be_value 0 cs < 2 ^ LENGTH('a)"
    using be_value_less [of cs] assms by (simp add: power_mult)
  then have "unat (word_be cs :: 'a word) = be_value 0 cs"
    by (simp add: word_be_def unat_of_nat)
  then show ?thesis
    using digits_be_value [of cs] assms(2) by (simp add: bytes_be_def bytes_le_def byte_of_fun)
qed

lemma length_bytes_be [simp]: "length (bytes_be n w) = n" "length (bytes_le n w) = n"
  by (simp_all add: bytes_be_def bytes_le_def)

lemmas be32 [simp] = word_be_bytes_be [where 'a = 32 and n = 4, simplified]
  bytes_be_word_be [where 'a = 32 and n = 4, simplified]
lemmas be16 [simp] = word_be_bytes_be [where 'a = 16 and n = 2, simplified]
  bytes_be_word_be [where 'a = 16 and n = 2, simplified]

lemma bytes_le_word_be: "length cs = 4 \<Longrightarrow> bytes_le 4 (word_be cs :: u32) = rev cs"
  "length cs = 2 \<Longrightarrow> bytes_le 2 (word_be cs :: u16) = rev cs"
  using be32(2) [of cs] be16(2) [of cs] by (auto simp: bytes_be_def rev_swap)

lemma store_big: 
  assumes "platform_ok P"
  shows "store32 P (native_to_big32 P i) = bytes_be 4 i"
    "store16 P (native_to_big16 P l) = bytes_be 2 l"
  using assms by (simp_all add: platform_ok_def store32_def store16_def swap32_def swap16_def
      bytes_le_word_be bytes_be_def)

lemma load_big:
  assumes "platform_ok P"
  shows "length bs = 4 \<Longrightarrow> big_to_native32 P (load32 P bs) = word_be bs"
    "length bs = 2 \<Longrightarrow> big_to_native16 P (load16 P bs) = word_be bs"
  using assms by (simp_all add: platform_ok_def load32_def load16_def swap32_def swap16_def
      word_le_def bytes_le_word_be)

section \<open>Reading frames from a stream\<close>

text \<open>
  \<^verbatim>\<open>ChatSession::reader\<close> reads \<open>PREFIX_LEN\<close> bytes into a fresh node, decodes them, and reads the
  announced body behind them; \<open>read_frame\<close> is that sequence over the bytes received so far.
\<close>

datatype 'm read_result = NeedMore | BadHeader | Frame 'm string

definition read_prefix :: "platform \<Rightarrow> string \<Rightarrow> bool \<times> msg_node" where
  "read_prefix P bs = decode_header P (empty_node\<lparr>mn_data := blit 0 bs (mn_data empty_node)\<rparr>)"

definition read_body :: "string \<Rightarrow> msg_node \<Rightarrow> msg_node" where
  "read_body bs n = n\<lparr>mn_data := blit PREFIX_LEN bs (mn_data n)\<rparr>"

definition body_size :: "msg_node \<Rightarrow> nat" where
  "body_size n = nat (sint (mn_body_length n))"

definition read_frame :: "platform \<Rightarrow> string \<Rightarrow> msg_node read_result" where
  "read_frame P bs =
     (if length bs < PREFIX_LEN then NeedMore
      else (let (ok, n) = read_prefix P (take PREFIX_LEN bs); rest = drop PREFIX_LEN bs in
        if \<not> ok then BadHeader
        else if length rest < body_size n then NeedMore
        else Frame (read_body (take (body_size n) rest) n) (drop (body_size n) rest)))"

section \<open>Frames\<close>

text \<open>The node of a frame with this id and body, written out byte by byte.\<close>

definition frame_header :: "u32 \<Rightarrow> nat \<Rightarrow> string" where
  "frame_header i l = bytes_be 4 i @ bytes_be 2 (word_of_nat l :: u16)"

definition frame_node :: "u32 \<Rightarrow> string \<Rightarrow> msg_node" where
  "frame_node i b = \<lparr>mn_id = i, mn_body_length = word_of_nat (length b),
     mn_data = frame_header i (length b) @ b @ replicate (MAX_LENGTH + 1 - length b) (CHR 0x00)\<rparr>"

lemmas len_defs = PREFIX_LEN_def ID_LEN_def HEAD_LEN_def MAX_LENGTH_def

lemma length_frame_header [simp]: "length (frame_header i l) = PREFIX_LEN"
  by (simp add: frame_header_def len_defs)

lemma sint_small_i32: "l < 2 ^ 31 \<Longrightarrow> sint (word_of_nat l :: i32) = int l"
  by (simp add: signed_of_nat signed_take_bit_int_eq_self)

lemma set_body_length_small:
  "l \<le> MAX_LENGTH \<Longrightarrow> set_body_length (word_of_nat l) n = (True, n\<lparr>mn_body_length := word_of_nat l\<rparr>)"
  by (simp add: set_body_length_def sint_small_i32 len_defs)

lemma set_body_length_large:
  "MAX_LENGTH < l \<Longrightarrow> l < 2 ^ 31 \<Longrightarrow> set_body_length (word_of_nat l) n = (False, n)"
  by (simp add: set_body_length_def sint_small_i32)

lemma body_size_frame [simp]: "length b \<le> MAX_LENGTH \<Longrightarrow> body_size (frame_node i b) = length b"
  by (simp add: body_size_def frame_node_def sint_small_i32 len_defs)

lemma encode_header_fresh:
  assumes "platform_ok P" "l \<le> MAX_LENGTH"
  shows "encode_header P (empty_node\<lparr>mn_id := i, mn_body_length := word_of_nat l\<rparr>) =
    \<lparr>mn_id = i, mn_body_length = word_of_nat l,
     mn_data = frame_header i l @ replicate (MAX_LENGTH + 1) (CHR 0x00)\<rparr>"
proof -
  have "(ucast (word_of_nat l :: i32) :: u16) = word_of_nat l"
    using assms(2) by (simp add: unsigned_of_nat take_bit_nat_eq_self MAX_LENGTH_def)
  then show ?thesis
    using assms(1)
    by (simp add: encode_header_def Let_def empty_node_def store_big blit_def frame_header_def len_defs
        replicate_add [symmetric] numeral_eq_Suc)
qed

lemma mn_id_frame [simp]: "mn_id (frame_node i b) = i"
  by (simp add: frame_node_def)

lemma wire_frame: "length b \<le> MAX_LENGTH \<Longrightarrow> wire (frame_node i b) = frame_header i (length b) @ b"
  by (simp add: wire_def node_length_def frame_node_def sint_small_i32 nat_add_distrib len_defs)


lemma takeWhile_all: "CHR 0x00 \<notin> set b \<Longrightarrow> takeWhile (\<lambda>c. c \<noteq> CHR 0x00) b = b"
  by (rule takeWhile_eq_all_conv [THEN iffD2]) auto

lemma mk_node_None: "platform_ok P \<Longrightarrow> mk_node P i None = frame_node i []"
  using encode_header_fresh [of P 0 i]
  by (simp add: mk_node_def frame_node_def empty_node_def)

lemma mk_node_fits:
  assumes "platform_ok P" "strlen b \<le> MAX_LENGTH"
  shows "mk_node P i (Some b) = frame_node i (takeWhile (\<lambda>c. c \<noteq> CHR 0x00) b)"
proof -
  let ?l = "strlen b"
  have "sint (word_of_nat ?l :: i32) = int ?l"
    using assms(2) by (simp add: sint_small_i32 len_defs)
  then have size: "unat (scast (word_of_nat ?l :: i32) :: u64) = ?l"
    using assms(2) by (simp add: scast_eq unat_of_nat len_defs)
  have "?l \<le> length b"
    by (simp add: strlen_def length_takeWhile_le)
  moreover have "take ?l b = takeWhile (\<lambda>c. c \<noteq> CHR 0x00) b"
    by (simp add: strlen_def takeWhile_eq_take [symmetric])
  ultimately show ?thesis
    using assms encode_header_fresh [OF assms, of i]
    by (simp add: mk_node_def Let_def set_body_length_small size min_absorb2 frame_node_def blit_def
        strlen_def [symmetric] del: replicate_Suc)
qed

lemma mk_node_too_long:
  assumes "platform_ok P" "MAX_LENGTH < strlen b" "strlen b < 2 ^ 31"
  shows "mk_node P i (Some b) = frame_node i []"
  using assms encode_header_fresh [of P 0 i]
  by (simp add: mk_node_def Let_def set_body_length_large frame_node_def blit_def empty_node_def)

lemma node_body_frame:
  "CHR 0x00 \<notin> set b \<Longrightarrow> node_body (frame_node i b) = b"
proof -
  assume "CHR 0x00 \<notin> set b"
  then have "\<forall>c\<in>set b. c \<noteq> CHR 0x00" by blast
  then show ?thesis
    by (simp add: node_body_def frame_node_def takeWhile_replicate del: replicate_Suc)
qed

lemma read_prefix_frame:
  assumes "platform_ok P" "l < 2 ^ 16"
  shows "read_prefix P (frame_header i l) =
    (if l \<le> MAX_LENGTH
     then (True, \<lparr>mn_id = i, mn_body_length = word_of_nat l,
            mn_data = frame_header i l @ replicate (MAX_LENGTH + 1) (CHR 0x00)\<rparr>)
     else (False, \<lparr>mn_id = i, mn_body_length = 0,
            mn_data = frame_header i l @ replicate (MAX_LENGTH + 1) (CHR 0x00)\<rparr>))"
proof -
  have "(ucast (word_of_nat l :: u16) :: i32) = word_of_nat l"
    using assms(2) by (simp add: unsigned_of_nat take_bit_nat_eq_self)
  moreover have "blit 0 (frame_header i l) (mn_data empty_node) =
      frame_header i l @ replicate (MAX_LENGTH + 1) (CHR 0x00)"
    by (simp add: blit_def empty_node_def del: replicate_Suc)
  ultimately show ?thesis
    using assms
    by (auto simp: read_prefix_def decode_header_def Let_def load_big empty_node_def
        frame_header_def len_defs set_body_length_def sint_small_i32 simp del: replicate_Suc)
qed

lemma read_frame_wire:
  assumes "platform_ok P" "length b \<le> MAX_LENGTH"
  shows "read_frame P (wire (frame_node i b) @ rest) = Frame (frame_node i b) rest"
proof -
  have l: "length b < 2 ^ 16" using assms(2) by (simp add: len_defs)
  let ?n = "\<lparr>mn_id = i, mn_body_length = word_of_nat (length b),
     mn_data = frame_header i (length b) @ replicate (MAX_LENGTH + 1) (CHR 0x00)\<rparr>"
  have "read_prefix P (frame_header i (length b)) = (True, ?n)"
    using read_prefix_frame [OF assms(1) l] assms(2) by simp
  moreover have "body_size ?n = length b"
    using body_size_frame [OF assms(2), of i] by (simp add: body_size_def frame_node_def)
  moreover have "read_body b ?n = frame_node i b"
    by (simp add: read_body_def blit_def frame_node_def del: replicate_Suc)
  ultimately show ?thesis
    using assms(2) by (simp add: wire_frame read_frame_def)
qed


section \<open>Frames in sequence\<close>

text \<open>
  The reader's loop over a stream: frames are taken off the front until the bytes end or a header
  is refused; each round spends one unit of fuel and every frame takes at least one byte.
\<close>

fun read_all :: "(string \<Rightarrow> 'm read_result) \<Rightarrow> nat \<Rightarrow> string \<Rightarrow> 'm list \<times> string \<times> bool" where
  "read_all rd 0 bs = ([], bs, False)"
| "read_all rd (Suc fuel) bs =
     (case rd bs of
        NeedMore \<Rightarrow> ([], bs, False)
      | BadHeader \<Rightarrow> ([], bs, True)
      | Frame m rest \<Rightarrow> (let (ms, r, bad) = read_all rd fuel rest in (m # ms, r, bad)))"

locale framing =
  fixes ok :: "'p \<Rightarrow> bool"
    and valid :: "'m \<Rightarrow> bool"
    and enc :: "'m \<Rightarrow> string"
    and rd :: "'p \<Rightarrow> string \<Rightarrow> 'm read_result"
  assumes rd_enc: "ok p \<Longrightarrow> valid m \<Longrightarrow> rd p (enc m @ rest) = Frame m rest"
begin

lemma stream:
  assumes "ok p" "\<forall>m\<in>set ms. valid m" "rd p tail = NeedMore"
  shows "length ms < fuel \<Longrightarrow> read_all (rd p) fuel (concat (map enc ms) @ tail) = (ms, tail, False)"
  using assms(2)
proof (induction ms arbitrary: fuel)
  case Nil
  then show ?case using assms(3) by (cases fuel) auto
next
  case (Cons m ms)
  then show ?case using assms(1) by (cases fuel) (auto simp: rd_enc)
qed

lemma enc_nonempty: "ok p \<Longrightarrow> valid m \<Longrightarrow> rd p [] = NeedMore \<Longrightarrow> enc m \<noteq> []"
  using rd_enc [of p m "[]"] by auto

lemma stream_inj:
  assumes "ok p" "\<forall>m\<in>set ms. valid m" "\<forall>m\<in>set ns. valid m" "rd p [] = NeedMore"
    and "concat (map enc ms) = concat (map enc ns)"
  shows "ms = ns"
proof -
  let ?f = "Suc (length ms + length ns)"
  have "read_all (rd p) ?f (concat (map enc ms) @ []) = (ms, [], False)"
    "read_all (rd p) ?f (concat (map enc ns) @ []) = (ns, [], False)"
    by (rule stream [OF assms(1) _ assms(4)]; use assms in simp)+
  then show ?thesis using assms(5) by simp
qed

end

definition valid_node :: "msg_node \<Rightarrow> bool" where
  "valid_node n \<longleftrightarrow> (\<exists>i b. length b \<le> MAX_LENGTH \<and> n = frame_node i b)"

interpretation net: framing platform_ok valid_node wire read_frame
  by unfold_locales (auto simp: valid_node_def read_frame_wire)

lemma read_frame_Nil [simp]: "read_frame P [] = NeedMore"
  by (simp add: read_frame_def len_defs)

lemma valid_mk_node:
  "platform_ok P \<Longrightarrow> strlen b < 2 ^ 31 \<Longrightarrow> valid_node (mk_node P i (Some b))"
  by (cases "strlen b \<le> MAX_LENGTH")
    (use mk_node_fits mk_node_too_long strlen_def in
      \<open>force simp: valid_node_def\<close>, metis mk_node_too_long not_le valid_node_def list.size(3) zero_le)

lemma valid_node_buffer:
  "valid_node n \<Longrightarrow> length (mn_data n) = PREFIX_LEN + MAX_LENGTH + 1 \<and> body_size n \<le> MAX_LENGTH"
  by (auto simp: valid_node_def) (simp add: frame_node_def)

end
