(* ===== verification/Effects.thy ===== *)
theory Effects
  imports Prelude
begin

text \<open>
  The calls a handler makes outside its own process, and what comes back: Redis commands
  (\<^verbatim>\<open>common/redis_client.cpp\<close>), SQL statements (the repositories of the chat and the gate server),
  gRPC requests (\<^verbatim>\<open>proto/message.proto\<close>) and fresh UUIDs. The services themselves are not code of
  this repository: nothing is assumed here about what they answer.
\<close>

section \<open>Redis\<close>

text \<open>
  A command as it is pushed on the request. A reply is the transport or adapter error
  (\<^verbatim>\<open>ec\<close> set), the server's error (\<^verbatim>\<open>has_error()\<close>), or the value the adapter stored.
\<close>

datatype redis_cmd =
    R_GET string
  | R_SET string string
  | R_SETEX string string string
  | R_HSET string "(string \<times> i64) list"
  | R_HGETALL string

datatype redis_value = R_Nil | R_Str string | R_Int int | R_Map "(string \<times> i64) list"

datatype redis_reply = R_Transport | R_ServerError | R_Value redis_value

section \<open>SQL\<close>

text \<open>
  One constructor per statement text of the repositories, with the values bound to its
  placeholders; \<open>AuthFriendTx\<close> is the batch of five statements from \<^verbatim>\<open>START TRANSACTION\<close> to
  \<^verbatim>\<open>COMMIT\<close>. The result sets carry column names, from which \<^verbatim>\<open>static_results\<close> fills its rows.
\<close>

datatype sql_stmt =
    InsertFriendApply i64 i64
  | AuthFriendTx i64 i64
  | SelectFriendApplies i64
  | SelectFriends i64
  | SelectUserById i64
  | SelectUserByName string
  | InsertUser string string string
  | UpdatePassword string string string
  | SelectIdByPassword string string

datatype sql_cmd = GetConnection | PrepareInsertUser | Execute sql_stmt

datatype sql_field = F_Null | F_Int int | F_Str string

type_synonym sql_row = "(string \<times> sql_field) list"

record sql_result =
  res_rows :: "sql_row list"
  res_affected :: nat
  res_last_id :: u64

datatype sql_reply = SqlError int | SqlOk "sql_result list"

section \<open>gRPC messages: \<^verbatim>\<open>proto/message.proto\<close>\<close>

record pb_add_friend_req =
  afr_applyuid :: i32
  afr_name :: string
  afr_touid :: i32

record pb_add_friend_rsp =
  afs_error :: i32
  afs_applyuid :: i32
  afs_touid :: i32

record pb_auth_friend_req =
  aur_fromuid :: i32
  aur_touid :: i32

record pb_auth_friend_rsp =
  aus_error :: i32
  aus_fromuid :: i32
  aus_touid :: i32

record pb_text_chat_data =
  pb_msg_id :: i32
  pb_msgcontent :: string

record pb_text_chat_req =
  tcr_fromuid :: i32
  tcr_touid :: i32
  tcr_textmsgs :: "pb_text_chat_data list"

record pb_text_chat_rsp =
  tcs_error :: i32
  tcs_fromuid :: i32
  tcs_touid :: i32
  tcs_textmsgs :: "pb_text_chat_data list"

record pb_verify_rsp =
  gvr_error :: i32
  gvr_email :: string
  gvr_code :: string

record pb_chat_server_rsp =
  gcs_error :: i32
  gcs_host :: string
  gcs_port :: i32
  gcs_token :: string

record pb_login_rsp =
  lgs_error :: i32
  lgs_uid :: i32
  lgs_token :: string

text \<open>A request names the remote method; a reply of another message type does not deserialise.\<close>

datatype rpc_call =
    CallNotifyAddFriend pb_add_friend_req
  | CallNotifyAuthFriend pb_auth_friend_req
  | CallNotifyTextChatMsg pb_text_chat_req
  | CallGetVerifyCode string
  | CallGetChatServer i32
  | CallLogin i32 string

datatype rpc_reply =
    RpcFailed string
  | RspAddFriend pb_add_friend_rsp
  | RspAuthFriend pb_auth_friend_rsp
  | RspTextChat pb_text_chat_rsp
  | RspVerify pb_verify_rsp
  | RspChatServer pb_chat_server_rsp
  | RspLogin pb_login_rsp

end
