(* ===== verification/Coroutine.thy ===== *)
theory Coroutine
  imports Effects
begin

text \<open>
  \<^verbatim>\<open>boost::asio::awaitable\<close>: a coroutine over the state \<open>'s\<close> of its process is the tree of the
  calls it suspends on. Between two calls it reads (\<open>Get\<close>) and updates (\<open>Upd\<close>, which goes on
  with the state it found) the process state without being interrupted; at a \<open>RedisC\<close>, \<open>SqlC\<close> or \<open>UuidC\<close> node others may run; an
  \<open>RpcC\<close> node is a blocking gRPC stub call. \<open>Throw\<close> is an exception that leaves the coroutine.
\<close>

datatype exn = MysqlError int | StdException

datatype ('s, 'a) cor =
    Done 'a
  | Throw exn
  | RedisC redis_cmd "redis_reply \<Rightarrow> ('s, 'a) cor"
  | SqlC sql_cmd "sql_reply \<Rightarrow> ('s, 'a) cor"
  | RpcC rpc_call "rpc_reply \<Rightarrow> ('s, 'a) cor"
  | UuidC "string \<Rightarrow> ('s, 'a) cor"
  | Get "'s \<Rightarrow> ('s, 'a) cor"
  | Upd "'s \<Rightarrow> 's" "'s \<Rightarrow> ('s, 'a) cor"

text \<open>Induction with one hypothesis per possible answer.\<close>

lemma cor_induct [case_names Done Throw RedisC SqlC RpcC UuidC Get Upd, induct type: cor]:
  assumes "\<And>x. P (Done x)" "\<And>e. P (Throw e)"
    and "\<And>q k. (\<And>r. P (k r)) \<Longrightarrow> P (RedisC q k)"
    and "\<And>q k. (\<And>r. P (k r)) \<Longrightarrow> P (SqlC q k)"
    and "\<And>q k. (\<And>r. P (k r)) \<Longrightarrow> P (RpcC q k)"
    and "\<And>k. (\<And>u. P (k u)) \<Longrightarrow> P (UuidC k)"
    and "\<And>k. (\<And>s. P (k s)) \<Longrightarrow> P (Get k)"
    and "\<And>g k. (\<And>s. P (k s)) \<Longrightarrow> P (Upd g k)"
  shows "P c"
  by (rule cor.induct) (auto intro: assms)

section \<open>Sequencing and \<^verbatim>\<open>try\<close>/\<^verbatim>\<open>catch\<close>\<close>

primrec bind :: "('s, 'a) cor \<Rightarrow> ('a \<Rightarrow> ('s, 'b) cor) \<Rightarrow> ('s, 'b) cor" where
  "bind (Done x) f = f x"
| "bind (Throw e) f = Throw e"
| "bind (RedisC q k) f = RedisC q (\<lambda>r. bind (k r) f)"
| "bind (SqlC q k) f = SqlC q (\<lambda>r. bind (k r) f)"
| "bind (RpcC q k) f = RpcC q (\<lambda>r. bind (k r) f)"
| "bind (UuidC k) f = UuidC (\<lambda>u. bind (k u) f)"
| "bind (Get k) f = Get (\<lambda>s. bind (k s) f)"
| "bind (Upd g k) f = Upd g (\<lambda>s. bind (k s) f)"

primrec catch :: "('s, 'a) cor \<Rightarrow> (exn \<Rightarrow> ('s, 'a) cor) \<Rightarrow> ('s, 'a) cor" where
  "catch (Done x) h = Done x"
| "catch (Throw e) h = h e"
| "catch (RedisC q k) h = RedisC q (\<lambda>r. catch (k r) h)"
| "catch (SqlC q k) h = SqlC q (\<lambda>r. catch (k r) h)"
| "catch (RpcC q k) h = RpcC q (\<lambda>r. catch (k r) h)"
| "catch (UuidC k) h = UuidC (\<lambda>u. catch (k u) h)"
| "catch (Get k) h = Get (\<lambda>s. catch (k s) h)"
| "catch (Upd g k) h = Upd g (\<lambda>s. catch (k s) h)"

text \<open>A synchronous call that returns or throws.\<close>

fun lift :: "exn + 'a \<Rightarrow> ('s, 'a) cor" where
  "lift (Inl e) = Throw e"
| "lift (Inr x) = Done x"

lemma bind_assoc: "bind (bind m f) g = bind m (\<lambda>x. bind (f x) g)"
  by (induction m) auto

lemma bind_Done [simp]: "bind m Done = m"
  by (induction m) auto

section \<open>Running with an environment\<close>

text \<open>
  The environment answers each call and may change the state while the coroutine is suspended: an
  arbitrary environment stands for any interleaving with the other coroutines of the process and
  any behaviour of the services. Theorems over all environments therefore hold under concurrency.
\<close>

record 's environment =
  on_redis :: "redis_cmd \<Rightarrow> 's \<Rightarrow> redis_reply \<times> 's"
  on_sql :: "sql_cmd \<Rightarrow> 's \<Rightarrow> sql_reply \<times> 's"
  on_rpc :: "rpc_call \<Rightarrow> 's \<Rightarrow> rpc_reply \<times> 's"
  on_uuid :: "'s \<Rightarrow> string \<times> 's"

primrec run :: "'s environment \<Rightarrow> ('s, 'a) cor \<Rightarrow> 's \<Rightarrow> (exn + 'a) \<times> 's" where
  "run env (Done x) = (\<lambda>s. (Inr x, s))"
| "run env (Throw e) = (\<lambda>s. (Inl e, s))"
| "run env (RedisC q k) = (\<lambda>s. case on_redis env q s of (r, s') \<Rightarrow> run env (k r) s')"
| "run env (SqlC q k) = (\<lambda>s. case on_sql env q s of (r, s') \<Rightarrow> run env (k r) s')"
| "run env (RpcC q k) = (\<lambda>s. case on_rpc env q s of (r, s') \<Rightarrow> run env (k r) s')"
| "run env (UuidC k) = (\<lambda>s. case on_uuid env s of (u, s') \<Rightarrow> run env (k u) s')"
| "run env (Get k) = (\<lambda>s. run env (k s) s)"
| "run env (Upd g k) = (\<lambda>s. run env (k s) (g s))"

lemma run_bind [cor_simps]:
  "run env (bind m f) s =
     (case run env m s of (Inl e, s') \<Rightarrow> (Inl e, s') | (Inr x, s') \<Rightarrow> run env (f x) s')"
  by (induction m arbitrary: s) (auto split: prod.splits)

lemma run_catch [cor_simps]:
  "run env (catch m h) s =
     (case run env m s of (Inl e, s') \<Rightarrow> run env (h e) s' | (Inr x, s') \<Rightarrow> (Inr x, s'))"
  by (induction m arbitrary: s) (auto split: prod.splits)

lemma run_lift [simp]: "run env (lift r) s = (r, s)"
  by (cases r) auto

section \<open>Guarantees over every interleaving\<close>

text \<open>
  \<open>guar G L c\<close>: whatever the services answer and whatever state the process is in when the
  coroutine resumes, each update it makes is allowed by \<open>G\<close>, which may depend on the Redis
  replies this coroutine has seen (\<open>L\<close> and those of its own run).
\<close>

type_synonym redis_log = "(redis_cmd \<times> redis_reply) set"

primrec guar :: "(redis_log \<Rightarrow> 's \<Rightarrow> 's \<Rightarrow> bool) \<Rightarrow> redis_log \<Rightarrow> ('s, 'a) cor \<Rightarrow> bool" where
  "guar G L (Done x) = True"
| "guar G L (Throw e) = True"
| "guar G L (RedisC q k) = (\<forall>r. guar G (insert (q, r) L) (k r))"
| "guar G L (SqlC q k) = (\<forall>r. guar G L (k r))"
| "guar G L (RpcC q k) = (\<forall>r. guar G L (k r))"
| "guar G L (UuidC k) = (\<forall>u. guar G L (k u))"
| "guar G L (Get k) = (\<forall>s. guar G L (k s))"
| "guar G L (Upd g k) = ((\<forall>s. G L s (g s)) \<and> (\<forall>s. guar G L (k s)))"

definition log_mono :: "(redis_log \<Rightarrow> 's \<Rightarrow> 's \<Rightarrow> bool) \<Rightarrow> bool" where
  "log_mono G \<longleftrightarrow> (\<forall>L L' s t. L \<subseteq> L' \<longrightarrow> G L s t \<longrightarrow> G L' s t)"

lemma guar_mono: "log_mono G \<Longrightarrow> guar G L c \<Longrightarrow> L \<subseteq> L' \<Longrightarrow> guar G L' c"
proof (induction c arbitrary: L L')
  case (RedisC q k)
  then show ?case by simp (meson insert_mono)
next
  case (Upd g k)
  then show ?case unfolding log_mono_def by simp blast
qed (simp_all, blast+)

lemma guar_weaken:
  assumes "\<And>L s t. G L s t \<Longrightarrow> H L s t"
  shows "guar G L c \<Longrightarrow> guar H L c"
  using assms by (induction c arbitrary: L) auto

lemma guar_bind [guar_intros]:
  assumes "log_mono G" "guar G L m" "\<And>x L'. L \<subseteq> L' \<Longrightarrow> guar G L' (f x)"
  shows "guar G L (bind m f)"
  using assms(2,3)
proof (induction m arbitrary: L)
  case (RedisC q k)
  then show ?case by simp (meson subset_insertI subset_trans)
qed auto

lemma guar_catch [guar_intros]:
  assumes "log_mono G" "guar G L m" "\<And>e L'. L \<subseteq> L' \<Longrightarrow> guar G L' (h e)"
  shows "guar G L (catch m h)"
  using assms(2,3)
proof (induction m arbitrary: L)
  case (RedisC q k)
  then show ?case by simp (meson subset_insertI subset_trans)
qed auto

lemma guar_lift [simp, guar_intros]: "guar G L (lift r)"
  by (cases r) auto

text \<open>A coroutine that performs calls but never touches the state of its process.\<close>

abbreviation quiet :: "('s, 'a) cor \<Rightarrow> bool" where
  "quiet c \<equiv> guar (\<lambda>_ _ _. False) {} c"

lemma quiet_guar [guar_intros]: "quiet c \<Longrightarrow> guar G L c"
proof -
  assume "quiet c"
  then have "guar (\<lambda>_ _ _. False) L c"
    by (rule guar_mono [rotated]) (auto simp: log_mono_def)
  then show "guar G L c" by (rule guar_weaken [rotated]) simp
qed

lemma log_mono_False [simp]: "log_mono (\<lambda>_ _ _. False)"
  by (simp add: log_mono_def)

lemma quiet_bind: "quiet m \<Longrightarrow> (\<And>x. quiet (f x)) \<Longrightarrow> quiet (bind m f)"
  by (intro guar_bind) (auto intro: quiet_guar)

section \<open>One scheduling slice\<close>

text \<open>What runs between two suspensions: reads and updates up to the next call or the end.\<close>

primrec settle :: "('s, 'a) cor \<Rightarrow> 's \<Rightarrow> 's \<times> ('s, 'a) cor" where
  "settle (Done x) = (\<lambda>s. (s, Done x))"
| "settle (Throw e) = (\<lambda>s. (s, Throw e))"
| "settle (RedisC q k) = (\<lambda>s. (s, RedisC q k))"
| "settle (SqlC q k) = (\<lambda>s. (s, SqlC q k))"
| "settle (RpcC q k) = (\<lambda>s. (s, RpcC q k))"
| "settle (UuidC k) = (\<lambda>s. (s, UuidC k))"
| "settle (Get k) = (\<lambda>s. settle (k s) s)"
| "settle (Upd g k) = (\<lambda>s. settle (k s) (g s))"

lemma settle_guar:
  assumes "guar G L c" "settle c s = (s', c')"
    and "\<And>s t. P s \<Longrightarrow> G L s t \<Longrightarrow> P t" "P s"
  shows "guar G L c' \<and> P s'"
  using assms by (induction c arbitrary: s) auto

lemma run_settle: "settle c s = (s', c') \<Longrightarrow> run env c s = run env c' s'"
  by (induction c arbitrary: s) auto

end
