(* ===== verification/ChatTypes.thy ===== *)
theory ChatTypes
  imports Json MessageCommon MsgNode Coroutine
begin

text \<open>
  The data of the chat server: \<^verbatim>\<open>chat_server/types.hpp\<close>, the request and response classes of
  \<^verbatim>\<open>handle_message.cpp\<close>, the message classes of \<^verbatim>\<open>grpc_service.hpp\<close> with their protobuf
  conversions, and the error envelopes every handler answers with.
\<close>

section \<open>\<^verbatim>\<open>types.hpp\<close>\<close>

record friend_apply =
  fa_from_uid :: i64
  fa_to_uid :: i64

record user_info =
  ui_id :: i64
  ui_name :: string
  ui_email :: string
  ui_pwd :: string

record friend_apply_row =
  far_status :: i32
  far_from_uid :: i64
  far_name :: string

record friend_row =
  fr_friend_id :: i64
  fr_back :: "string option"
  fr_name :: string

record user_detail =
  ud_id :: i64
  ud_name :: string

record friend_apply_info =
  fai_status :: i32
  fai_user_detail :: user_detail

record friend_info =
  fi_back :: string
  fi_user_detail :: user_detail

definition friend_apply_info_of :: "friend_apply_row \<Rightarrow> friend_apply_info" where
  "friend_apply_info_of r = \<lparr>fai_status = far_status r,
     fai_user_detail = \<lparr>ud_id = far_from_uid r, ud_name = far_name r\<rparr>\<rparr>"

definition friend_info_of :: "friend_row \<Rightarrow> friend_info" where
  "friend_info_of r = \<lparr>fi_back = (case fr_back r of Some b \<Rightarrow> b | None \<Rightarrow> ''''),
     fi_user_detail = \<lparr>ud_id = fr_friend_id r, ud_name = fr_name r\<rparr>\<rparr>"

text \<open>The library functions the chat server calls: nlohmann, magic_enum, Boost.Endian, Boost.JSON.\<close>

record libs =
  lb_json :: json_lib
  lb_enum :: enum_lib
  lb_platform :: platform
  bj_parse_user :: "string \<Rightarrow> user_info option"
  bj_serialize_user :: "user_info \<Rightarrow> string"

definition libs_ok :: "libs \<Rightarrow> bool" where
  "libs_ok L \<longleftrightarrow> json_lib_ok (lb_json L) \<and> enum_lib_ok (lb_enum L) \<and> platform_ok (lb_platform L) \<and>
     (\<forall>u. bj_parse_user L (bj_serialize_user L u) = Some u)"

section \<open>JSON of the classes\<close>

definition user_detail_to_json :: "user_detail \<Rightarrow> json" where
  "user_detail_to_json u =
     json_set ''name'' (JStr (ud_name u)) (json_set ''id'' (of_i64 (ud_id u)) JNull)"

definition friend_apply_info_to_json :: "friend_apply_info \<Rightarrow> json" where
  "friend_apply_info_to_json i =
     json_set ''status'' (of_i32 (fai_status i)) (user_detail_to_json (fai_user_detail i))"

definition friend_info_to_json :: "friend_info \<Rightarrow> json" where
  "friend_info_to_json i =
     json_set ''back'' (JStr (fi_back i)) (user_detail_to_json (fi_user_detail i))"

definition user_detail_from_json :: "json_lib \<Rightarrow> json \<Rightarrow> user_detail option" where
  "user_detail_from_json J j =
     Option.bind (field_i64 J ''id'' j) (\<lambda>i.
     Option.bind (field_string J ''name'' j) (\<lambda>n. Some \<lparr>ud_id = i, ud_name = n\<rparr>))"

definition friend_apply_info_from_json :: "json_lib \<Rightarrow> json \<Rightarrow> friend_apply_info option" where
  "friend_apply_info_from_json J j =
     Option.bind (field_i32 J ''status'' j) (\<lambda>st.
     Option.bind (user_detail_from_json J j) (\<lambda>d.
       Some \<lparr>fai_status = st, fai_user_detail = d\<rparr>))"

definition friend_info_from_json :: "json_lib \<Rightarrow> json \<Rightarrow> friend_info option" where
  "friend_info_from_json J j =
     Option.bind (user_detail_from_json J j) (\<lambda>d.
     Option.bind (field_string J ''back'' j) (\<lambda>b.
       Some \<lparr>fi_back = b, fi_user_detail = d\<rparr>))"

record user_login_request =
  ulr_uid :: i64
  ulr_token :: string

definition user_login_request_from_json :: "json_lib \<Rightarrow> json \<Rightarrow> user_login_request option" where
  "user_login_request_from_json J j =
     Option.bind (field_i64 J ''uid'' j) (\<lambda>u.
     Option.bind (field_string J ''token'' j) (\<lambda>t. Some \<lparr>ulr_uid = u, ulr_token = t\<rparr>))"

record user_login_response =
  uls_uid :: i64
  uls_token :: string
  uls_name :: string
  uls_apply_list :: "friend_apply_info list"
  uls_friend_list :: "friend_info list"

definition user_login_response_to_json :: "user_login_response \<Rightarrow> json" where
  "user_login_response_to_json r =
     json_set ''friend_list'' (JArr (map friend_info_to_json (uls_friend_list r)))
     (json_set ''apply_list'' (JArr (map friend_apply_info_to_json (uls_apply_list r)))
     (json_set ''name'' (JStr (uls_name r))
     (json_set ''token'' (JStr (uls_token r))
     (json_set ''uid'' (of_i64 (uls_uid r)) JNull))))"

record add_friend_request =
  adr_uid :: i64
  adr_touid :: i64

definition add_friend_request_from_json :: "json_lib \<Rightarrow> json \<Rightarrow> add_friend_request option" where
  "add_friend_request_from_json J j =
     Option.bind (field_i64 J ''uid'' j) (\<lambda>u.
     Option.bind (field_i64 J ''touid'' j) (\<lambda>t. Some \<lparr>adr_uid = u, adr_touid = t\<rparr>))"

record auth_friend_request =
  ahr_fromuid :: i64
  ahr_touid :: i64

definition auth_friend_request_from_json :: "json_lib \<Rightarrow> json \<Rightarrow> auth_friend_request option" where
  "auth_friend_request_from_json J j =
     Option.bind (field_i64 J ''fromuid'' j) (\<lambda>u.
     Option.bind (field_i64 J ''touid'' j) (\<lambda>t. Some \<lparr>ahr_fromuid = u, ahr_touid = t\<rparr>))"

record text_chat_data =
  tcd_msgid :: i64
  tcd_content :: string

definition text_chat_data_to_json :: "text_chat_data \<Rightarrow> json" where
  "text_chat_data_to_json d =
     json_set ''content'' (JStr (tcd_content d)) (json_set ''msgid'' (of_i64 (tcd_msgid d)) JNull)"

definition text_chat_data_from_json :: "json_lib \<Rightarrow> json \<Rightarrow> text_chat_data option" where
  "text_chat_data_from_json J j =
     Option.bind (field_i64 J ''msgid'' j) (\<lambda>m.
     Option.bind (field_string J ''content'' j) (\<lambda>c. Some \<lparr>tcd_msgid = m, tcd_content = c\<rparr>))"

text \<open>
  \<^verbatim>\<open>TextChatMsgRequest\<close> and \<^verbatim>\<open>NotifyTextChatMessage\<close> have the same members; the conversion
  operator copies them.
\<close>

record text_chat_msg =
  tcm_fromuid :: i64
  tcm_touid :: i64
  tcm_text_array :: "text_chat_data list"

definition text_chat_msg_from_json :: "json_lib \<Rightarrow> json \<Rightarrow> text_chat_msg option" where
  "text_chat_msg_from_json J j =
     Option.bind (field_i64 J ''fromuid'' j) (\<lambda>u.
     Option.bind (field_i64 J ''touid'' j) (\<lambda>t.
     Option.bind (field_list (text_chat_data_from_json J) ''text_array'' j) (\<lambda>a.
       Some \<lparr>tcm_fromuid = u, tcm_touid = t, tcm_text_array = a\<rparr>)))"

definition text_chat_msg_to_json :: "text_chat_msg \<Rightarrow> json" where
  "text_chat_msg_to_json m =
     json_set ''text_array'' (JArr (map text_chat_data_to_json (tcm_text_array m)))
     (json_set ''touid'' (of_i64 (tcm_touid m))
     (json_set ''fromuid'' (of_i64 (tcm_fromuid m)) JNull))"

record notify_add_friend_msg =
  naf_applyuid :: i64
  naf_name :: string

definition notify_add_friend_msg_to_json :: "notify_add_friend_msg \<Rightarrow> json" where
  "notify_add_friend_msg_to_json m =
     json_set ''name'' (JStr (naf_name m)) (json_set ''applyuid'' (of_i64 (naf_applyuid m)) JNull)"

record notify_auth_friend_msg =
  nau_fromuid :: i64
  nau_touid :: i64

definition notify_auth_friend_msg_to_json :: "notify_auth_friend_msg \<Rightarrow> json" where
  "notify_auth_friend_msg_to_json m =
     json_set ''touid'' (of_i64 (nau_touid m)) (json_set ''fromuid'' (of_i64 (nau_fromuid m)) JNull)"

definition notify_auth_of_request :: "auth_friend_request \<Rightarrow> notify_auth_friend_msg" where
  "notify_auth_of_request r = \<lparr>nau_fromuid = ahr_fromuid r, nau_touid = ahr_touid r\<rparr>"

section \<open>Protobuf conversions of \<^verbatim>\<open>grpc_service.hpp\<close>\<close>

text \<open>The message fields are \<^verbatim>\<open>int32\<close>; the setters narrow the 64-bit ids, the getters widen them.\<close>

definition pb_of_add_friend :: "i64 \<Rightarrow> string \<Rightarrow> i64 \<Rightarrow> pb_add_friend_req" where
  "pb_of_add_friend from_uid name to_uid =
     \<lparr>afr_applyuid = narrow_i32 from_uid, afr_name = name, afr_touid = narrow_i32 to_uid\<rparr>"

definition pb_of_auth_friend :: "i64 \<Rightarrow> i64 \<Rightarrow> pb_auth_friend_req" where
  "pb_of_auth_friend from_uid to_uid =
     \<lparr>aur_fromuid = narrow_i32 from_uid, aur_touid = narrow_i32 to_uid\<rparr>"

definition pb_of_text_chat :: "text_chat_msg \<Rightarrow> pb_text_chat_req" where
  "pb_of_text_chat m =
     \<lparr>tcr_fromuid = narrow_i32 (tcm_fromuid m), tcr_touid = narrow_i32 (tcm_touid m),
      tcr_textmsgs = map (\<lambda>d. \<lparr>pb_msg_id = narrow_i32 (tcd_msgid d), pb_msgcontent = tcd_content d\<rparr>)
        (tcm_text_array m)\<rparr>"

definition notify_add_friend_of_pb :: "pb_add_friend_req \<Rightarrow> notify_add_friend_msg" where
  "notify_add_friend_of_pb r = \<lparr>naf_applyuid = widen_i64 (afr_applyuid r), naf_name = afr_name r\<rparr>"

definition notify_auth_friend_of_pb :: "pb_auth_friend_req \<Rightarrow> notify_auth_friend_msg" where
  "notify_auth_friend_of_pb r =
     \<lparr>nau_fromuid = widen_i64 (aur_fromuid r), nau_touid = widen_i64 (aur_touid r)\<rparr>"

definition notify_text_chat_of_pb :: "pb_text_chat_req \<Rightarrow> text_chat_msg" where
  "notify_text_chat_of_pb r =
     \<lparr>tcm_fromuid = widen_i64 (tcr_fromuid r), tcm_touid = widen_i64 (tcr_touid r),
      tcm_text_array = map (\<lambda>d. \<lparr>tcd_msgid = widen_i64 (pb_msg_id d), tcd_content = pb_msgcontent d\<rparr>)
        (tcr_textmsgs r)\<rparr>"

section \<open>Messages and error envelopes\<close>

record channel_message =
  cm_msg :: msg_node
  cm_close_after_send :: bool

text \<open>\<^verbatim>\<open>json.dump()\<close> throws on text that is not UTF-8.\<close>

definition dump_text :: "libs \<Rightarrow> json \<Rightarrow> exn + string" where
  "dump_text L j = (case dump (lb_json L) j of None \<Rightarrow> Inl StdException | Some s \<Rightarrow> Inr s)"

definition channel_of :: "msg_node \<Rightarrow> channel_message" where
  "channel_of n = \<lparr>cm_msg = n, cm_close_after_send = False\<rparr>"

definition node_of_json :: "libs \<Rightarrow> u32 \<Rightarrow> json \<Rightarrow> exn + msg_node" where
  "node_of_json L rid j =
     (case dump_text L j of Inl e \<Rightarrow> Inl e | Inr s \<Rightarrow> Inr (mk_node (lb_platform L) rid (Some s)))"

definition empty_response :: "libs \<Rightarrow> u32 \<Rightarrow> channel_message" where
  "empty_response L i = channel_of (mk_node (lb_platform L) i None)"

definition error_json :: "libs \<Rightarrow> server_error \<Rightarrow> json \<Rightarrow> json" where
  "error_json L e j =
     json_set ''message'' (JStr (name_server_error (lb_enum L) e))
     (json_set ''error'' (JUInt (unat (error_code e))) j)"

definition error_response :: "libs \<Rightarrow> u32 \<Rightarrow> server_error \<Rightarrow> exn + channel_message" where
  "error_response L rid e = map_sum id channel_of (node_of_json L rid (error_json L e JNull))"

definition message_response :: "libs \<Rightarrow> u32 \<Rightarrow> exn + channel_message" where
  "message_response L rid = map_sum id channel_of (node_of_json L rid (error_json L Success JNull))"

definition error_response_and_close :: "libs \<Rightarrow> u32 \<Rightarrow> server_error \<Rightarrow> exn + channel_message" where
  "error_response_and_close L rid e =
     map_sum id (\<lambda>m. m\<lparr>cm_close_after_send := True\<rparr>) (error_response L rid e)"

definition response_payload :: "json option \<Rightarrow> nat \<Rightarrow> string \<Rightarrow> json" where
  "response_payload body err msg =
     (let j = json_set ''message'' (JStr msg) (json_set ''status'' (JUInt (err mod 256)) JNull)
      in case body of Some b \<Rightarrow> json_set ''data'' b j | None \<Rightarrow> j)"

end
