(* ===== verification/SampleLibs.thy ===== *)
theory SampleLibs
  imports ChatTypes
begin

text \<open>
  One concrete instance of the library functions that are parameters of the model, with the proof
  that it behaves as documented. The statements about the program hold for every such library; this
  one shows that their hypotheses can be met, and lets them be applied to concrete inputs. Its JSON
  text is a compact prefix code rather than the standard notation.
\<close>

section \<open>A text for JSON values\<close>

definition quote :: char where "quote = CHR 0x22"
definition backslash :: char where "backslash = CHR 0x5C"

definition escape :: "char \<Rightarrow> string" where
  "escape c = (if c = CHR 0x00 then [backslash, CHR ''0'']
     else if c = quote then [backslash, CHR ''q'']
     else if c = backslash then [backslash, CHR ''b'']
     else [c])"

definition unescape :: "char \<Rightarrow> char" where
  "unescape c = (if c = CHR ''0'' then CHR 0x00 else if c = CHR ''q'' then quote else backslash)"

definition print_string :: "string \<Rightarrow> string" where
  "print_string s = concat (map escape s) @ [quote]"

fun read_string :: "string \<Rightarrow> (string \<times> string) option" where
  "read_string [] = None"
| "read_string [c] = (if c = quote then Some ([], []) else None)"
| "read_string (c # d # s) =
     (if c = quote then Some ([], d # s)
      else if c = backslash then map_option (map_prod ((#) (unescape d)) id) (read_string s)
      else map_option (map_prod ((#) c) id) (read_string (d # s)))"

lemma read_print_string [simp]: "read_string (print_string s @ r) = Some (s, r)"
proof (induction s)
  case Nil
  then show ?case by (cases r) (simp_all add: print_string_def)
next
  case (Cons c s)
  obtain d t where "print_string s @ r = d # t" by (cases "print_string s @ r") (auto simp: print_string_def)
  with Cons show ?case
    by (auto simp: print_string_def escape_def unescape_def quote_def backslash_def)
qed

definition print_nat :: "nat \<Rightarrow> string" where
  "print_nat n = dec_nat n @ [CHR ''.'']"

definition read_nat :: "string \<Rightarrow> nat \<times> string" where
  "read_nat s = (undec (takeWhile (\<lambda>c. c \<noteq> CHR ''.'') s), tl (dropWhile (\<lambda>c. c \<noteq> CHR ''.'') s))"

lemma dec_nat_chars: "c \<in> set (dec_nat n) \<Longrightarrow> 48 \<le> (of_char c :: nat) \<and> of_char c < (58 :: nat)"
proof (induction n rule: dec_nat.induct)
  case (1 n)
  have "48 \<le> (of_char (digit k) :: nat) \<and> of_char (digit k) < (58 :: nat)" if "k < 10" for k
    using that by (simp add: digit_def)
  then show ?case
    using 1 by (subst (asm) dec_nat.simps) (auto split: if_splits)
qed

lemma read_print_nat [simp]: "read_nat (print_nat n @ r) = (n, r)"
proof -
  have "c \<noteq> CHR ''.''" if "c \<in> set (dec_nat n)" for c
    using dec_nat_chars [OF that] by auto
  then show ?thesis
    by (simp add: read_nat_def print_nat_def takeWhile_append2 dropWhile_append2)
qed

primrec print_json :: "json \<Rightarrow> string" where
  "print_json JNull = ''n''"
| "print_json (JBool b) = (if b then ''t'' else ''f'')"
| "print_json (JInt i) = (if 0 \<le> i then CHR ''u'' # print_nat (nat i) else CHR ''i'' # print_nat (nat (- i)))"
| "print_json (JUInt n) = CHR ''u'' # print_nat n"
| "print_json (JFloat m e) = ''x''"
| "print_json (JStr s) = CHR ''s'' # print_string s"
| "print_json (JArr js) = CHR ''['' # concat (map print_json js) @ '']''"
| "print_json (JObj es) = CHR ''{'' #
     concat (map (\<lambda>e. CHR ''k'' # print_string (fst e) @ snd e) (map (map_prod id print_json) es)) @ ''}''"

text \<open>The fuel is the length of the text: every value and every element takes a character.\<close>

fun read_json :: "nat \<Rightarrow> string \<Rightarrow> (json \<times> string) option"
  and read_elements :: "nat \<Rightarrow> string \<Rightarrow> (json list \<times> string) option"
  and read_members :: "nat \<Rightarrow> string \<Rightarrow> ((string \<times> json) list \<times> string) option" where
  "read_json (Suc f) (c # s) =
     (if c = CHR ''n'' then Some (JNull, s)
      else if c = CHR ''t'' then Some (JBool True, s)
      else if c = CHR ''f'' then Some (JBool False, s)
      else if c = CHR ''u'' then Some (JUInt (fst (read_nat s)), snd (read_nat s))
      else if c = CHR ''i'' then Some (JInt (- int (fst (read_nat s))), snd (read_nat s))
      else if c = CHR ''s'' then map_option (map_prod JStr id) (read_string s)
      else if c = CHR ''['' then map_option (map_prod JArr id) (read_elements f s)
      else if c = CHR ''{'' then map_option (map_prod JObj id) (read_members f s)
      else None)"
| "read_json _ _ = None"
| "read_elements (Suc f) (c # s) =
     (if c = CHR '']'' then Some ([], s)
      else Option.bind (read_json f (c # s)) (\<lambda>(j, r). map_option (map_prod ((#) j) id) (read_elements f r)))"
| "read_elements _ _ = None"
| "read_members (Suc f) (c # s) =
     (if c = CHR ''}'' then Some ([], s)
      else if c = CHR ''k'' then
        Option.bind (read_string s) (\<lambda>(k, r). Option.bind (read_json f r) (\<lambda>(j, r').
          map_option (map_prod ((#) (k, j)) id) (read_members f r')))
      else None)"
| "read_members _ _ = None"


lemma print_json_head:
  "json_ok j \<Longrightarrow> \<exists>c t. print_json j = c # t \<and> c \<noteq> CHR '']'' \<and> c \<noteq> CHR ''}''"
  by (cases j) auto

lemma print_elements:
  assumes "\<And>j r f. j \<in> set js \<Longrightarrow> length (print_json j) \<le> f \<Longrightarrow> read_json f (print_json j @ r) = Some (json_norm j, r)"
    and "\<And>j. j \<in> set js \<Longrightarrow> json_ok j"
  shows "length (concat (map print_json js)) < f \<Longrightarrow>
    read_elements f (concat (map print_json js) @ CHR '']'' # r) = Some (map json_norm js, r)"
  using assms
proof (induction js arbitrary: f)
  case Nil
  then show ?case by (cases f) auto
next
  case (Cons j js)
  obtain c t where j: "print_json j = c # t" "c \<noteq> CHR '']''"
    using print_json_head Cons.prems(3) by (metis list.set_intros(1))
  obtain g where f: "f = Suc g" using Cons.prems(1) by (cases f) auto
  have "read_json g (print_json j @ concat (map print_json js) @ CHR '']'' # r) =
      Some (json_norm j, concat (map print_json js) @ CHR '']'' # r)"
    by (rule Cons.prems(2)) (use Cons.prems(1) f in simp_all)
  moreover have "read_elements g (concat (map print_json js) @ CHR '']'' # r) = Some (map json_norm js, r)"
    using Cons f j by simp
  ultimately show ?case using j by (simp add: f)
qed

abbreviation print_members :: "(string \<times> json) list \<Rightarrow> string" where
  "print_members es \<equiv> concat (map (\<lambda>e. CHR ''k'' # print_string (fst e) @ print_json (snd e)) es)"

lemma print_members_read:
  assumes "\<And>e r f. e \<in> set es \<Longrightarrow> length (print_json (snd e)) \<le> f \<Longrightarrow>
      read_json f (print_json (snd e) @ r) = Some (json_norm (snd e), r)"
  shows "length (print_members es) < f \<Longrightarrow>
    read_members f (print_members es @ CHR ''}'' # r) = Some (map (map_prod id json_norm) es, r)"
  using assms
proof (induction es arbitrary: f)
  case Nil
  then show ?case by (cases f) auto
next
  case (Cons e es)
  obtain g where f: "f = Suc g" using Cons.prems(1) by (cases f) auto
  have "read_json g (print_json (snd e) @ print_members es @ CHR ''}'' # r) =
      Some (json_norm (snd e), print_members es @ CHR ''}'' # r)"
    by (rule Cons.prems(2)) (use Cons.prems(1) f in simp_all)
  moreover have "read_members g (print_members es @ CHR ''}'' # r) = Some (map (map_prod id json_norm) es, r)"
    by (rule Cons.IH) (use Cons.prems f in simp_all)
  ultimately show ?case by (cases e) (simp add: f id_def)
qed

lemma print_obj: "print_json (JObj es) = CHR ''{'' # print_members es @ ''}''"
  by (simp add: comp_def)

lemma read_print_json:
  "json_ok j \<Longrightarrow> length (print_json j) \<le> f \<Longrightarrow> read_json f (print_json j @ r) = Some (json_norm j, r)"
proof (induction j arbitrary: f r)
  case (JArr js)
  obtain g where f: "f = Suc g" using JArr.prems(2) by (cases f) auto
  have "read_elements g (concat (map print_json js) @ CHR '']'' # r) = Some (map json_norm js, r)"
    using JArr f by (intro print_elements) (auto simp: list_all_iff)
  then show ?case by (simp add: f)
next
  case (JObj es)
  obtain g where f: "f = Suc g" using JObj.prems(2) by (cases f) auto
  have ok: "json_ok (snd e)" if "e \<in> set es" for e
    using JObj.prems(1) that by (auto simp: list_all_iff)
  have "read_members g (print_members es @ CHR ''}'' # r) = Some (map (map_prod id json_norm) es, r)"
    using JObj ok f unfolding print_obj
    by (intro print_members_read) (auto intro: snds.intros)
  then show ?case unfolding print_obj by (simp add: f)
next
  case (JInt i)
  then show ?case by (cases f) (auto split: if_splits)
next
  case (JUInt n)
  then show ?case by (cases f) auto
next
  case (JStr s)
  then show ?case by (cases f) auto
qed (auto simp: Suc_le_eq gr0_conv_Suc dest!: Suc_le_D)

lemma print_string_no_zero: "CHR 0x00 \<notin> set (print_string s)"
  by (induction s) (auto simp: print_string_def escape_def quote_def backslash_def split: if_splits)

lemma print_nat_no_zero: "CHR 0x00 \<notin> set (print_nat n)"
  using dec_nat_chars [of "CHR 0x00" n] by (auto simp: print_nat_def)

lemma print_json_no_zero: "CHR 0x00 \<notin> set (print_json j)"
  by (induction j) (auto simp: print_string_no_zero print_nat_no_zero comp_def)

lemma length_dec_nat: "0 < k \<Longrightarrow> n < 10 ^ k \<Longrightarrow> length (dec_nat n) \<le> k"
proof (induction n arbitrary: k rule: dec_nat.induct)
  case (1 n)
  show ?case
  proof (cases "n < 10")
    case True
    then show ?thesis using 1(2) by (subst dec_nat.simps) simp
  next
    case False
    obtain k' where k: "k = Suc k'" using 1(2) by (cases k) auto
    from False 1(3) k have "0 < k'" by (cases k') auto
    moreover have "n div 10 < 10 ^ k'"
      using 1(3) k by (intro less_mult_imp_div_less) (simp add: mult.commute)
    ultimately have "length (dec_nat (n div 10)) \<le> k'" by (intro 1(1) False)
    with False k show ?thesis by (subst dec_nat.simps) simp
  qed
qed

lemma length_print_string: "length (print_string s) \<le> 1 + 2 * length s"
  by (induction s) (auto simp: print_string_def escape_def)

lemma length_print_nat: "n < 2 ^ 64 \<Longrightarrow> length (print_nat n) \<le> 21"
  using length_dec_nat [of 20 n] by (simp add: print_nat_def)

lemma length_concat_le:
  "(\<And>x. x \<in> set xs \<Longrightarrow> length (f x) \<le> g x) \<Longrightarrow> length (concat (map f xs)) \<le> sum_list (map g xs)"
  by (induction xs) (auto intro: add_mono)

lemma length_print_json: "json_ok j \<Longrightarrow> length (print_json j) \<le> dump_bound j"
proof (induction j)
  case (JInt i)
  then have "length (print_nat (nat i)) \<le> 21" "length (print_nat (nat (- i))) \<le> 21"
    by (auto intro!: length_print_nat)
  then show ?case by simp
next
  case (JUInt n)
  then show ?case using length_print_nat [of n] by simp
next
  case (JStr s)
  then show ?case using length_print_string [of s] by simp
next
  case (JArr js)
  have "length (concat (map print_json js)) \<le> sum_list (map (\<lambda>j. 1 + dump_bound j) js)"
  proof (rule length_concat_le)
    fix j
    assume "j \<in> set js"
    with JArr have "length (print_json j) \<le> dump_bound j" by (auto simp: list_all_iff)
    then show "length (print_json j) \<le> 1 + dump_bound j" by simp
  qed
  then show ?case by (simp add: comp_def)
next
  case (JObj es)
  have "length (print_members es) \<le> sum_list (map (\<lambda>e. 4 + 6 * length (fst e) + dump_bound (snd e)) es)"
  proof (rule length_concat_le)
    fix e
    assume "e \<in> set es"
    with JObj have "length (print_json (snd e)) \<le> dump_bound (snd e)"
      by (cases e) (auto simp: list_all_iff)
    then show "length (CHR ''k'' # print_string (fst e) @ print_json (snd e)) \<le>
        4 + 6 * length (fst e) + dump_bound (snd e)"
      using length_print_string [of "fst e"] by simp
  qed
  then show ?case unfolding print_obj by (simp add: comp_def)
qed simp_all

section \<open>The instance\<close>

definition sample_json :: json_lib where
  "sample_json = \<lparr>
     parse = (\<lambda>s. case read_json (length s) s of Some (j, []) \<Rightarrow> Some j | _ \<Rightarrow> None),
     dump = (\<lambda>j. Some (print_json j)),
     get_i64 = (\<lambda>j. case j of JInt n \<Rightarrow> Some (word_of_int n) | JUInt n \<Rightarrow> Some (word_of_nat n) | _ \<Rightarrow> None),
     get_i32 = (\<lambda>j. case j of JInt n \<Rightarrow> Some (word_of_int n) | JUInt n \<Rightarrow> Some (word_of_nat n) | _ \<Rightarrow> None),
     get_string = (\<lambda>j. case j of JStr s \<Rightarrow> Some s | _ \<Rightarrow> None)\<rparr>"

lemma sample_json_ok: "json_lib_ok sample_json"
  unfolding json_lib_ok_def
  using read_print_json [of _ _ "[]"] print_json_no_zero length_print_json by (auto simp: sample_json_def)

definition message_ids :: "message_id list" where
  "message_ids = [LoginRequest, LoginResponse, SearchUserRequest, SearchUserResponse,
     AddFriendRequest, AddFriendResponse, NotifyAddFriend, AuthFriendRequest, AuthFriendResponse,
     NotifyAuthFriend, TextChatMsgReq, TextChatMsgRsp, NotifyTextChatMsg, InvalidRequest]"

lemma message_ids_all: "m \<in> set message_ids"
  by (cases m) (simp_all add: message_ids_def)

definition sample_enum :: enum_lib where
  "sample_enum = \<lparr>
     cast_message_id = (\<lambda>w. List.find (\<lambda>m. message_code m = w) message_ids),
     name_server_error = (\<lambda>e. if e = Success then [] else error_ident e)\<rparr>"

lemma sample_enum_ok: "enum_lib_ok sample_enum"
proof -
  have "List.find (\<lambda>m. message_code m = w) message_ids = Some m \<longleftrightarrow> message_code m = w" for w m
    using message_ids_all message_code_inj
    by (cases "List.find (\<lambda>m. message_code m = w) message_ids")
      (auto simp: find_None_iff find_Some_iff)
  moreover have "name_server_error sample_enum e = (if server_error_min \<le> unat (error_code e) \<and>
      unat (error_code e) \<le> server_error_max then error_ident e else [])" for e
    by (cases e) (simp_all add: sample_enum_def server_error_min_def server_error_max_def)
  ultimately show ?thesis
    using message_code_range by (auto simp: enum_lib_ok_def sample_enum_def)
qed

definition sample_platform :: platform where
  "sample_platform = \<lparr>little_endian = True, native_to_big32 = swap32, native_to_big16 = swap16,
     big_to_native32 = swap32, big_to_native16 = swap16\<rparr>"

lemma sample_platform_ok: "platform_ok sample_platform"
  by (simp add: platform_ok_def sample_platform_def)

definition sample_user_text :: "user_info \<Rightarrow> string" where
  "sample_user_text u = print_json (JArr [of_i64 (ui_id u), JStr (ui_name u), JStr (ui_email u), JStr (ui_pwd u)])"

definition sample_libs :: libs where
  "sample_libs = \<lparr>lb_json = sample_json, lb_enum = sample_enum, lb_platform = sample_platform,
     bj_parse_user = (\<lambda>s. case parse sample_json s of
         Some (JArr [i, JStr n, JStr e, JStr p]) \<Rightarrow>
           map_option (\<lambda>x. \<lparr>ui_id = x, ui_name = n, ui_email = e, ui_pwd = p\<rparr>) (get_i64 sample_json i)
       | _ \<Rightarrow> None),
     bj_serialize_user = sample_user_text\<rparr>"

lemma sample_user_parse: "bj_parse_user sample_libs (bj_serialize_user sample_libs u) = Some u"
proof -
  have "parse sample_json (sample_user_text u) =
      Some (json_norm (JArr [of_i64 (ui_id u), JStr (ui_name u), JStr (ui_email u), JStr (ui_pwd u)]))"
    by (rule json_lib_okD(1) [OF sample_json_ok]) (simp_all add: sample_user_text_def sample_json_def)
  then show ?thesis
    using get_norm_of_i64 [OF sample_json_ok] by (cases u) (simp add: sample_libs_def)
qed

lemma sample_libs_ok: "libs_ok sample_libs"
  using sample_user_parse sample_json_ok sample_enum_ok sample_platform_ok
  by (simp add: libs_ok_def) (simp add: sample_libs_def)

end
