(* ===== verification/ChatServer.thy ===== *)
theory ChatServer
  imports ChatTypes
begin

text \<open>
  \<^verbatim>\<open>chat_server/chat_server.hpp\<close>: the server's set of participants and the members of a session
  with their operations. The coroutines of the session are in the theory ChatSession.
\<close>

section \<open>State\<close>

text \<open>
  What the writer coroutine is doing: suspended in \<^verbatim>\<open>async_receive\<close>, in \<^verbatim>\<open>async_write\<close>, or ended.
  A session's number stands for its address: the set of shared pointers is ordered by it. \<open>cs_uid\<close>
  has no initializer in the source, so before the first \<^verbatim>\<open>set_uid\<close> it is whatever the memory held.
\<close>

datatype writer_state = WaitReceive | Writing channel_message | WriterEnded

record chat_session =
  cs_uid :: i64
  cs_authenticated :: bool
  cs_deadline :: bool
  cs_open :: bool
  cs_channel :: "channel_message list"
  cs_writer :: writer_state

record chat_server =
  srv_name :: string
  srv_participants :: "nat list"
  srv_sessions :: "nat \<Rightarrow> chat_session"

text \<open>The state may be extended: by the tables and keys of the services, for end-to-end statements.\<close>

type_synonym 'w server = "'w chat_server_scheme"

text \<open>The constructor and the first lines of \<^verbatim>\<open>start\<close>: joined later, timer armed, nothing queued.\<close>

definition fresh_session :: "i64 \<Rightarrow> chat_session" where
  "fresh_session memory = \<lparr>cs_uid = memory, cs_authenticated = False, cs_deadline = True,
     cs_open = True, cs_channel = [], cs_writer = WaitReceive\<rparr>"

section \<open>The channel\<close>

text \<open>
  \<^verbatim>\<open>concurrent_channel\<close> of capacity 64. A receive that is already waiting takes the first element
  out of the buffer's account, so 65 messages can be on their way to a waiting writer.
\<close>

definition channel_size :: nat where
  "channel_size = 64"

definition channel_room :: "chat_session \<Rightarrow> nat" where
  "channel_room c = (case cs_writer c of WaitReceive \<Rightarrow> Suc channel_size | _ \<Rightarrow> channel_size)"

definition try_send :: "channel_message \<Rightarrow> chat_session \<Rightarrow> bool \<times> chat_session" where
  "try_send m c =
     (if length (cs_channel c) < channel_room c
      then (True, c\<lparr>cs_channel := cs_channel c @ [m]\<rparr>)
      else (False, c))"

definition channel_receive :: "chat_session \<Rightarrow> (channel_message \<times> chat_session) option" where
  "channel_receive c = (case cs_channel c of
       [] \<Rightarrow> None
     | m # ms \<Rightarrow> Some (m, c\<lparr>cs_channel := ms, cs_writer := Writing m\<rparr>))"

interpretation channel: fifo try_send channel_receive cs_channel
proof unfold_locales
  fix x q q'
  show "try_send x q = (True, q') \<Longrightarrow> cs_channel q' = cs_channel q @ [x]"
    and "try_send x q = (False, q') \<Longrightarrow> cs_channel q' = cs_channel q"
    and "channel_receive q = None \<longleftrightarrow> cs_channel q = []"
    and "channel_receive q = Some (x, q') \<Longrightarrow> cs_channel q = x # cs_channel q'"
    by (auto simp: try_send_def channel_receive_def split: if_splits list.splits)
qed

section \<open>Operations of the server\<close>

definition update_session :: "nat \<Rightarrow> (chat_session \<Rightarrow> chat_session) \<Rightarrow> 'w server \<Rightarrow> 'w server" where
  "update_session i f s = s\<lparr>srv_sessions := (srv_sessions s)(i := f (srv_sessions s i))\<rparr>"

definition join :: "nat \<Rightarrow> 'w server \<Rightarrow> 'w server" where
  "join i s = s\<lparr>srv_participants :=
     (if i \<in> set (srv_participants s) then srv_participants s else insort i (srv_participants s))\<rparr>"

definition leave :: "nat \<Rightarrow> 'w server \<Rightarrow> 'w server" where
  "leave i s = s\<lparr>srv_participants := remove1 i (srv_participants s)\<rparr>"

definition participant_count :: "'w server \<Rightarrow> u32" where
  "participant_count s = word_of_nat (length (srv_participants s))"

definition get_participant :: "i64 \<Rightarrow> 'w server \<Rightarrow> nat option" where
  "get_participant uid s = List.find (\<lambda>i. cs_uid (srv_sessions s i) = uid) (srv_participants s)"

section \<open>Operations of a session\<close>

definition deliver :: "nat \<Rightarrow> channel_message \<Rightarrow> 'w server \<Rightarrow> 'w server" where
  "deliver i m = update_session i (\<lambda>c. snd (try_send m c))"

definition set_uid :: "i64 \<Rightarrow> chat_session \<Rightarrow> chat_session" where
  "set_uid uid c = c\<lparr>cs_uid := uid\<rparr>"

definition mark_authenticated :: "chat_session \<Rightarrow> chat_session" where
  "mark_authenticated c = c\<lparr>cs_authenticated := True, cs_deadline := False\<rparr>"

definition stop :: "nat \<Rightarrow> 'w server \<Rightarrow> 'w server" where
  "stop i s = update_session i (\<lambda>c. c\<lparr>cs_open := False\<rparr>)
     (leave i (update_session i (\<lambda>c. c\<lparr>cs_deadline := False\<rparr>) s))"

section \<open>The set of participants\<close>

definition server_ok :: "'w server \<Rightarrow> bool" where
  "server_ok s \<longleftrightarrow> sorted_wrt (<) (srv_participants s) \<and>
     (\<forall>i. length (cs_channel (srv_sessions s i)) \<le> channel_room (srv_sessions s i))"

lemma update_session_simps [simp]:
  "srv_name (update_session i f s) = srv_name s"
  "srv_participants (update_session i f s) = srv_participants s"
  "srv_sessions (update_session i f s) = (srv_sessions s)(i := f (srv_sessions s i))"
  by (simp_all add: update_session_def)

lemma try_send_simps [simp]:
  "cs_uid (snd (try_send m c)) = cs_uid c"
  "cs_authenticated (snd (try_send m c)) = cs_authenticated c"
  "cs_deadline (snd (try_send m c)) = cs_deadline c"
  "cs_open (snd (try_send m c)) = cs_open c"
  "cs_writer (snd (try_send m c)) = cs_writer c"
  "channel_room (snd (try_send m c)) = channel_room c"
  by (auto simp: try_send_def channel_room_def)

lemma try_send_room:
  "length (cs_channel c) \<le> channel_room c \<Longrightarrow>
   length (cs_channel (snd (try_send m c))) \<le> channel_room c"
  by (auto simp: try_send_def)

lemma set_participants_join [simp]: "set (srv_participants (join i s)) = insert i (set (srv_participants s))"
  by (auto simp: join_def set_insort_key)

lemma set_participants_leave [simp]:
  "server_ok s \<Longrightarrow> set (srv_participants (leave i s)) = set (srv_participants s) - {i}"
  by (simp add: leave_def server_ok_def strict_sorted_iff)

lemma join_leave_simps [simp]:
  "srv_sessions (join i s) = srv_sessions s" "srv_sessions (leave i s) = srv_sessions s"
  "srv_name (join i s) = srv_name s" "srv_name (leave i s) = srv_name s"
  by (simp_all add: join_def leave_def)

lemma server_ok_join [simp]: "server_ok s \<Longrightarrow> server_ok (join i s)"
  by (auto simp: server_ok_def join_def strict_sorted_iff sorted_insort distinct_insort)

lemma server_ok_leave [simp]: "server_ok s \<Longrightarrow> server_ok (leave i s)"
  by (auto simp: server_ok_def leave_def strict_sorted_iff sorted_remove1)

lemma server_ok_update:
  "server_ok s \<Longrightarrow>
   (\<And>c. length (cs_channel c) \<le> channel_room c \<Longrightarrow> length (cs_channel (f c)) \<le> channel_room (f c)) \<Longrightarrow>
   server_ok (update_session i f s)"
  by (auto simp: server_ok_def)

lemma server_ok_deliver [simp]: "server_ok s \<Longrightarrow> server_ok (deliver i m s)"
  unfolding deliver_def by (rule server_ok_update) (simp_all add: try_send_room)

lemma channel_room_simps [simp]:
  "channel_room (c\<lparr>cs_open := b\<rparr>) = channel_room c"
  "channel_room (c\<lparr>cs_deadline := b\<rparr>) = channel_room c"
  "channel_room (set_uid u c) = channel_room c"
  "channel_room (mark_authenticated c) = channel_room c"
  "cs_channel (set_uid u c) = cs_channel c"
  "cs_channel (mark_authenticated c) = cs_channel c"
  by (simp_all add: channel_room_def set_uid_def mark_authenticated_def)

lemma server_ok_stop [simp]: "server_ok s \<Longrightarrow> server_ok (stop i s)"
  unfolding stop_def by (intro server_ok_update server_ok_leave) simp_all

text \<open>\<^verbatim>\<open>get_participant\<close> answers with the participant of least address among those with the uid.\<close>

lemma get_participant_Some:
  assumes "sorted_wrt (<) (srv_participants s)"
  shows "get_participant uid s = Some i \<longleftrightarrow>
    i \<in> set (srv_participants s) \<and> cs_uid (srv_sessions s i) = uid \<and>
    (\<forall>j\<in>set (srv_participants s). cs_uid (srv_sessions s j) = uid \<longrightarrow> i \<le> j)"
proof -
  have "List.find P xs = Some i \<longleftrightarrow> i \<in> set xs \<and> P i \<and> (\<forall>j\<in>set xs. P j \<longrightarrow> i \<le> j)"
    if "sorted_wrt (<) xs" for P and xs :: "nat list"
    using that by (induction xs) (auto simp: less_imp_le dest: leD)
  then show ?thesis using assms by (simp add: get_participant_def)
qed

lemma get_participant_None:
  "get_participant uid s = None \<longleftrightarrow> (\<forall>i\<in>set (srv_participants s). cs_uid (srv_sessions s i) \<noteq> uid)"
  by (auto simp: get_participant_def find_None_iff)

lemma get_participant_in: "get_participant uid s = Some i \<Longrightarrow>
    i \<in> set (srv_participants s) \<and> cs_uid (srv_sessions s i) = uid"
  by (auto simp: get_participant_def find_Some_iff)

end
