(* ===== verification/RedisClient.thy ===== *)
theory RedisClient
  imports Coroutine
begin

text \<open>
  \<^verbatim>\<open>common/redis_client.cpp\<close>: the client every service shares. Each operation sends one command and
  turns a transport error, a server error or a value of the wrong type into its failure result.
\<close>

definition redis_get :: "string \<Rightarrow> ('s, string option) cor" where
  "redis_get key = RedisC (R_GET key) (\<lambda>reply. Done (case reply of
       R_Transport \<Rightarrow> None
     | R_ServerError \<Rightarrow> None
     | R_Value R_Nil \<Rightarrow> None
     | R_Value (R_Str s) \<Rightarrow> Some s
     | R_Value _ \<Rightarrow> None))"

definition redis_set :: "string \<Rightarrow> string \<Rightarrow> ('s, bool) cor" where
  "redis_set key val = RedisC (R_SET key val) (\<lambda>reply. Done (case reply of
       R_Transport \<Rightarrow> False
     | R_ServerError \<Rightarrow> False
     | R_Value (R_Str s) \<Rightarrow> True
     | R_Value _ \<Rightarrow> False))"

definition redis_set_expired :: "string \<Rightarrow> string \<Rightarrow> i32 \<Rightarrow> ('s, bool) cor" where
  "redis_set_expired key val ttl =
     RedisC (R_SETEX key (to_string (sint ttl)) val) (\<lambda>reply. Done (case reply of
       R_Transport \<Rightarrow> False
     | R_ServerError \<Rightarrow> False
     | R_Value (R_Str s) \<Rightarrow> True
     | R_Value _ \<Rightarrow> False))"

definition redis_hset :: "string \<Rightarrow> (string \<times> i64) list \<Rightarrow> ('s, int) cor" where
  "redis_hset key vals = RedisC (R_HSET key vals) (\<lambda>reply. Done (case reply of
       R_Transport \<Rightarrow> -1
     | R_ServerError \<Rightarrow> -1
     | R_Value (R_Int n) \<Rightarrow> n
     | R_Value _ \<Rightarrow> -1))"

definition redis_hgetall :: "string \<Rightarrow> ('s, (string \<times> i64) list) cor" where
  "redis_hgetall key = RedisC (R_HGETALL key) (\<lambda>reply. Done (case reply of
       R_Transport \<Rightarrow> []
     | R_ServerError \<Rightarrow> []
     | R_Value (R_Map m) \<Rightarrow> m
     | R_Value _ \<Rightarrow> []))"

lemmas redis_defs = redis_get_def redis_set_def redis_set_expired_def redis_hset_def redis_hgetall_def

lemma quiet_redis [simp]:
  "quiet (redis_get k)" "quiet (redis_set k v)" "quiet (redis_set_expired k v t)"
  "quiet (redis_hset k m)" "quiet (redis_hgetall k)"
  by (simp_all add: redis_defs)

section \<open>A store that keeps what it is given\<close>

text \<open>
  Redis's documented behaviour for the commands above, over the part \<open>store\<close> of the state that holds
  its keys: what a GET returns, and what SET, SETEX and HSET leave behind. \<open>hash\<close> holds the fields.
\<close>

definition keeps_keys :: "('s \<Rightarrow> string \<Rightarrow> string option) \<Rightarrow> 's environment \<Rightarrow> bool" where
  "keeps_keys store env \<longleftrightarrow>
     (\<forall>k s. on_redis env (R_GET k) s =
        (R_Value (case store s k of None \<Rightarrow> R_Nil | Some v \<Rightarrow> R_Str v), s)) \<and>
     (\<forall>k v s. fst (on_redis env (R_SET k v) s) = R_Value (R_Str ''OK'') \<and>
        store (snd (on_redis env (R_SET k v) s)) = (store s)(k \<mapsto> v)) \<and>
     (\<forall>k t v s. fst (on_redis env (R_SETEX k t v) s) = R_Value (R_Str ''OK'') \<and>
        store (snd (on_redis env (R_SETEX k t v) s)) = (store s)(k \<mapsto> v))"

lemma run_redis_get: "keeps_keys store env \<Longrightarrow> run env (redis_get k) s = (Inr (store s k), s)"
  by (simp add: redis_get_def keeps_keys_def split: option.split)

lemma run_redis_set:
  "keeps_keys store env \<Longrightarrow> \<exists>s'. run env (redis_set k v) s = (Inr True, s') \<and> store s' = (store s)(k \<mapsto> v)"
  by (auto simp: redis_set_def keeps_keys_def case_prod_beta)

lemma run_redis_set_expired:
  "keeps_keys store env \<Longrightarrow>
   \<exists>s'. run env (redis_set_expired k v t) s = (Inr True, s') \<and> store s' = (store s)(k \<mapsto> v)"
  by (auto simp: redis_set_expired_def keeps_keys_def case_prod_beta)

end
