(* ===== verification/ChatGrpc.thy ===== *)
theory ChatGrpc
  imports ChatServer RedisClient
begin

text \<open>
  \<^verbatim>\<open>chat_server/grpc_service.hpp\<close>: the stubs a chat server calls on its peer, and the service that
  receives the peer's notifications and hands them to a local session.
\<close>

section \<open>Client\<close>

record grpc_response =
  gr_error :: i64
  gr_from_uid :: i64
  gr_to_uid :: i64

record grpc_text_response = grpc_response +
  gr_text_array :: "text_chat_data list"

definition text_data_of_pb :: "pb_text_chat_data \<Rightarrow> text_chat_data" where
  "text_data_of_pb d = \<lparr>tcd_msgid = widen_i64 (pb_msg_id d), tcd_content = pb_msgcontent d\<rparr>"

definition add_friend_response_of_pb :: "pb_add_friend_rsp \<Rightarrow> grpc_response" where
  "add_friend_response_of_pb r = \<lparr>gr_error = widen_i64 (afs_error r),
     gr_from_uid = widen_i64 (afs_applyuid r), gr_to_uid = widen_i64 (afs_touid r)\<rparr>"

definition auth_friend_response_of_pb :: "pb_auth_friend_rsp \<Rightarrow> grpc_response" where
  "auth_friend_response_of_pb r = \<lparr>gr_error = widen_i64 (aus_error r),
     gr_from_uid = widen_i64 (aus_fromuid r), gr_to_uid = widen_i64 (aus_touid r)\<rparr>"

definition text_response_of_pb :: "pb_text_chat_rsp \<Rightarrow> grpc_text_response" where
  "text_response_of_pb r = \<lparr>gr_error = widen_i64 (tcs_error r),
     gr_from_uid = widen_i64 (tcs_fromuid r), gr_to_uid = widen_i64 (tcs_touid r),
     gr_text_array = map text_data_of_pb (tcs_textmsgs r)\<rparr>"

definition client_notify_add_friend :: "i64 \<Rightarrow> string \<Rightarrow> i64 \<Rightarrow> ('s, server_error + grpc_response) cor" where
  "client_notify_add_friend from_uid name to_uid =
     RpcC (CallNotifyAddFriend (pb_of_add_friend from_uid name to_uid)) (\<lambda>r. Done (case r of
       RspAddFriend rsp \<Rightarrow> Inr (add_friend_response_of_pb rsp)
     | _ \<Rightarrow> Inl RPCFailed))"

definition client_notify_auth_friend :: "i64 \<Rightarrow> i64 \<Rightarrow> ('s, server_error + grpc_response) cor" where
  "client_notify_auth_friend from_uid to_uid =
     RpcC (CallNotifyAuthFriend (pb_of_auth_friend from_uid to_uid)) (\<lambda>r. Done (case r of
       RspAuthFriend rsp \<Rightarrow> Inr (auth_friend_response_of_pb rsp)
     | _ \<Rightarrow> Inl RPCFailed))"

definition client_notify_text_chat_msg :: "text_chat_msg \<Rightarrow> ('s, server_error + grpc_text_response) cor" where
  "client_notify_text_chat_msg m =
     RpcC (CallNotifyTextChatMsg (pb_of_text_chat m)) (\<lambda>r. Done (case r of
       RspTextChat rsp \<Rightarrow> Inr (text_response_of_pb rsp)
     | _ \<Rightarrow> Inl RPCFailed))"

text \<open>\<^verbatim>\<open>LoginServiceClient::get_login_token\<close>, which no handler calls, and its messages.\<close>

record login_msg_request =
  lmq_uid :: i64
  lmq_token :: string

definition login_msg_request_from_json :: "json_lib \<Rightarrow> json \<Rightarrow> login_msg_request option" where
  "login_msg_request_from_json J j =
     Option.bind (field_i64 J ''uid'' j) (\<lambda>u.
     Option.bind (field_string J ''token'' j) (\<lambda>t. Some \<lparr>lmq_uid = u, lmq_token = t\<rparr>))"

record login_msg_response =
  lms_error :: i64
  lms_uid :: i64
  lms_token :: string
  lms_name :: string

definition login_msg_response_to_json :: "login_msg_response \<Rightarrow> json" where
  "login_msg_response_to_json r =
     json_set ''token'' (JStr (lms_token r))
     (json_set ''uid'' (of_i64 (lms_uid r))
     (json_set ''error'' (of_i64 (lms_error r)) JNull))"

definition get_login_token :: "login_msg_request \<Rightarrow> ('s, int + pb_login_rsp) cor" where
  "get_login_token login_msg =
     RpcC (CallLogin (narrow_i32 (lmq_uid login_msg)) (lmq_token login_msg)) (\<lambda>r. Done (case r of
       RspLogin rsp \<Rightarrow> Inr rsp
     | _ \<Rightarrow> Inl (-1)))"

lemmas client_defs = client_notify_add_friend_def client_notify_auth_friend_def
  client_notify_text_chat_msg_def get_login_token_def

lemma quiet_client [simp]:
  "quiet (client_notify_add_friend f n t)" "quiet (client_notify_auth_friend f t)"
  "quiet (client_notify_text_chat_msg m)" "quiet (get_login_token q)"
  by (simp_all add: client_defs)

section \<open>Server\<close>

text \<open>
  \<^verbatim>\<open>notify_session\<close>: the body of each service method, run on the main context between two
  suspensions of the sessions. An exception of \<^verbatim>\<open>dump\<close> leaves before \<^verbatim>\<open>Finish\<close>: no reply is sent.
\<close>

definition notify_session ::
    "libs \<Rightarrow> json \<Rightarrow> i64 \<Rightarrow> message_id \<Rightarrow> 'w server \<Rightarrow> (exn + unit) \<times> 'w server" where
  "notify_session L notify_msg uid i s =
     (case get_participant uid s of
        Some target \<Rightarrow> (case node_of_json L (wire_id i) notify_msg of
            Inl e \<Rightarrow> (Inl e, s)
          | Inr n \<Rightarrow> (Inr (), deliver target (channel_of n) s))
      | None \<Rightarrow> (Inr (), s))"

definition NotifyAddFriend_rpc ::
    "libs \<Rightarrow> pb_add_friend_req \<Rightarrow> 'w server \<Rightarrow> (exn + pb_add_friend_rsp) \<times> 'w server" where
  "NotifyAddFriend_rpc L req s =
     (case notify_session L (notify_add_friend_msg_to_json (notify_add_friend_of_pb req))
         (widen_i64 (afr_touid req)) NotifyAddFriend s of
        (Inl e, s') \<Rightarrow> (Inl e, s')
      | (Inr _, s') \<Rightarrow>
          (Inr \<lparr>afs_error = 0, afs_applyuid = afr_applyuid req, afs_touid = afr_touid req\<rparr>, s'))"

definition NotifyAuthFriend_rpc ::
    "libs \<Rightarrow> pb_auth_friend_req \<Rightarrow> 'w server \<Rightarrow> (exn + pb_auth_friend_rsp) \<times> 'w server" where
  "NotifyAuthFriend_rpc L req s =
     (case notify_session L (notify_auth_friend_msg_to_json (notify_auth_friend_of_pb req))
         (widen_i64 (aur_touid req)) NotifyAuthFriend s of
        (Inl e, s') \<Rightarrow> (Inl e, s')
      | (Inr _, s') \<Rightarrow>
          (Inr \<lparr>aus_error = 0, aus_fromuid = aur_fromuid req, aus_touid = aur_touid req\<rparr>, s'))"

definition NotifyTextChatMsg_rpc ::
    "libs \<Rightarrow> pb_text_chat_req \<Rightarrow> 'w server \<Rightarrow> (exn + pb_text_chat_rsp) \<times> 'w server" where
  "NotifyTextChatMsg_rpc L req s =
     (case notify_session L (text_chat_msg_to_json (notify_text_chat_of_pb req))
         (widen_i64 (tcr_touid req)) NotifyTextChatMsg s of
        (Inl e, s') \<Rightarrow> (Inl e, s')
      | (Inr _, s') \<Rightarrow>
          (Inr \<lparr>tcs_error = 0, tcs_fromuid = 0, tcs_touid = 0, tcs_textmsgs = []\<rparr>, s'))"

text \<open>The service as one operation: what it replies is the gRPC answer the peer's stub sees.\<close>

fun chat_service :: "libs \<Rightarrow> rpc_call \<Rightarrow> 'w server \<Rightarrow> rpc_reply option \<times> 'w server" where
  "chat_service L (CallNotifyAddFriend req) s =
     (case NotifyAddFriend_rpc L req s of
        (Inr rsp, s') \<Rightarrow> (Some (RspAddFriend rsp), s') | (Inl e, s') \<Rightarrow> (None, s'))"
| "chat_service L (CallNotifyAuthFriend req) s =
     (case NotifyAuthFriend_rpc L req s of
        (Inr rsp, s') \<Rightarrow> (Some (RspAuthFriend rsp), s') | (Inl e, s') \<Rightarrow> (None, s'))"
| "chat_service L (CallNotifyTextChatMsg req) s =
     (case NotifyTextChatMsg_rpc L req s of
        (Inr rsp, s') \<Rightarrow> (Some (RspTextChat rsp), s') | (Inl e, s') \<Rightarrow> (None, s'))"
| "chat_service L q s = (Some (RpcFailed ''UNIMPLEMENTED''), s)"

text \<open>A notification is a message of one of these three kinds that does not close the session.\<close>

definition is_notification :: "channel_message \<Rightarrow> bool" where
  "is_notification m \<longleftrightarrow> \<not> cm_close_after_send m \<and>
     mn_id (cm_msg m) \<in> wire_id ` {NotifyAddFriend, NotifyAuthFriend, NotifyTextChatMsg}"

lemma mn_id_mk_node [simp]: "mn_id (mk_node P i b) = i"
  by (cases b) (simp_all add: mk_node_def encode_header_def set_body_length_def Let_def)

lemma node_of_json_id: "node_of_json L i j = Inr n \<Longrightarrow> mn_id n = i"
  by (auto simp: node_of_json_def split: sum.splits)

definition notified :: "i64 \<Rightarrow> 'w server \<Rightarrow> 'w server \<Rightarrow> bool" where
  "notified uid s t \<longleftrightarrow> (\<exists>i m. get_participant uid s = Some i \<and> is_notification m \<and> t = deliver i m s)"

lemma notifiedI:
  "get_participant uid s = Some i \<Longrightarrow> node_of_json L (wire_id k) j = Inr n \<Longrightarrow>
   k \<in> {NotifyAddFriend, NotifyAuthFriend, NotifyTextChatMsg} \<Longrightarrow> notified uid s (deliver i (channel_of n) s)"
  by (force simp: notified_def is_notification_def channel_of_def dest!: node_of_json_id)

lemma notify_session_step:
  "notify_session L j uid k s = (r, s') \<Longrightarrow>
   k \<in> {NotifyAddFriend, NotifyAuthFriend, NotifyTextChatMsg} \<Longrightarrow> s' = s \<or> notified uid s s'"
  by (auto simp: notify_session_def intro: notifiedI split: option.splits sum.splits)

fun rpc_target :: "rpc_call \<Rightarrow> i64" where
  "rpc_target (CallNotifyAddFriend req) = widen_i64 (afr_touid req)"
| "rpc_target (CallNotifyAuthFriend req) = widen_i64 (aur_touid req)"
| "rpc_target (CallNotifyTextChatMsg req) = widen_i64 (tcr_touid req)"
| "rpc_target q = 0"

lemma chat_service_step:
  "chat_service L q s = (r, s') \<Longrightarrow> s' = s \<or> notified (rpc_target q) s s'"
  by (cases q)
    (auto simp: NotifyAddFriend_rpc_def NotifyAuthFriend_rpc_def NotifyTextChatMsg_rpc_def
      split: sum.splits prod.splits dest!: notify_session_step)

lemma chat_service_ok: "server_ok s \<Longrightarrow> server_ok (snd (chat_service L q s))"
  using chat_service_step [of L q s] unfolding notified_def by (metis prod.collapse server_ok_deliver)

interpretation service: component "\<lambda>_::libs. server_ok" "\<lambda>L q s. snd (chat_service L q s)"
  by unfold_locales (rule chat_service_ok)

end
