(* ===== verification/Database.thy ===== *)
theory Database
  imports ChatTypes
begin

text \<open>
  The tables of \<^verbatim>\<open>sql/user.sql\<close> and \<^verbatim>\<open>sql/friend.sql\<close> and the statements of the repositories
  (\<^verbatim>\<open>chat_server/friend_repo.hpp\<close>, \<^verbatim>\<open>chat_server/user_repo.hpp\<close>, \<^verbatim>\<open>gate_server/user_repo.hpp\<close>):
  what each statement text does to the tables, and the repository coroutines that execute it.
\<close>

section \<open>Tables\<close>

record db_user =
  u_id :: int
  u_name :: string
  u_email :: string
  u_pwd :: string

record db_apply =
  a_from_uid :: int
  a_to_uid :: int
  a_status :: int

record db_friend =
  f_self_id :: int
  f_friend_id :: int
  f_back :: "string option"

record db =
  db_users :: "db_user list"
  db_applies :: "db_apply list"
  db_friends :: "db_friend list"
  db_next_user :: int

text \<open>
  What the schema leaves to the server's configuration: how the columns' collation compares texts,
  which texts fit a \<^verbatim>\<open>VARCHAR(255)\<close>, and whether \<^verbatim>\<open>affected_rows\<close> counts matched or changed rows.
\<close>

record dialect =
  same_text :: "string \<Rightarrow> string \<Rightarrow> bool"
  fits_varchar :: "string \<Rightarrow> bool"
  counts_found :: bool

definition dialect_ok :: "dialect \<Rightarrow> bool" where
  "dialect_ok D \<longleftrightarrow> (\<forall>s. same_text D s s) \<and> (\<forall>s t. same_text D s t \<longrightarrow> same_text D t s) \<and>
     (\<forall>s t u. same_text D s t \<longrightarrow> same_text D t u \<longrightarrow> same_text D s u)"

text \<open>An \<^verbatim>\<open>INT\<close> column refuses what does not fit, or stores the nearest bound under \<^verbatim>\<open>IGNORE\<close>.\<close>

definition fits_int :: "int \<Rightarrow> bool" where
  "fits_int x \<longleftrightarrow> - (2 ^ 31) \<le> x \<and> x < 2 ^ 31"

definition clamp_int :: "int \<Rightarrow> int" where
  "clamp_int x = max (- (2 ^ 31)) (min (2 ^ 31 - 1) x)"

text \<open>The tables the schema allows: every primary key and unique index.\<close>

definition db_ok :: "dialect \<Rightarrow> db \<Rightarrow> bool" where
  "db_ok D d \<longleftrightarrow>
     distinct (map (\<lambda>a. (a_from_uid a, a_to_uid a)) (db_applies d)) \<and>
     distinct (map (\<lambda>f. (f_self_id f, f_friend_id f)) (db_friends d)) \<and>
     sorted_wrt (\<lambda>u v. u_id u \<noteq> u_id v \<and> \<not> same_text D (u_name u) (u_name v) \<and>
       \<not> same_text D (u_email u) (u_email v)) (db_users d) \<and>
     (\<forall>u\<in>set (db_users d). u_id u < db_next_user d)"

section \<open>Statements\<close>

definition no_rows :: "nat \<Rightarrow> u64 \<Rightarrow> sql_result" where
  "no_rows n i = \<lparr>res_rows = [], res_affected = n, res_last_id = i\<rparr>"

definition rows_of :: "sql_row list \<Rightarrow> sql_result" where
  "rows_of rs = \<lparr>res_rows = rs, res_affected = 0, res_last_id = 0\<rparr>"

definition text_field :: "string option \<Rightarrow> sql_field" where
  "text_field t = (case t of None \<Rightarrow> F_Null | Some s \<Rightarrow> F_Str s)"

text \<open>\<^verbatim>\<open>INSERT INTO friend_apply ... ON DUPLICATE KEY UPDATE from_uid = from_uid, to_uid = to_uid\<close>\<close>

definition insert_friend_apply :: "int \<Rightarrow> int \<Rightarrow> db \<Rightarrow> (int + sql_result) \<times> db" where
  "insert_friend_apply f t d =
     (if \<not> fits_int f \<or> \<not> fits_int t then (Inl 1264, d)
      else if \<exists>a\<in>set (db_applies d). a_from_uid a = f \<and> a_to_uid a = t then (Inr (no_rows 0 0), d)
      else (Inr (no_rows 1 0),
        d\<lparr>db_applies := db_applies d @ [\<lparr>a_from_uid = f, a_to_uid = t, a_status = 0\<rparr>]\<rparr>))"

text \<open>\<^verbatim>\<open>UPDATE friend_apply SET status = 1 WHERE from_uid = {0} AND to_uid = {1}\<close>\<close>

definition accept_apply :: "int \<Rightarrow> int \<Rightarrow> db \<Rightarrow> sql_result \<times> db" where
  "accept_apply f t d =
     (no_rows (length (filter (\<lambda>a. a_from_uid a = f \<and> a_to_uid a = t \<and> a_status a \<noteq> 1) (db_applies d))) 0,
      d\<lparr>db_applies := map (\<lambda>a. if a_from_uid a = f \<and> a_to_uid a = t then a\<lparr>a_status := 1\<rparr> else a)
        (db_applies d)\<rparr>)"

text \<open>\<^verbatim>\<open>INSERT IGNORE INTO friend (self_id, friend_id) VALUES ({0}, {1})\<close>\<close>

definition insert_ignore_friend :: "int \<Rightarrow> int \<Rightarrow> db \<Rightarrow> sql_result \<times> db" where
  "insert_ignore_friend s f d =
     (let s' = clamp_int s; f' = clamp_int f in
      if \<exists>r\<in>set (db_friends d). f_self_id r = s' \<and> f_friend_id r = f' then (no_rows 0 0, d)
      else (no_rows 1 0,
        d\<lparr>db_friends := db_friends d @ [\<lparr>f_self_id = s', f_friend_id = f', f_back = Some ''''\<rparr>]\<rparr>))"

text \<open>The batch from \<^verbatim>\<open>START TRANSACTION\<close> to \<^verbatim>\<open>COMMIT\<close>: one result set per statement.\<close>

definition auth_friend_tx :: "int \<Rightarrow> int \<Rightarrow> db \<Rightarrow> sql_result list \<times> db" where
  "auth_friend_tx f t d =
     (let (r1, d1) = accept_apply f t d;
          (r2, d2) = insert_ignore_friend f t d1;
          (r3, d3) = insert_ignore_friend t f d2
      in ([no_rows 0 0, r1, r2, r3, no_rows 0 0], d3))"

definition select_friend_applies :: "int \<Rightarrow> db \<Rightarrow> sql_result" where
  "select_friend_applies t d = rows_of
     [[(''status'', F_Int (a_status a)), (''from_uid'', F_Int (a_from_uid a)), (''name'', F_Str (u_name u))].
       a \<leftarrow> db_applies d, a_to_uid a = t, u \<leftarrow> db_users d, u_id u = a_from_uid a]"

definition select_friends :: "int \<Rightarrow> db \<Rightarrow> sql_result" where
  "select_friends s d = rows_of
     [[(''friend_id'', F_Int (f_friend_id f)), (''back'', text_field (f_back f)), (''name'', F_Str (u_name u))].
       f \<leftarrow> db_friends d, f_self_id f = s, u \<leftarrow> db_users d, u_id u = f_friend_id f]"

definition user_columns :: "db_user \<Rightarrow> sql_row" where
  "user_columns u = [(''id'', F_Int (u_id u)), (''name'', F_Str (u_name u)),
     (''email'', F_Str (u_email u)), (''pwd'', F_Str (u_pwd u))]"

text \<open>\<^verbatim>\<open>INSERT INTO user (name, email, pwd) VALUES (?, ?, ?)\<close>\<close>

definition insert_user :: "dialect \<Rightarrow> string \<Rightarrow> string \<Rightarrow> string \<Rightarrow> db \<Rightarrow> (int + sql_result) \<times> db" where
  "insert_user D n e p d =
     (if \<not> fits_varchar D n \<or> \<not> fits_varchar D e \<or> \<not> fits_varchar D p then (Inl 1406, d)
      else if \<exists>u\<in>set (db_users d). same_text D (u_name u) n \<or> same_text D (u_email u) e then (Inl 1062, d)
      else (Inr (no_rows 1 (word_of_int (db_next_user d))),
        d\<lparr>db_users := db_users d @
            [\<lparr>u_id = db_next_user d, u_name = n, u_email = e, u_pwd = p\<rparr>],
          db_next_user := db_next_user d + 1\<rparr>))"

text \<open>\<^verbatim>\<open>UPDATE user SET pwd = {0} WHERE name = {1} AND email = {2}\<close>\<close>

definition update_password :: "dialect \<Rightarrow> string \<Rightarrow> string \<Rightarrow> string \<Rightarrow> db \<Rightarrow> (int + sql_result) \<times> db" where
  "update_password D p n e d =
     (let hit = (\<lambda>u. same_text D (u_name u) n \<and> same_text D (u_email u) e);
          found = filter hit (db_users d);
          changed = filter (\<lambda>u. u_pwd u \<noteq> p) found
      in if found \<noteq> [] \<and> \<not> fits_varchar D p then (Inl 1406, d)
         else (Inr (no_rows (length (if counts_found D then found else changed)) 0),
           d\<lparr>db_users := map (\<lambda>u. if hit u then u\<lparr>u_pwd := p\<rparr> else u) (db_users d)\<rparr>))"

fun exec_stmt :: "dialect \<Rightarrow> sql_stmt \<Rightarrow> db \<Rightarrow> (int + sql_result list) \<times> db" where
  "exec_stmt D (InsertFriendApply f t) d =
     map_prod (map_sum id (\<lambda>r. [r])) id (insert_friend_apply (sint f) (sint t) d)"
| "exec_stmt D (AuthFriendTx f t) d = map_prod Inr id (auth_friend_tx (sint f) (sint t) d)"
| "exec_stmt D (SelectFriendApplies t) d = (Inr [select_friend_applies (sint t) d], d)"
| "exec_stmt D (SelectFriends s) d = (Inr [select_friends (sint s) d], d)"
| "exec_stmt D (SelectUserById i) d =
     (Inr [rows_of (map user_columns (filter (\<lambda>u. u_id u = sint i) (db_users d)))], d)"
| "exec_stmt D (SelectUserByName n) d =
     (Inr [rows_of (map user_columns (filter (\<lambda>u. same_text D (u_name u) n) (db_users d)))], d)"
| "exec_stmt D (InsertUser n e p) d = map_prod (map_sum id (\<lambda>r. [r])) id (insert_user D n e p d)"
| "exec_stmt D (UpdatePassword p n e) d =
     map_prod (map_sum id (\<lambda>r. [r])) id (update_password D p n e d)"
| "exec_stmt D (SelectIdByPassword n p) d =
     (Inr [rows_of (map (\<lambda>u. [(''id'', F_Int (u_id u))])
       (filter (\<lambda>u. same_text D (u_name u) n \<and> same_text D (u_pwd u) p) (db_users d)))], d)"

section \<open>Every statement keeps the schema's invariant\<close>

lemma insert_friend_apply_ok: "db_ok D d \<Longrightarrow> db_ok D (snd (insert_friend_apply f t d))"
  by (auto simp: insert_friend_apply_def db_ok_def)

lemma accept_apply_ok: "db_ok D d \<Longrightarrow> db_ok D (snd (accept_apply f t d))"
proof -
  have [simp]: "a_from_uid (if c then a\<lparr>a_status := 1\<rparr> else a) = a_from_uid a"
    "a_to_uid (if c then a\<lparr>a_status := 1\<rparr> else a) = a_to_uid a" for c and a :: db_apply
    by simp_all
  show "db_ok D d \<Longrightarrow> ?thesis"
    by (simp add: accept_apply_def db_ok_def comp_def)
qed

lemma insert_ignore_friend_ok: "db_ok D d \<Longrightarrow> db_ok D (snd (insert_ignore_friend s f d))"
  by (auto simp: insert_ignore_friend_def db_ok_def Let_def)

lemma auth_friend_tx_ok: "db_ok D d \<Longrightarrow> db_ok D (snd (auth_friend_tx f t d))"
  unfolding auth_friend_tx_def Let_def case_prod_beta snd_conv
  by (intro insert_ignore_friend_ok accept_apply_ok)

lemma insert_user_ok: "db_ok D d \<Longrightarrow> db_ok D (snd (insert_user D n e p d))"
  by (auto simp: insert_user_def db_ok_def sorted_wrt_append)

lemma update_password_ok: "db_ok D d \<Longrightarrow> db_ok D (snd (update_password D p n e d))"
proof -
  have [simp]: "u_id (if c then u\<lparr>u_pwd := p\<rparr> else u) = u_id u"
    "u_name (if c then u\<lparr>u_pwd := p\<rparr> else u) = u_name u"
    "u_email (if c then u\<lparr>u_pwd := p\<rparr> else u) = u_email u" for c and u :: db_user
    by simp_all
  show "db_ok D d \<Longrightarrow> ?thesis"
    by (simp add: update_password_def db_ok_def Let_def sorted_wrt_map) auto
qed

lemma exec_stmt_ok: "db_ok D d \<Longrightarrow> db_ok D (snd (exec_stmt D st d))"
  by (cases st) (auto simp: insert_friend_apply_ok auth_friend_tx_ok insert_user_ok
      update_password_ok)

interpretation tables: component db_ok "\<lambda>D st d. snd (exec_stmt D st d)"
  by unfold_locales (rule exec_stmt_ok)

section \<open>What the statements do\<close>

text \<open>Status of an application, and friendship, as the tables record them.\<close>

definition apply_status :: "db \<Rightarrow> int \<Rightarrow> int \<Rightarrow> int option" where
  "apply_status d f t =
     map_option a_status (List.find (\<lambda>a. a_from_uid a = f \<and> a_to_uid a = t) (db_applies d))"

definition are_friends :: "db \<Rightarrow> int \<Rightarrow> int \<Rightarrow> bool" where
  "are_friends d s f \<longleftrightarrow> (\<exists>r\<in>set (db_friends d). f_self_id r = s \<and> f_friend_id r = f)"

lemma find_append: "List.find P (xs @ ys) = (case List.find P xs of None \<Rightarrow> List.find P ys | Some x \<Rightarrow> Some x)"
  by (induction xs) auto

lemma apply_status_None:
  "(\<exists>a\<in>set (db_applies d). a_from_uid a = f \<and> a_to_uid a = t) \<longleftrightarrow> apply_status d f t \<noteq> None"
  by (auto simp: apply_status_def find_None_iff)

lemma apply_status_insert:
  "fits_int f \<Longrightarrow> fits_int t \<Longrightarrow>
   apply_status (snd (insert_friend_apply f t d)) f' t' =
     (if (f', t') = (f, t) \<and> apply_status d f t = None then Some 0 else apply_status d f' t')"
  unfolding insert_friend_apply_def apply_status_None
  by (auto simp: apply_status_def find_append split: option.split)

lemma apply_status_accept:
  "apply_status (snd (accept_apply f t d)) f' t' =
     (if (f', t') = (f, t) then map_option (\<lambda>_. 1) (apply_status d f t) else apply_status d f' t')"
proof -
  have "List.find (\<lambda>a. a_from_uid a = f' \<and> a_to_uid a = t')
      (map (\<lambda>a. if a_from_uid a = f \<and> a_to_uid a = t then a\<lparr>a_status := 1\<rparr> else a) xs) =
    (if (f', t') = (f, t)
     then map_option (\<lambda>a. a\<lparr>a_status := 1\<rparr>) (List.find (\<lambda>a. a_from_uid a = f' \<and> a_to_uid a = t') xs)
     else List.find (\<lambda>a. a_from_uid a = f' \<and> a_to_uid a = t') xs)" for xs :: "db_apply list"
    by (induction xs) auto
  then show ?thesis
    by (auto simp: apply_status_def accept_apply_def option.map_comp comp_def)
qed

lemma apply_status_insert_friend [simp]:
  "apply_status (snd (insert_ignore_friend s f d)) = apply_status d"
  by (auto simp: fun_eq_iff apply_status_def insert_ignore_friend_def Let_def)

lemma are_friends_insert:
  "are_friends (snd (insert_ignore_friend s f d)) s' f' \<longleftrightarrow>
     (s', f') = (clamp_int s, clamp_int f) \<or> are_friends d s' f'"
  by (auto simp: are_friends_def insert_ignore_friend_def Let_def)

lemma are_friends_accept [simp]: "are_friends (snd (accept_apply f t d)) = are_friends d"
  by (simp add: fun_eq_iff are_friends_def accept_apply_def)

lemma clamp_fits [simp]: "fits_int x \<Longrightarrow> clamp_int x = x"
  by (auto simp: clamp_int_def fits_int_def)

lemma auth_friend_tx_effect:
  "apply_status (snd (auth_friend_tx f t d)) f' t' =
     (if (f', t') = (f, t) then map_option (\<lambda>_. 1) (apply_status d f t) else apply_status d f' t')"
  "are_friends (snd (auth_friend_tx f t d)) s' g' \<longleftrightarrow>
     (s', g') = (clamp_int f, clamp_int t) \<or> (s', g') = (clamp_int t, clamp_int f) \<or> are_friends d s' g'"
  by (auto simp: auth_friend_tx_def Let_def case_prod_beta are_friends_insert apply_status_accept
      simp del: Product_Type.prod.sel(1))

end
