(* ===== verification/Repos.thy ===== *)
theory Repos
  imports Database
begin

text \<open>
  The repositories: \<^verbatim>\<open>FriendApplyRepo\<close> and \<^verbatim>\<open>FriendRepo\<close> of \<^verbatim>\<open>chat_server/friend_repo.hpp\<close>, the two
  \<^verbatim>\<open>UserRepo\<close>s. Each takes a pooled connection, executes its statement and reads the rows; every
  error of the MySQL client is thrown as \<^verbatim>\<open>error_with_diagnostics\<close>.
\<close>

section \<open>Connections, statements and typed rows\<close>

definition sql_connect :: "('s, unit) cor" where
  "sql_connect = SqlC GetConnection (\<lambda>r. case r of SqlError c \<Rightarrow> Throw (MysqlError c) | SqlOk _ \<Rightarrow> Done ())"

text \<open>
  The client's own error for result sets that do not fit \<^verbatim>\<open>static_results<...>\<close>; only its being
  different from the server's duplicate-key code 1062 matters.
\<close>

definition metadata_mismatch :: int where
  "metadata_mismatch = -1"

definition sql_run :: "sql_cmd \<Rightarrow> nat \<Rightarrow> ('s, sql_result list) cor" where
  "sql_run c n = SqlC c (\<lambda>r. case r of
       SqlError e \<Rightarrow> Throw (MysqlError e)
     | SqlOk rs \<Rightarrow> (if length rs = n then Done rs else Throw (MysqlError metadata_mismatch)))"

fun field_int :: "sql_row \<Rightarrow> string \<Rightarrow> int option" where
  "field_int r k = (case map_of r k of Some (F_Int n) \<Rightarrow> Some n | _ \<Rightarrow> None)"

fun field_text :: "sql_row \<Rightarrow> string \<Rightarrow> string option" where
  "field_text r k = (case map_of r k of Some (F_Str s) \<Rightarrow> Some s | _ \<Rightarrow> None)"

text \<open>An \<^verbatim>\<open>optional\<close> member accepts NULL.\<close>

fun field_opt_text :: "sql_row \<Rightarrow> string \<Rightarrow> string option option" where
  "field_opt_text r k =
     (case map_of r k of Some F_Null \<Rightarrow> Some None | Some (F_Str s) \<Rightarrow> Some (Some s) | _ \<Rightarrow> None)"

definition user_info_of_row :: "sql_row \<Rightarrow> user_info option" where
  "user_info_of_row r =
     Option.bind (field_int r ''id'') (\<lambda>i. Option.bind (field_text r ''name'') (\<lambda>n.
     Option.bind (field_text r ''email'') (\<lambda>e. Option.bind (field_text r ''pwd'') (\<lambda>p.
       Some \<lparr>ui_id = word_of_int i, ui_name = n, ui_email = e, ui_pwd = p\<rparr>))))"

definition friend_apply_row_of :: "sql_row \<Rightarrow> friend_apply_row option" where
  "friend_apply_row_of r =
     Option.bind (field_int r ''status'') (\<lambda>st. Option.bind (field_int r ''from_uid'') (\<lambda>f.
     Option.bind (field_text r ''name'') (\<lambda>n.
       Some \<lparr>far_status = word_of_int st, far_from_uid = word_of_int f, far_name = n\<rparr>)))"

definition friend_row_of :: "sql_row \<Rightarrow> friend_row option" where
  "friend_row_of r =
     Option.bind (field_int r ''friend_id'') (\<lambda>i. Option.bind (field_opt_text r ''back'') (\<lambda>b.
     Option.bind (field_text r ''name'') (\<lambda>n.
       Some \<lparr>fr_friend_id = word_of_int i, fr_back = b, fr_name = n\<rparr>)))"

definition typed_rows :: "(sql_row \<Rightarrow> 'r option) \<Rightarrow> sql_result list \<Rightarrow> ('s, 'r list) cor" where
  "typed_rows f rs = (case all_some (map f (concat (map res_rows rs))) of
       None \<Rightarrow> Throw (MysqlError metadata_mismatch)
     | Some xs \<Rightarrow> Done xs)"

definition sql_select :: "sql_stmt \<Rightarrow> (sql_row \<Rightarrow> 'r option) \<Rightarrow> ('s, 'r list) cor" where
  "sql_select st f = bind sql_connect (\<lambda>_. bind (sql_run (Execute st) 1) (typed_rows f))"

section \<open>\<^verbatim>\<open>chat_server/friend_repo.hpp\<close>\<close>

definition add_friend_apply :: "friend_apply \<Rightarrow> ('s, bool) cor" where
  "add_friend_apply req =
     bind sql_connect (\<lambda>_.
     bind (sql_run (Execute (InsertFriendApply (fa_from_uid req) (fa_to_uid req))) 1) (\<lambda>_.
     Done True))"

definition auth_friend_apply :: "friend_apply \<Rightarrow> ('s, bool) cor" where
  "auth_friend_apply req =
     bind sql_connect (\<lambda>_.
     bind (sql_run (Execute (AuthFriendTx (fa_from_uid req) (fa_to_uid req))) 5) (\<lambda>_.
     Done True))"

definition get_friend_applies :: "i64 \<Rightarrow> ('s, friend_apply_info list) cor" where
  "get_friend_applies to_uid =
     bind (sql_select (SelectFriendApplies to_uid) friend_apply_row_of) (\<lambda>rows.
     Done (map friend_apply_info_of rows))"

definition get_friends :: "i64 \<Rightarrow> ('s, friend_info list) cor" where
  "get_friends self_id =
     bind (sql_select (SelectFriends self_id) friend_row_of) (\<lambda>rows.
     Done (map friend_info_of rows))"

text \<open>\<^verbatim>\<open>FriendApplyRepo\<close> has a copy of the query.\<close>

definition apply_repo_get_friends :: "i64 \<Rightarrow> ('s, friend_info list) cor" where
  "apply_repo_get_friends self_id =
     bind (sql_select (SelectFriends self_id) friend_row_of) (\<lambda>rows.
     Done (map friend_info_of rows))"

lemma apply_repo_get_friends_same: "apply_repo_get_friends = get_friends"
  by (simp add: fun_eq_iff apply_repo_get_friends_def get_friends_def)

section \<open>\<^verbatim>\<open>chat_server/user_repo.hpp\<close>\<close>

definition first_user :: "user_info list \<Rightarrow> user_info option" where
  "first_user us = (case us of [] \<Rightarrow> None | u # _ \<Rightarrow> Some u)"

definition get_user_info :: "i64 \<Rightarrow> ('s, user_info option) cor" where
  "get_user_info uid =
     bind (sql_select (SelectUserById uid) user_info_of_row) (\<lambda>us. Done (first_user us))"

definition get_user_info_by_name :: "string \<Rightarrow> ('s, user_info option) cor" where
  "get_user_info_by_name name =
     bind (sql_select (SelectUserByName name) user_info_of_row) (\<lambda>us. Done (first_user us))"

lemmas repo_defs = sql_connect_def sql_run_def sql_select_def typed_rows_def add_friend_apply_def
  auth_friend_apply_def get_friend_applies_def get_friends_def get_user_info_def
  get_user_info_by_name_def

lemma quiet_sql [simp]: "quiet sql_connect" "quiet (sql_run c n)" "quiet (typed_rows f rs)"
  by (auto simp: repo_defs split: sql_reply.split option.split)

lemma quiet_select [simp]: "quiet (sql_select st f)"
  by (simp add: sql_select_def quiet_bind)

lemma quiet_repos [simp]:
  "quiet (add_friend_apply r)" "quiet (auth_friend_apply r)" "quiet (get_friend_applies u)"
  "quiet (get_friends u)" "quiet (get_user_info u)" "quiet (get_user_info_by_name n)"
  by (simp_all add: add_friend_apply_def auth_friend_apply_def get_friend_applies_def
      get_friends_def get_user_info_def get_user_info_by_name_def quiet_bind)

section \<open>An environment that executes the statements on the tables\<close>

text \<open>\<open>tbl\<close> reads the tables out of the state, \<open>put\<close> stores them back; nothing else changes.\<close>

definition serves_tables ::
    "dialect \<Rightarrow> ('s \<Rightarrow> db) \<Rightarrow> (db \<Rightarrow> 's \<Rightarrow> 's) \<Rightarrow> 's environment \<Rightarrow> bool" where
  "serves_tables D tbl put env \<longleftrightarrow>
     (\<forall>s d. tbl (put d s) = d) \<and>
     (\<forall>s. on_sql env GetConnection s = (SqlOk [], s)) \<and>
     (\<forall>s. on_sql env PrepareInsertUser s = (SqlOk [], s)) \<and>
     (\<forall>st s. on_sql env (Execute st) s =
        (case exec_stmt D st (tbl s) of
           (Inl e, d) \<Rightarrow> (SqlError e, s)
         | (Inr rs, d) \<Rightarrow> (SqlOk rs, put d s)))"

lemma run_sql_connect [simp]: "serves_tables D tbl put env \<Longrightarrow> run env sql_connect s = (Inr (), s)"
  by (simp add: sql_connect_def serves_tables_def)

lemma run_sql_execute:
  "serves_tables D tbl put env \<Longrightarrow>
   run env (sql_run (Execute st) n) s =
     (case exec_stmt D st (tbl s) of
        (Inl e, d) \<Rightarrow> (Inl (MysqlError e), s)
      | (Inr rs, d) \<Rightarrow>
          (if length rs = n then (Inr rs, put d s) else (Inl (MysqlError metadata_mismatch), put d s)))"
  by (cases "exec_stmt D st (tbl s)") (auto simp: sql_run_def serves_tables_def split: sum.split)

lemma tables_put [simp]: "serves_tables D tbl put env \<Longrightarrow> tbl (put d s) = d"
  by (simp add: serves_tables_def)

lemma length_auth_friend_tx [simp]: "length (fst (auth_friend_tx f t d)) = 5"
  by (simp add: auth_friend_tx_def Let_def case_prod_beta)

lemma run_add_friend_apply:
  "serves_tables D tbl put env \<Longrightarrow>
   run env (add_friend_apply r) s =
     (case insert_friend_apply (sint (fa_from_uid r)) (sint (fa_to_uid r)) (tbl s) of
        (Inl e, d) \<Rightarrow> (Inl (MysqlError e), s)
      | (Inr x, d) \<Rightarrow> (Inr True, put d s))"
  by (cases "insert_friend_apply (sint (fa_from_uid r)) (sint (fa_to_uid r)) (tbl s)")
    (auto simp: add_friend_apply_def cor_simps run_sql_execute split: sum.split)

lemma run_auth_friend_apply:
  "serves_tables D tbl put env \<Longrightarrow>
   run env (auth_friend_apply r) s =
     (Inr True, put (snd (auth_friend_tx (sint (fa_from_uid r)) (sint (fa_to_uid r)) (tbl s))) s)"
  by (cases "auth_friend_tx (sint (fa_from_uid r)) (sint (fa_to_uid r)) (tbl s)")
    (use length_auth_friend_tx [of "sint (fa_from_uid r)" "sint (fa_to_uid r)" "tbl s"] in
      \<open>simp add: auth_friend_apply_def cor_simps run_sql_execute\<close>)

end
