(* ===== verification/ChatHandlers.thy ===== *)
theory ChatHandlers
  imports ChatGrpc Repos
begin

text \<open>
  \<^verbatim>\<open>chat_server/handle_message.cpp\<close>: the five request handlers, their helpers, and the dispatch of
  \<^verbatim>\<open>MessageHandler::handle_message\<close>. \<open>me\<close> is the session, \<open>msg\<close> the node that was read.
\<close>

type_synonym ('w, 'a) task = "('w server, 'a) cor"
type_synonym 'w handler = "libs \<Rightarrow> nat \<Rightarrow> msg_node \<Rightarrow> ('w, channel_message) task"

section \<open>Helpers\<close>

text \<open>The result, and whether it came from Redis.\<close>

definition search_user_info ::
    "libs \<Rightarrow> string \<Rightarrow> ('w, user_info option) task \<Rightarrow> ('w, (user_info option \<times> bool)) task" where
  "search_user_info L user_info_key from_mysql =
     bind (redis_get user_info_key) (\<lambda>opt_value.
     case Option.bind opt_value (bj_parse_user L) of
       Some u \<Rightarrow> Done (Some u, True)
     | None \<Rightarrow> bind from_mysql (\<lambda>r. Done (r, False)))"

definition save_user_info :: "string \<Rightarrow> string \<Rightarrow> ('w, unit) task" where
  "save_user_info key user_info_str = bind (redis_set key user_info_str) (\<lambda>_. Done ())"

text \<open>The two instances of \<^verbatim>\<open>search_user_by_type\<close> differ in the key and the repository method.\<close>

definition search_user_by_type ::
    "libs \<Rightarrow> string \<Rightarrow> ('w, user_info option) task \<Rightarrow> ('w, user_info option) task" where
  "search_user_by_type L user_info_key from_mysql =
     bind (search_user_info L user_info_key from_mysql) (\<lambda>(result, is_redis_exist).
     case result of
       None \<Rightarrow> Done None
     | Some u \<Rightarrow>
         bind (if is_redis_exist then Done ()
               else save_user_info user_info_key (bj_serialize_user L u)) (\<lambda>_.
         Done result))"

definition search_user_by_uid :: "libs \<Rightarrow> i64 \<Rightarrow> ('w, user_info option) task" where
  "search_user_by_uid L key =
     search_user_by_type L (UserUidInfoPrefix @ to_string (sint key)) (get_user_info key)"

definition search_user_by_name :: "libs \<Rightarrow> string \<Rightarrow> ('w, user_info option) task" where
  "search_user_by_name L key =
     search_user_by_type L (UserNameInfoPrefix @ key) (get_user_info_by_name key)"

definition set_user_login_server :: "i64 \<Rightarrow> string \<Rightarrow> ('w, bool) task" where
  "set_user_login_server uid name = redis_set (UserLoginServerPrefix @ to_string (sint uid)) name"

definition get_user_login_server :: "i64 \<Rightarrow> ('w, string option) task" where
  "get_user_login_server uid = redis_get (UserLoginServerPrefix @ to_string (sint uid))"

definition update_login_count :: "('w, bool) task" where
  "update_login_count = Get (\<lambda>s.
     bind (redis_hset LoginCountKey [(srv_name s, ucast (participant_count s))]) (\<lambda>result.
     Done (\<not> result < 0)))"

section \<open>Handlers\<close>

definition UserTokenKey :: "i64 \<Rightarrow> string" where
  "UserTokenKey uid = UserTokenPrefix @ to_string (sint uid)"

definition login :: "'w handler" where
  "login L me msg =
     (let response_id = wire_id LoginResponse in
      case nlohmann_parse_json (lb_json L) (user_login_request_from_json (lb_json L)) (node_body msg) of
        None \<Rightarrow> lift (error_response_and_close L (mn_id msg) InvalidJson)
      | Some request \<Rightarrow>
          let uid = ulr_uid request in
          bind (redis_get (UserTokenKey uid)) (\<lambda>token.
          if token \<noteq> Some (ulr_token request)
          then lift (error_response_and_close L response_id TokenInvalid)
          else bind (search_user_by_uid L uid) (\<lambda>user_info.
          case user_info of
            None \<Rightarrow> lift (error_response_and_close L response_id InternalError)
          | Some u \<Rightarrow>
              bind update_login_count (\<lambda>_.
              Upd (update_session me (\<lambda>c. mark_authenticated (set_uid uid c))) (\<lambda>s.
              bind (set_user_login_server uid (srv_name s)) (\<lambda>_.
              bind (get_friend_applies uid) (\<lambda>apply_list.
              bind (get_friends uid) (\<lambda>friend_list.
              let json_response = response_payload (Some (user_login_response_to_json
                    \<lparr>uls_uid = uid, uls_token = ulr_token request, uls_name = ui_name u,
                     uls_apply_list = apply_list, uls_friend_list = friend_list\<rparr>)) 0 ''''
              in lift (map_sum id channel_of (node_of_json L response_id json_response)))))))))
     )"

text \<open>\<^verbatim>\<open>request.contains(k) && request[k].is_number()\<close>, and the member; likewise for strings.\<close>

definition number_at :: "json \<Rightarrow> string \<Rightarrow> json option" where
  "number_at j k = Option.bind (json_at j k) (\<lambda>v. if is_number v then Some v else None)"

definition string_at :: "json \<Rightarrow> string \<Rightarrow> json option" where
  "string_at j k = Option.bind (json_at j k) (\<lambda>v. if is_string v then Some v else None)"

definition search_user :: "'w handler" where
  "search_user L me msg =
     (let response_id = wire_id SearchUserResponse in
      case parse (lb_json L) (node_body msg) of
        None \<Rightarrow> lift (error_response L response_id InvalidJson)
      | Some request \<Rightarrow>
          bind (case number_at request ''uid'' of
              Some u \<Rightarrow> (case get_i64 (lb_json L) u of
                  Some uid \<Rightarrow> search_user_by_uid L uid | None \<Rightarrow> Throw StdException)
            | None \<Rightarrow> (case string_at request ''name'' of
                  Some v \<Rightarrow> (case get_string (lb_json L) v of
                      Some name \<Rightarrow> search_user_by_name L name | None \<Rightarrow> Throw StdException)
                | None \<Rightarrow> Done None)) (\<lambda>response.
          bind (lift (error_response L response_id UserNotFound)) (\<lambda>not_found.
          Done (case response of
              Some u \<Rightarrow> channel_of (mk_node (lb_platform L) response_id (Some (bj_serialize_user L u)))
            | None \<Rightarrow> not_found))))"

text \<open>
  The local notification every friend or chat handler ends with: look the target up among the
  participants, and deliver the dumped message to it, without suspending in between.
\<close>

definition notify_participant ::
    "i64 \<Rightarrow> (exn + msg_node) \<Rightarrow> ('w, 'a) task \<Rightarrow> ('w, 'a) task \<Rightarrow> ('w, 'a) task" where
  "notify_participant uid msg not_found sent =
     Upd (\<lambda>s. case (get_participant uid s, msg) of
            (Some target, Inr n) \<Rightarrow> deliver target (channel_of n) s
          | _ \<Rightarrow> s)
         (\<lambda>s. case get_participant uid s of
            None \<Rightarrow> not_found
          | Some _ \<Rightarrow> (case msg of Inl e \<Rightarrow> Throw e | Inr _ \<Rightarrow> sent))"

definition add_friend :: "'w handler" where
  "add_friend L me msg =
     (let response_id = wire_id AddFriendResponse in
      case nlohmann_parse_json (lb_json L) (add_friend_request_from_json (lb_json L)) (node_body msg) of
        None \<Rightarrow> lift (error_response L response_id InvalidJson)
      | Some request \<Rightarrow> Get (\<lambda>s.
          if adr_uid request \<noteq> cs_uid (srv_sessions s me) \<or> adr_uid request = adr_touid request
          then lift (error_response L response_id UserUidInvalid)
          else
            bind (add_friend_apply
              \<lparr>fa_from_uid = adr_uid request, fa_to_uid = adr_touid request\<rparr>) (\<lambda>_.
            bind (get_user_login_server (adr_touid request)) (\<lambda>target_login_server.
            case target_login_server of
              None \<Rightarrow> lift (error_response L response_id Success)
            | Some target \<Rightarrow>
                bind (get_user_info (adr_uid request)) (\<lambda>user_info.
                case user_info of
                  None \<Rightarrow> lift (error_response L response_id InternalError)
                | Some u \<Rightarrow> Get (\<lambda>s.
                    if target = srv_name s
                    then notify_participant (adr_touid request)
                      (node_of_json L (wire_id NotifyAddFriend) (notify_add_friend_msg_to_json
                        \<lparr>naf_applyuid = adr_uid request, naf_name = ui_name u\<rparr>))
                      (lift (error_response L response_id Success))
                      (lift (message_response L response_id))
                    else
                      bind (client_notify_add_friend (adr_uid request) (ui_name u) (adr_touid request))
                      (\<lambda>response.
                      case response of
                        Inl _ \<Rightarrow> lift (error_response L (mn_id msg) RPCFailed)
                      | Inr r \<Rightarrow>
                          if gr_error r \<noteq> 0 then lift (error_response L (mn_id msg) RPCFailed)
                          else lift (message_response L response_id))))))))"

definition auth_friend :: "'w handler" where
  "auth_friend L me msg =
     (let response_id = wire_id AuthFriendResponse in
      case nlohmann_parse_json (lb_json L) (auth_friend_request_from_json (lb_json L)) (node_body msg) of
        None \<Rightarrow> lift (error_response L response_id InvalidJson)
      | Some request \<Rightarrow> Get (\<lambda>s.
          if ahr_fromuid request \<noteq> cs_uid (srv_sessions s me) \<or> ahr_fromuid request = ahr_touid request
          then lift (error_response L response_id UserUidInvalid)
          else
            bind (auth_friend_apply
              \<lparr>fa_from_uid = ahr_fromuid request, fa_to_uid = ahr_touid request\<rparr>) (\<lambda>_.
            bind (get_user_login_server (ahr_touid request)) (\<lambda>target_login_server.
            case target_login_server of
              None \<Rightarrow> lift (error_response L response_id Success)
            | Some target \<Rightarrow> Get (\<lambda>s.
                if target = srv_name s
                then notify_participant (ahr_touid request)
                  (node_of_json L (wire_id NotifyAuthFriend)
                    (notify_auth_friend_msg_to_json (notify_auth_of_request request)))
                  (lift (error_response L response_id Success))
                  (lift (message_response L response_id))
                else
                  bind (client_notify_auth_friend (ahr_fromuid request) (ahr_touid request))
                  (\<lambda>response.
                  case response of
                    Inl _ \<Rightarrow> lift (error_response L (mn_id msg) RPCFailed)
                  | Inr r \<Rightarrow>
                      if gr_error r \<noteq> 0 then lift (error_response L (mn_id msg) RPCFailed)
                      else lift (message_response L response_id)))))))"

text \<open>The conversions of \<^verbatim>\<open>TextChatMsgRequest\<close>, member by member; its request is not used afterwards.\<close>

definition notify_of_text_request :: "text_chat_msg \<Rightarrow> text_chat_msg" where
  "notify_of_text_request request =
     \<lparr>tcm_fromuid = tcm_fromuid request, tcm_touid = tcm_touid request, tcm_text_array = tcm_text_array request\<rparr>"

definition grpc_of_text_request :: "text_chat_msg \<Rightarrow> text_chat_msg" where
  "grpc_of_text_request request =
     \<lparr>tcm_fromuid = tcm_fromuid request, tcm_touid = tcm_touid request, tcm_text_array = tcm_text_array request\<rparr>"

lemma text_request_conversions [simp]:
  "notify_of_text_request request = request" "grpc_of_text_request request = request"
  by (simp_all add: notify_of_text_request_def grpc_of_text_request_def)

definition text_chat_msg :: "'w handler" where
  "text_chat_msg L me msg =
     (let response_id = wire_id TextChatMsgRsp in
      case nlohmann_parse_json (lb_json L) (text_chat_msg_from_json (lb_json L)) (node_body msg) of
        None \<Rightarrow> lift (error_response L response_id InvalidJson)
      | Some request \<Rightarrow> Get (\<lambda>s.
          if tcm_fromuid request \<noteq> cs_uid (srv_sessions s me) \<or> tcm_fromuid request = tcm_touid request
          then lift (error_response L response_id UserUidInvalid)
          else
            bind (get_user_login_server (tcm_touid request)) (\<lambda>target_login_server.
            case target_login_server of
              None \<Rightarrow> lift (error_response L response_id Success)
            | Some target \<Rightarrow> Get (\<lambda>s.
                if target = srv_name s
                then notify_participant (tcm_touid request)
                  (node_of_json L (wire_id NotifyTextChatMsg) (text_chat_msg_to_json (notify_of_text_request request)))
                  (lift (error_response L response_id Success))
                  (lift (message_response L response_id))
                else
                  bind (client_notify_text_chat_msg (grpc_of_text_request request)) (\<lambda>response.
                  case response of
                    Inl _ \<Rightarrow> lift (error_response L (mn_id msg) RPCFailed)
                  | Inr r \<Rightarrow>
                      if gr_error r \<noteq> 0 then lift (error_response L (mn_id msg) RPCFailed)
                      else lift (message_response L response_id))))))"

section \<open>Dispatch\<close>

definition handlers_init :: "(message_id \<times> 'w handler) list" where
  "handlers_init =
     smap_insert TextChatMsgReq text_chat_msg
     (smap_insert AuthFriendRequest auth_friend
     (smap_insert AddFriendRequest add_friend
     (smap_insert SearchUserRequest search_user
     (smap_insert LoginRequest login []))))"

text \<open>\<^verbatim>\<open>enum_cast\<close> takes the underlying 16-bit type, so the 32-bit id of the node is narrowed.\<close>

definition handle_message :: "'w handler" where
  "handle_message L me msg = Get (\<lambda>s.
     if \<not> cs_authenticated (srv_sessions s me) \<and> mn_id msg \<noteq> wire_id LoginRequest
     then lift (error_response_and_close L (mn_id msg) NotAuthenticated)
     else (case cast_message_id (lb_enum L) (ucast (mn_id msg)) of
        None \<Rightarrow> Done (empty_response L (mn_id msg))
      | Some message_id \<Rightarrow>
          (case smap_find handlers_init message_id of
             None \<Rightarrow> Done (empty_response L (mn_id msg))
           | Some h \<Rightarrow>
               let response_id = wire_id (get_response_id message_id) in
               catch (h L me msg) (\<lambda>err. case err of
                   MysqlError _ \<Rightarrow> lift (error_response L response_id InternalError)
                 | StdException \<Rightarrow> lift (error_response L response_id InternalError)))))"

end
