(* ===== verification/HandlerSafety.thy ===== *)
theory HandlerSafety
  imports ChatHandlers
begin

text \<open>
  What the handlers may do to the chat server, whatever Redis, MySQL and the peer answer and
  whatever the other sessions do while a handler is suspended.
\<close>

section \<open>The contract\<close>

text \<open>A message asked to log in as \<open>uid\<close> and Redis answered with the token it carries.\<close>

definition login_granted :: "libs \<Rightarrow> msg_node \<Rightarrow> redis_log \<Rightarrow> i64 \<Rightarrow> bool" where
  "login_granted L msg log uid \<longleftrightarrow>
     (\<exists>request.
        nlohmann_parse_json (lb_json L) (user_login_request_from_json (lb_json L)) (node_body msg) = Some request \<and>
        ulr_uid request = uid \<and> (R_GET (UserTokenKey uid), R_Value (R_Str (ulr_token request))) \<in> log)"

definition become :: "nat \<Rightarrow> i64 \<Rightarrow> 'w server \<Rightarrow> 'w server" where
  "become me uid = update_session me (\<lambda>c. mark_authenticated (set_uid uid c))"

text \<open>
  The only updates: nothing, a notification to the participant that \<^verbatim>\<open>get_participant\<close> finds, or the
  session taking the identity it presented the token of.
\<close>

definition handler_step :: "libs \<Rightarrow> nat \<Rightarrow> msg_node \<Rightarrow> redis_log \<Rightarrow> 'w server \<Rightarrow> 'w server \<Rightarrow> bool" where
  "handler_step L me msg log s t \<longleftrightarrow>
     t = s \<or> (\<exists>uid. notified uid s t) \<or> (\<exists>uid. login_granted L msg log uid \<and> t = become me uid s)"

lemma log_mono_handler [simp]: "log_mono (handler_step L me msg)"
  by (auto simp: log_mono_def handler_step_def login_granted_def)

locale message_handler =
  fixes h :: "'w handler"
  assumes contract: "guar (handler_step L me msg) {} (h L me msg)"
begin

lemma with_recovery:
  "(\<And>e. quiet (k e)) \<Longrightarrow> guar (handler_step L me msg) {} (catch (h L me msg) k)"
  by (rule guar_catch [OF log_mono_handler contract]) (rule quiet_guar)

end

section \<open>The handlers keep it\<close>

lemma quiet_search [simp]:
  "quiet m \<Longrightarrow> quiet (search_user_by_type L k m)"
  by (auto simp: search_user_by_type_def search_user_info_def save_user_info_def
      intro!: quiet_bind split: option.split)

lemma quiet_helpers [simp]:
  "quiet (search_user_by_uid L u)" "quiet (search_user_by_name L n)"
  "quiet (set_user_login_server u n)" "quiet (get_user_login_server u)" "quiet update_login_count"
  by (simp_all add: search_user_by_uid_def search_user_by_name_def set_user_login_server_def
      get_user_login_server_def update_login_count_def quiet_bind)

lemma quiet_search_user: "quiet (search_user L me msg)"
  by (auto simp: search_user_def Let_def intro!: quiet_bind split: option.split)

lemma guar_notify:
  fixes a b :: "('w, 'a) task"
  assumes "\<And>n. msg' = Inr n \<Longrightarrow> \<exists>k j. k \<in> {NotifyAddFriend, NotifyAuthFriend, NotifyTextChatMsg} \<and>
      node_of_json L (wire_id k) j = Inr n"
    and "quiet a" "quiet b"
  shows "guar (handler_step L me msg) log (notify_participant uid msg' a b)"
proof -
  have "handler_step L me msg log s (case (get_participant uid s, msg') of
      (Some target, Inr n) \<Rightarrow> deliver target (channel_of n) s | _ \<Rightarrow> s)" for s :: "'w server"
    using assms(1) notifiedI [of uid s _ L]
    by (fastforce simp: handler_step_def split: option.split sum.split)
  then show ?thesis
    using assms(2,3)
    by (auto simp: notify_participant_def intro: quiet_guar split: option.split sum.split)
qed

lemma handler_guar_bind:
  "quiet m \<Longrightarrow> (\<And>x L'. guar (handler_step L me msg) L' (f x)) \<Longrightarrow>
   guar (handler_step L me msg) log (bind m f)"
  by (rule guar_bind) (auto intro: quiet_guar)

lemma guar_add_friend: "guar (handler_step L me msg) log (add_friend L me msg)"
  unfolding add_friend_def Let_def
  by (auto intro!: handler_guar_bind guar_notify split: option.split sum.split) blast+

lemma guar_auth_friend: "guar (handler_step L me msg) log (auth_friend L me msg)"
  unfolding auth_friend_def Let_def
  by (auto intro!: handler_guar_bind guar_notify split: option.split sum.split) blast+

lemma guar_text_chat_msg: "guar (handler_step L me msg) log (text_chat_msg L me msg)"
  unfolding text_chat_msg_def Let_def
  by (auto intro!: handler_guar_bind guar_notify split: option.split sum.split) blast+


text \<open>After the token comparison: the only update is the session taking the identity.\<close>

lemma guar_login:
  fixes me :: nat
  shows "guar (handler_step L me msg) log (login L me msg :: ('w, channel_message) task)"
proof (cases "nlohmann_parse_json (lb_json L) (user_login_request_from_json (lb_json L)) (node_body msg)")
  case None
  then show ?thesis by (simp add: login_def)
next
  case (Some request)
  let ?key = "R_GET (UserTokenKey (ulr_uid request))"
  have granted: "handler_step L me msg log' s
      (update_session me (\<lambda>c. mark_authenticated (set_uid (ulr_uid request) c)) s)"
    if "(?key, R_Value (R_Str (ulr_token request))) \<in> log'" for log' and s :: "'w server"
    using that Some by (auto simp: handler_step_def login_granted_def become_def)
  have mono: "guar (handler_step L me msg) L1 (bind m f)"
    if "quiet m" "\<And>x L'. L1 \<subseteq> L' \<Longrightarrow> guar (handler_step L me msg) L' (f x)"
    for m :: "('w, 'b) task" and f :: "'b \<Rightarrow> ('w, channel_message) task" and L1
    using that by (auto intro: guar_bind quiet_guar)
  show ?thesis
    unfolding login_def Let_def Some option.case redis_get_def bind.simps guar.simps
    by (auto intro!: mono granted split: option.split redis_reply.splits redis_value.splits)
      (auto dest: subsetD)
qed

interpretation login: message_handler login by unfold_locales (rule guar_login)
interpretation search_user: message_handler search_user
  by unfold_locales (rule quiet_guar [OF quiet_search_user])
interpretation add_friend: message_handler add_friend by unfold_locales (rule guar_add_friend)
interpretation auth_friend: message_handler auth_friend by unfold_locales (rule guar_auth_friend)
interpretation text_chat: message_handler text_chat_msg by unfold_locales (rule guar_text_chat_msg)

lemma handlers_init_cases:
  "smap_find handlers_init k = Some h \<Longrightarrow>
   (k, h) \<in> {(LoginRequest, login), (SearchUserRequest, search_user), (AddFriendRequest, add_friend),
     (AuthFriendRequest, auth_friend), (TextChatMsgReq, text_chat_msg)}"
  by (auto simp: handlers_init_def smap_simps split: if_splits)

lemma handlers_with_recovery:
  assumes "smap_find handlers_init k = Some h" "\<And>e. quiet (r e)"
  shows "guar (handler_step L me msg) {} (catch (h L me msg) r)"
  using handlers_init_cases [OF assms(1)] assms(2)
  by (auto intro: login.with_recovery search_user.with_recovery add_friend.with_recovery
      auth_friend.with_recovery text_chat.with_recovery)

lemma guar_handle_message: "guar (handler_step L me msg) {} (handle_message L me msg)"
  unfolding handle_message_def Let_def
  by (auto intro!: handlers_with_recovery split: option.split exn.split)

end
