(* ===== verification/ChatSession.thy ===== *)
theory ChatSession
  imports HandlerSafety
begin

text \<open>
  The life of the sessions of one chat server (\<^verbatim>\<open>chat_server/chat_server.hpp\<close>, and the listener of
  \<^verbatim>\<open>chat_server/main.cpp\<close>): the reader, writer and deadline coroutines of every session and the gRPC
  service, all scheduled on the one thread of the main context, as a step relation. A handler that
  calls the peer blocks that thread until the call returns.
\<close>

section \<open>State\<close>

text \<open>
  A reader waits for a header, for the body of the node it decoded, or for the answer to a call of
  the handler that treats the node; or it has returned.
\<close>

datatype reader_state =
    ReadHeader
  | ReadBody msg_node
  | Handling msg_node "(unit, channel_message) task"
  | ReaderEnded

text \<open>
  \<open>pr_inbox\<close> holds bytes that arrived and are not read, \<open>pr_sent\<close> the messages written out; \<open>pr_read\<close>
  and \<open>pr_log\<close> record, for the statements only, the nodes handled and the Redis replies seen.
\<close>

record chat_process =
  pr_server :: chat_server
  pr_started :: "nat set"
  pr_reader :: "nat \<Rightarrow> reader_state"
  pr_inbox :: "nat \<Rightarrow> string"
  pr_sent :: "nat \<Rightarrow> channel_message list"
  pr_read :: "nat \<Rightarrow> msg_node list"
  pr_log :: "nat \<Rightarrow> redis_log"
  pr_blocked :: "nat option"

definition set_reader :: "nat \<Rightarrow> reader_state \<Rightarrow> chat_process \<Rightarrow> chat_process" where
  "set_reader i r p = p\<lparr>pr_reader := (pr_reader p)(i := r)\<rparr>"

definition set_server :: "chat_server \<Rightarrow> chat_process \<Rightarrow> chat_process" where
  "set_server s p = p\<lparr>pr_server := s\<rparr>"

definition with_session :: "nat \<Rightarrow> (chat_session \<Rightarrow> chat_session) \<Rightarrow> chat_process \<Rightarrow> chat_process" where
  "with_session i f p = set_server (update_session i f (pr_server p)) p"

abbreviation session :: "chat_process \<Rightarrow> nat \<Rightarrow> chat_session" where
  "session p \<equiv> srv_sessions (pr_server p)"

section \<open>Coroutine bodies, from one suspension to the next\<close>

text \<open>\<^verbatim>\<open>ChatSession(socket, server)\<close> and \<^verbatim>\<open>start\<close>; \<open>memory\<close> is what \<^verbatim>\<open>uid_\<close> is built over.\<close>

definition start :: "nat \<Rightarrow> i64 \<Rightarrow> chat_process \<Rightarrow> chat_process" where
  "start i memory p =
     set_reader i ReadHeader
       (set_server (join i (update_session i (\<lambda>_. fresh_session memory) (pr_server p)))
         (p\<lparr>pr_started := insert i (pr_started p), pr_inbox := (pr_inbox p)(i := []),
           pr_sent := (pr_sent p)(i := []), pr_read := (pr_read p)(i := []),
           pr_log := (pr_log p)(i := {})\<rparr>))"

text \<open>The reader after a slice of the handler: the reply, an exception, or the next call.\<close>

definition proceed ::
    "nat \<Rightarrow> msg_node \<Rightarrow> chat_server \<times> (unit, channel_message) task \<Rightarrow> chat_process \<Rightarrow> chat_process" where
  "proceed i msg r p = (case r of (s, c) \<Rightarrow>
     (case c of
        Done m \<Rightarrow> set_reader i ReadHeader (set_server (deliver i m s) (p\<lparr>pr_blocked := None\<rparr>))
      | Throw e \<Rightarrow> set_reader i ReaderEnded (set_server (stop i s) (p\<lparr>pr_blocked := None\<rparr>))
      | RpcC q k \<Rightarrow> set_reader i (Handling msg c) (set_server s (p\<lparr>pr_blocked := Some i\<rparr>))
      | _ \<Rightarrow> set_reader i (Handling msg c) (set_server s (p\<lparr>pr_blocked := None\<rparr>))))"

text \<open>The header has arrived.\<close>

definition reader_head :: "libs \<Rightarrow> nat \<Rightarrow> chat_process \<Rightarrow> chat_process" where
  "reader_head L i p =
     (let (ok, n) = read_prefix (lb_platform L) (take PREFIX_LEN (pr_inbox p i));
          p' = p\<lparr>pr_inbox := (pr_inbox p)(i := drop PREFIX_LEN (pr_inbox p i))\<rparr>
      in if ok then set_reader i (ReadBody n) p'
         else set_reader i ReaderEnded (set_server (stop i (pr_server p)) p'))"

text \<open>The body has arrived: the handler starts.\<close>

definition reader_body :: "libs \<Rightarrow> nat \<Rightarrow> msg_node \<Rightarrow> chat_process \<Rightarrow> chat_process" where
  "reader_body L i n p =
     (let msg = read_body (take (body_size n) (pr_inbox p i)) n in
      proceed i msg (settle (handle_message L i msg) (pr_server p))
        (p\<lparr>pr_inbox := (pr_inbox p)(i := drop (body_size n) (pr_inbox p i)),
          pr_read := (pr_read p)(i := pr_read p i @ [msg])\<rparr>))"

definition reader_failed :: "nat \<Rightarrow> chat_process \<Rightarrow> chat_process" where
  "reader_failed i p = set_reader i ReaderEnded (set_server (stop i (pr_server p)) p)"

text \<open>The pending write has completed.\<close>

definition writer_written :: "nat \<Rightarrow> channel_message \<Rightarrow> chat_process \<Rightarrow> chat_process" where
  "writer_written i out p =
     (let p' = p\<lparr>pr_sent := (pr_sent p)(i := pr_sent p i @ [out])\<rparr> in
      if cm_close_after_send out
      then with_session i (\<lambda>c. c\<lparr>cs_writer := WriterEnded\<rparr>) (set_server (stop i (pr_server p)) p')
      else with_session i (\<lambda>c. c\<lparr>cs_writer := WaitReceive\<rparr>) p')"

definition writer_failed :: "nat \<Rightarrow> chat_process \<Rightarrow> chat_process" where
  "writer_failed i p =
     with_session i (\<lambda>c. c\<lparr>cs_writer := WriterEnded\<rparr>) (set_server (stop i (pr_server p)) p)"

definition check_login_deadline :: "nat \<Rightarrow> chat_process \<Rightarrow> chat_process" where
  "check_login_deadline i p =
     (if \<not> cs_authenticated (session p i) then set_server (stop i (pr_server p)) p
      else with_session i (\<lambda>c. c\<lparr>cs_deadline := False\<rparr>) p)"

section \<open>The step relation\<close>

inductive session_step :: "libs \<Rightarrow> chat_process \<Rightarrow> chat_process \<Rightarrow> bool" for L where
  accept: "pr_blocked p = None \<Longrightarrow> i \<notin> pr_started p \<Longrightarrow> session_step L p (start i memory p)"
| arrive: "i \<in> pr_started p \<Longrightarrow>
    session_step L p (p\<lparr>pr_inbox := (pr_inbox p)(i := pr_inbox p i @ bytes)\<rparr>)"
| read_head: "pr_blocked p = None \<Longrightarrow> pr_reader p i = ReadHeader \<Longrightarrow> cs_open (session p i) \<Longrightarrow>
    PREFIX_LEN \<le> length (pr_inbox p i) \<Longrightarrow> session_step L p (reader_head L i p)"
| read_body: "pr_blocked p = None \<Longrightarrow> pr_reader p i = ReadBody n \<Longrightarrow> cs_open (session p i) \<Longrightarrow>
    body_size n \<le> length (pr_inbox p i) \<Longrightarrow> session_step L p (reader_body L i n p)"
| read_error: "pr_blocked p = None \<Longrightarrow> pr_reader p i = ReadHeader \<or> pr_reader p i = ReadBody n \<Longrightarrow>
    session_step L p (reader_failed i p)"
| redis_reply: "pr_blocked p = None \<Longrightarrow> pr_reader p i = Handling msg (RedisC q k) \<Longrightarrow>
    session_step L p (proceed i msg (settle (k r) (pr_server p))
      (p\<lparr>pr_log := (pr_log p)(i := insert (q, r) (pr_log p i))\<rparr>))"
| sql_reply: "pr_blocked p = None \<Longrightarrow> pr_reader p i = Handling msg (SqlC st k') \<Longrightarrow>
    session_step L p (proceed i msg (settle (k' rs) (pr_server p)) p)"
| rpc_reply: "pr_blocked p = Some i \<Longrightarrow> pr_reader p i = Handling msg (RpcC c k'') \<Longrightarrow>
    session_step L p (proceed i msg (settle (k'' rr) (pr_server p)) p)"
| uuid_reply: "pr_blocked p = None \<Longrightarrow> pr_reader p i = Handling msg (UuidC ku) \<Longrightarrow>
    session_step L p (proceed i msg (settle (ku u) (pr_server p)) p)"
| write_take: "pr_blocked p = None \<Longrightarrow> i \<in> pr_started p \<Longrightarrow> cs_writer (session p i) = WaitReceive \<Longrightarrow>
    channel_receive (session p i) = Some (out, c') \<Longrightarrow> session_step L p (with_session i (\<lambda>_. c') p)"
| write_done: "pr_blocked p = None \<Longrightarrow> cs_writer (session p i) = Writing out \<Longrightarrow> cs_open (session p i) \<Longrightarrow>
    session_step L p (writer_written i out p)"
| write_error: "pr_blocked p = None \<Longrightarrow> cs_writer (session p i) = Writing out \<Longrightarrow>
    session_step L p (writer_failed i p)"
| deadline: "pr_blocked p = None \<Longrightarrow> i \<in> pr_started p \<Longrightarrow> cs_deadline (session p i) \<Longrightarrow>
    session_step L p (check_login_deadline i p)"
| notify: "pr_blocked p = None \<Longrightarrow> session_step L p (set_server (snd (chat_service L q (pr_server p))) p)"

inductive_cases blocked_stepE: "session_step L p q"

text \<open>A server as \<^verbatim>\<open>main\<close> builds it: no session yet; the memory sessions will be built in is arbitrary.\<close>

definition initial :: "chat_process \<Rightarrow> bool" where
  "initial p \<longleftrightarrow> pr_started p = {} \<and> srv_participants (pr_server p) = [] \<and> pr_blocked p = None \<and>
     pr_reader p = (\<lambda>_. ReaderEnded) \<and> pr_sent p = (\<lambda>_. []) \<and> pr_read p = (\<lambda>_. []) \<and> pr_log p = (\<lambda>_. {}) \<and>
     (\<forall>i. cs_channel (session p i) = [] \<and> \<not> cs_authenticated (session p i) \<and>
        cs_writer (session p i) = WriterEnded \<and> \<not> cs_open (session p i))"

inductive reachable :: "libs \<Rightarrow> chat_process \<Rightarrow> bool" for L where
  reach_init: "initial p \<Longrightarrow> reachable L p"
| reach_step: "reachable L p \<Longrightarrow> session_step L p q \<Longrightarrow> reachable L q"

end
