(* ===== verification/SessionSafety.thy ===== *)
theory SessionSafety
  imports ChatSession
begin

text \<open>
  Invariants of the reachable states of a chat server: who is authenticated, who can be found, how
  much is queued, and what has been written.
\<close>

section \<open>The server's part of the invariant\<close>

text \<open>
  \<open>S\<close> are the sessions started, \<open>R\<close> the nodes each has handled and \<open>G\<close> the Redis replies its handlers
  have seen. An authenticated session has handled a message whose token Redis confirmed for its uid.
\<close>

definition server_inv ::
    "libs \<Rightarrow> nat set \<Rightarrow> (nat \<Rightarrow> msg_node list) \<Rightarrow> (nat \<Rightarrow> redis_log) \<Rightarrow> chat_server \<Rightarrow> bool" where
  "server_inv L S R G s \<longleftrightarrow> server_ok s \<and>
     set (srv_participants s) = {i \<in> S. cs_open (srv_sessions s i)} \<and>
     (\<forall>i. cs_authenticated (srv_sessions s i) \<longrightarrow>
        (\<exists>msg\<in>set (R i). login_granted L msg (G i) (cs_uid (srv_sessions s i))))"

text \<open>Nothing but the reader, the writer or the timer of a session touches these two members.\<close>

definition same_io :: "chat_server \<Rightarrow> chat_server \<Rightarrow> bool" where
  "same_io s t \<longleftrightarrow> (\<forall>i. cs_writer (srv_sessions t i) = cs_writer (srv_sessions s i) \<and>
     cs_open (srv_sessions t i) = cs_open (srv_sessions s i))"

lemma same_io_refl [simp]: "same_io s s"
  by (simp add: same_io_def)

lemma same_io_trans: "same_io s t \<Longrightarrow> same_io t u \<Longrightarrow> same_io s u"
  by (simp add: same_io_def)

lemma session_simps [simp]:
  "cs_uid (set_uid u c) = u" "cs_authenticated (set_uid u c) = cs_authenticated c"
  "cs_open (set_uid u c) = cs_open c" "cs_writer (set_uid u c) = cs_writer c"
  "cs_uid (mark_authenticated c) = cs_uid c" "cs_authenticated (mark_authenticated c)"
  "cs_open (mark_authenticated c) = cs_open c" "cs_writer (mark_authenticated c) = cs_writer c"
  by (simp_all add: set_uid_def mark_authenticated_def)

lemma same_io_steps [simp]: "same_io s (deliver i m s)" "same_io s (become i u s)"
  by (simp_all add: same_io_def deliver_def become_def)

lemma same_io_handler: "handler_step L i msg log s t \<Longrightarrow> same_io s t"
  by (auto simp: handler_step_def notified_def)

lemma server_inv_deliver [simp]: "server_inv L S R G s \<Longrightarrow> server_inv L S R G (deliver i m s)"
proof -
  assume inv: "server_inv L S R G s"
  then have "server_ok (deliver i m s)" by (simp add: server_inv_def)
  with inv show ?thesis by (auto simp: server_inv_def deliver_def)
qed

lemma server_inv_become:
  "server_inv L S R G s \<Longrightarrow> msg \<in> set (R i) \<Longrightarrow> login_granted L msg (G i) u \<Longrightarrow>
   server_inv L S R G (become i u s)"
proof -
  assume inv: "server_inv L S R G s" and granted: "msg \<in> set (R i)" "login_granted L msg (G i) u"
  have "server_ok (become i u s)"
    using inv unfolding become_def server_inv_def by (auto intro: server_ok_update)
  with inv granted show ?thesis by (auto simp: server_inv_def become_def)
qed

lemma server_inv_handler:
  "handler_step L i msg (G i) s t \<Longrightarrow> msg \<in> set (R i) \<Longrightarrow> server_inv L S R G s \<Longrightarrow> server_inv L S R G t"
  by (auto simp: handler_step_def notified_def intro: server_inv_become)

lemma stop_simps [simp]:
  "srv_sessions (stop i s) = (srv_sessions s)(i := (srv_sessions s i)\<lparr>cs_deadline := False, cs_open := False\<rparr>)"
  "server_ok s \<Longrightarrow> set (srv_participants (stop i s)) = set (srv_participants s) - {i}"
proof -
  show "srv_sessions (stop i s) = (srv_sessions s)(i := (srv_sessions s i)\<lparr>cs_deadline := False, cs_open := False\<rparr>)"
    by (simp add: stop_def)
  have "server_ok s \<Longrightarrow> server_ok (update_session i (\<lambda>c. c\<lparr>cs_deadline := False\<rparr>) s)"
    by (rule server_ok_update) simp_all
  then show "server_ok s \<Longrightarrow> set (srv_participants (stop i s)) = set (srv_participants s) - {i}"
    by (simp add: stop_def)
qed

lemma server_inv_stop [simp]: "server_inv L S R G s \<Longrightarrow> server_inv L S R G (stop i s)"
  unfolding server_inv_def by (auto simp: set_eq_iff)

text \<open>A member the invariant does not speak of may change, as long as the channel keeps its room.\<close>

lemma server_inv_update:
  assumes "server_inv L S R G s"
    and "cs_uid (f (srv_sessions s i)) = cs_uid (srv_sessions s i)"
    and "cs_authenticated (f (srv_sessions s i)) = cs_authenticated (srv_sessions s i)"
    and "cs_open (f (srv_sessions s i)) = cs_open (srv_sessions s i)"
    and "length (cs_channel (f (srv_sessions s i))) \<le> channel_room (f (srv_sessions s i))"
  shows "server_inv L S R G (update_session i f s)"
  using assms by (auto simp: server_inv_def server_ok_def)

lemma server_inv_ghost:
  "server_inv L S R G s \<Longrightarrow> (\<And>i. set (R i) \<subseteq> set (R' i)) \<Longrightarrow> (\<And>i. G i \<subseteq> G' i) \<Longrightarrow>
   server_inv L S R' G' s"
  unfolding server_inv_def login_granted_def by (meson subsetD)

section \<open>The invariant\<close>

text \<open>What has been written: a closing message is the last one, and then the writer has ended.\<close>

definition written_ok :: "chat_session \<Rightarrow> channel_message list \<Rightarrow> bool" where
  "written_ok c ms \<longleftrightarrow> (\<forall>m\<in>set (butlast ms). \<not> cm_close_after_send m) \<and>
     (ms \<noteq> [] \<longrightarrow> cm_close_after_send (last ms) \<longrightarrow> cs_writer c = WriterEnded)"

definition reader_ok :: "libs \<Rightarrow> nat \<Rightarrow> chat_process \<Rightarrow> bool" where
  "reader_ok L i p \<longleftrightarrow> (\<forall>msg c. pr_reader p i = Handling msg c \<longrightarrow>
     msg \<in> set (pr_read p i) \<and> guar (handler_step L i msg) (pr_log p i) c)"

definition process_inv :: "libs \<Rightarrow> chat_process \<Rightarrow> bool" where
  "process_inv L p \<longleftrightarrow>
     server_inv L (pr_started p) (pr_read p) (pr_log p) (pr_server p) \<and>
     (\<forall>i. reader_ok L i p) \<and>
     (\<forall>i. written_ok (session p i) (pr_sent p i)) \<and>
     (\<forall>i. i \<notin> pr_started p \<longrightarrow> pr_reader p i = ReaderEnded \<and> cs_writer (session p i) = WriterEnded) \<and>
     (\<forall>i. pr_blocked p = Some i \<longrightarrow> (\<exists>msg q k. pr_reader p i = Handling msg (RpcC q k)))"

lemmas process_defs = set_reader_def set_server_def with_session_def

lemma written_ok_same_io: "same_io s t \<Longrightarrow> written_ok (srv_sessions s i) ms \<Longrightarrow> written_ok (srv_sessions t i) ms"
  by (simp add: same_io_def written_ok_def)

text \<open>The slice of a handler, from a state of the invariant.\<close>

lemma settle_inv:
  assumes "settle c s = (s', c')" "guar (handler_step L i msg) (G i) c" "msg \<in> set (R i)"
    and "server_inv L S R G s"
  shows "server_inv L S R G s' \<and> same_io s s' \<and> guar (handler_step L i msg) (G i) c'"
proof -
  have "server_inv L S R G u \<and> same_io s u"
    if "server_inv L S R G t \<and> same_io s t" "handler_step L i msg (G i) t u" for t u
    using that assms(3) server_inv_handler same_io_handler same_io_trans by blast
  from settle_guar [OF assms(2,1), of "\<lambda>t. server_inv L S R G t \<and> same_io s t", OF this] assms(4)
  show ?thesis by simp
qed

lemma proceed_inv:
  assumes inv: "process_inv L p" and free: "pr_blocked p = None \<or> pr_blocked p = Some i"
    and "i \<in> pr_started p"
    and "guar (handler_step L i msg) (pr_log p i) c" "msg \<in> set (pr_read p i)"
  shows "process_inv L (proceed i msg (settle c (pr_server p)) p)"
proof -
  obtain s' c' where r: "settle c (pr_server p) = (s', c')" by force
  have srv: "server_inv L (pr_started p) (pr_read p) (pr_log p) (pr_server p)"
    using inv by (simp add: process_inv_def)
  have s: "server_inv L (pr_started p) (pr_read p) (pr_log p) s'" "same_io (pr_server p) s'"
    "guar (handler_step L i msg) (pr_log p i) c'"
    using settle_inv [OF r assms(4,5) srv] by auto
  have w: "written_ok (srv_sessions s' j) (pr_sent p j)" for j
    using inv written_ok_same_io [OF s(2)] by (simp add: process_inv_def)
  have u: "j \<notin> pr_started p \<Longrightarrow> cs_writer (srv_sessions s' j) = WriterEnded" for j
    using inv s(2) by (simp add: process_inv_def same_io_def)
  have d: "written_ok (srv_sessions (deliver i m s') j) (pr_sent p j)" for j m
    using w written_ok_same_io same_io_steps(1) by blast
  have t: "written_ok (srv_sessions (stop i s') j) (pr_sent p j)" for j
    using w [of j] by (auto simp: written_ok_def)
  have du: "cs_writer (srv_sessions (deliver i m s') j) = cs_writer (srv_sessions s' j)" for j m
    by (simp add: deliver_def)
  show ?thesis
    using inv s(1,3) w u d t free assms(3,5)
    by (cases c') (auto simp: r proceed_def process_inv_def process_defs reader_ok_def du)
qed


section \<open>Every step keeps it\<close>

lemma initial_inv: "initial p \<Longrightarrow> process_inv L p"
  by (simp add: initial_def process_inv_def server_inv_def server_ok_def reader_ok_def written_ok_def)

lemma server_inv_start:
  assumes "server_inv L S R G s"
  shows "server_inv L (insert i S) (R(i := [])) (G(i := {}))
    (join i (update_session i (\<lambda>_. fresh_session memory) s))"
proof -
  have "server_ok (join i (update_session i (\<lambda>_. fresh_session memory) s))"
    using assms
    by (intro server_ok_join) (auto simp: server_inv_def server_ok_def fresh_session_def channel_room_def)
  with assms show ?thesis by (auto simp: server_inv_def fresh_session_def)
qed

lemma start_inv: "process_inv L p \<Longrightarrow> i \<notin> pr_started p \<Longrightarrow> pr_blocked p = None \<Longrightarrow> process_inv L (start i memory p)"
  using server_inv_start [of L "pr_started p" "pr_read p" "pr_log p" "pr_server p" i memory]
  by (auto simp: process_inv_def start_def process_defs reader_ok_def written_ok_def)

lemma stop_inv:
  assumes "process_inv L p" "pr_blocked p = None" "i \<in> pr_started p"
  shows "process_inv L (set_server (stop i (pr_server p)) p)"
  using assms by (auto simp: process_inv_def process_defs reader_ok_def written_ok_def)

lemma reader_ended_inv:
  "process_inv L p \<Longrightarrow> pr_blocked p = None \<Longrightarrow> process_inv L (set_reader i ReaderEnded p)"
  by (auto simp: process_inv_def process_defs reader_ok_def)

lemma reader_body_state_inv:
  "process_inv L p \<Longrightarrow> pr_blocked p = None \<Longrightarrow> i \<in> pr_started p \<Longrightarrow> process_inv L (set_reader i (ReadBody n) p)"
  by (auto simp: process_inv_def process_defs reader_ok_def)

lemma inbox_inv [simp]: "process_inv L (p\<lparr>pr_inbox := b\<rparr>) = process_inv L p"
  by (simp add: process_inv_def reader_ok_def)

lemma set_reader_inbox: "set_server s (p\<lparr>pr_inbox := b\<rparr>) = (set_server s p)\<lparr>pr_inbox := b\<rparr>"
  by (simp add: set_server_def)

lemma reader_head_inv:
  "process_inv L p \<Longrightarrow> pr_blocked p = None \<Longrightarrow> i \<in> pr_started p \<Longrightarrow> process_inv L (reader_head L i p)"
  by (auto simp: reader_head_def Let_def set_reader_inbox intro!: reader_ended_inv reader_body_state_inv
      stop_inv split: prod.split) (simp_all add: set_server_def)

lemma ghost_inv:
  assumes "process_inv L p" "\<And>j. set (pr_read p j) \<subseteq> set (R j)" "\<And>j. pr_log p j \<subseteq> G j"
  shows "process_inv L (p\<lparr>pr_read := R, pr_log := G\<rparr>)"
proof -
  have "server_inv L (pr_started p) R G (pr_server p)"
    using assms server_inv_ghost [of L "pr_started p" "pr_read p" "pr_log p" "pr_server p" R G]
    by (simp add: process_inv_def)
  moreover have "reader_ok L i (p\<lparr>pr_read := R, pr_log := G\<rparr>)" for i
    unfolding reader_ok_def
  proof (intro allI impI)
    fix msg c
    assume "pr_reader (p\<lparr>pr_read := R, pr_log := G\<rparr>) i = Handling msg c"
    then have "msg \<in> set (pr_read p i)" "guar (handler_step L i msg) (pr_log p i) c"
      using assms(1) by (auto simp: process_inv_def reader_ok_def)
    then show "msg \<in> set (pr_read (p\<lparr>pr_read := R, pr_log := G\<rparr>) i) \<and>
        guar (handler_step L i msg) (pr_log (p\<lparr>pr_read := R, pr_log := G\<rparr>) i) c"
      using assms(2) guar_mono [OF log_mono_handler _ assms(3)] by auto
  qed
  ultimately show ?thesis using assms(1) by (simp add: process_inv_def)
qed

lemma reader_body_inv:
  assumes "process_inv L p" "pr_blocked p = None" "i \<in> pr_started p"
  shows "process_inv L (reader_body L i n p)"
proof -
  let ?msg = "read_body (take (body_size n) (pr_inbox p i)) n"
  let ?R = "(pr_read p)(i := pr_read p i @ [?msg])"
  let ?p = "p\<lparr>pr_inbox := (pr_inbox p)(i := drop (body_size n) (pr_inbox p i)), pr_read := ?R\<rparr>"
  have "process_inv L (p\<lparr>pr_read := ?R, pr_log := pr_log p\<rparr>)"
    by (rule ghost_inv [OF assms(1)]) auto
  then have "process_inv L ?p" by (simp add: process_inv_def reader_ok_def)
  moreover have "guar (handler_step L i ?msg) (pr_log ?p i) (handle_message L i ?msg)"
    by (rule guar_mono [OF log_mono_handler guar_handle_message]) simp
  ultimately have "process_inv L (proceed i ?msg (settle (handle_message L i ?msg) (pr_server ?p)) ?p)"
    using assms(2,3) by (intro proceed_inv) simp_all
  then show ?thesis by (simp add: reader_body_def Let_def)
qed

lemma handling_inv:
  "process_inv L p \<Longrightarrow> pr_reader p i = Handling msg c \<Longrightarrow>
   i \<in> pr_started p \<and> msg \<in> set (pr_read p i) \<and> guar (handler_step L i msg) (pr_log p i) c"
  by (auto simp: process_inv_def reader_ok_def)

lemma redis_reply_inv:
  assumes "process_inv L p" "pr_blocked p = None" "pr_reader p i = Handling msg (RedisC q k)"
  shows "process_inv L (proceed i msg (settle (k r) (pr_server p))
    (p\<lparr>pr_log := (pr_log p)(i := insert (q, r) (pr_log p i))\<rparr>))"
proof -
  let ?G = "(pr_log p)(i := insert (q, r) (pr_log p i))"
  let ?p = "p\<lparr>pr_log := ?G\<rparr>"
  have "process_inv L (p\<lparr>pr_read := pr_read p, pr_log := ?G\<rparr>)"
    by (rule ghost_inv [OF assms(1)]) auto
  then have "process_inv L ?p" by (simp add: process_inv_def reader_ok_def)
  then have "process_inv L (proceed i msg (settle (k r) (pr_server ?p)) ?p)"
    using assms(2) handling_inv [OF assms(1,3)] by (intro proceed_inv) simp_all
  then show ?thesis by simp
qed

lemma with_session_inv:
  assumes "process_inv L p" "pr_blocked p = None" "i \<in> pr_started p"
    and "cs_uid (f (session p i)) = cs_uid (session p i)"
    and "cs_authenticated (f (session p i)) = cs_authenticated (session p i)"
    and "cs_open (f (session p i)) = cs_open (session p i)"
    and "length (cs_channel (f (session p i))) \<le> channel_room (f (session p i))"
    and "written_ok (f (session p i)) (pr_sent p i)"
  shows "process_inv L (with_session i f p)"
  using assms server_inv_update [of L "pr_started p" "pr_read p" "pr_log p" "pr_server p" f i]
  by (auto simp: process_inv_def process_defs reader_ok_def)


lemma written_open: "written_ok c ms \<Longrightarrow> cs_writer c \<noteq> WriterEnded \<Longrightarrow> \<forall>m\<in>set ms. \<not> cm_close_after_send m"
  by (cases ms rule: rev_cases) (auto simp: written_ok_def)

lemma sent_inv:
  assumes "process_inv L p" "\<forall>m\<in>set (pr_sent p i). \<not> cm_close_after_send m"
    and "cm_close_after_send out \<Longrightarrow> cs_writer (session p i) = WriterEnded"
  shows "process_inv L (p\<lparr>pr_sent := (pr_sent p)(i := pr_sent p i @ [out])\<rparr>)"
  using assms by (auto simp: process_inv_def written_ok_def reader_ok_def)

lemma sent_commute:
  "set_server s (p\<lparr>pr_sent := x\<rparr>) = (set_server s p)\<lparr>pr_sent := x\<rparr>"
  "with_session i f (p\<lparr>pr_sent := x\<rparr>) = (with_session i f p)\<lparr>pr_sent := x\<rparr>"
  by (simp_all add: set_server_def with_session_def)

lemma inv_facts:
  assumes "process_inv L p"
  shows "written_ok (session p i) (pr_sent p i)"
    and "length (cs_channel (session p i)) \<le> channel_room (session p i)"
    and "server_inv L (pr_started p) (pr_read p) (pr_log p) (pr_server p)"
  using assms by (simp_all add: process_inv_def server_inv_def server_ok_def)

lemma started_if:
  assumes "process_inv L p"
  shows "pr_reader p i = r \<Longrightarrow> r \<noteq> ReaderEnded \<Longrightarrow> i \<in> pr_started p"
    and "cs_writer (session p i) = w \<Longrightarrow> w \<noteq> WriterEnded \<Longrightarrow> i \<in> pr_started p"
  using assms unfolding process_inv_def by blast+

lemma writer_idle_inv:
  assumes "process_inv L p" "pr_blocked p = None" "cs_writer (session p i) = Writing out" "w \<noteq> Writing out"
  shows "process_inv L (with_session i (\<lambda>c. c\<lparr>cs_writer := w\<rparr>) p)"
proof (rule with_session_inv [OF assms(1,2)])
  show "i \<in> pr_started p" using started_if(2) [OF assms(1,3)] by simp
  have "length (cs_channel (session p i)) \<le> channel_size"
    using inv_facts(2) [OF assms(1), of i] assms(3) by (simp add: channel_room_def)
  then show "length (cs_channel (session p i\<lparr>cs_writer := w\<rparr>)) \<le> channel_room (session p i\<lparr>cs_writer := w\<rparr>)"
    by (auto simp: channel_room_def split: writer_state.split)
  show "written_ok (session p i\<lparr>cs_writer := w\<rparr>) (pr_sent p i)"
    using written_open [OF inv_facts(1) [OF assms(1)], of i] assms(3)
    by (auto simp: written_ok_def dest: in_set_butlastD)
qed simp_all

lemma writer_failed_inv:
  assumes "process_inv L p" "pr_blocked p = None" "cs_writer (session p i) = Writing out"
  shows "process_inv L (writer_failed i p)"
proof -
  have "process_inv L (set_server (stop i (pr_server p)) p)"
    using assms started_if(2) [OF assms(1,3)] by (intro stop_inv) simp_all
  from writer_idle_inv [OF this, of i out WriterEnded] show ?thesis
    using assms by (simp add: writer_failed_def set_server_def)
qed

lemma writer_written_inv:
  assumes "process_inv L p" "pr_blocked p = None" "cs_writer (session p i) = Writing out"
  shows "process_inv L (writer_written i out p)"
proof -
  have open_so_far: "\<forall>m\<in>set (pr_sent p i). \<not> cm_close_after_send m"
    using written_open [OF inv_facts(1) [OF assms(1)], of i] assms(3) by simp
  show ?thesis
  proof (cases "cm_close_after_send out")
    case True
    have "process_inv L (writer_failed i p)" by (rule writer_failed_inv [OF assms])
    from sent_inv [OF this, of i out] True open_so_far show ?thesis
      by (simp add: writer_written_def writer_failed_def Let_def sent_commute)
        (simp add: set_server_def with_session_def)
  next
    case False
    have "process_inv L (with_session i (\<lambda>c. c\<lparr>cs_writer := WaitReceive\<rparr>) p)"
      by (rule writer_idle_inv [OF assms]) simp
    from sent_inv [OF this, of i out] False open_so_far show ?thesis
      by (simp add: writer_written_def Let_def sent_commute) (simp add: with_session_def set_server_def)
  qed
qed

lemma deliver_inv: "process_inv L p \<Longrightarrow> process_inv L (set_server (deliver i m (pr_server p)) p)"
  using written_ok_same_io [OF same_io_steps(1) [of "pr_server p" i m]]
  by (simp add: process_inv_def set_server_def reader_ok_def) (simp add: deliver_def)

lemma notify_inv: "process_inv L p \<Longrightarrow> process_inv L (set_server (snd (chat_service L q (pr_server p))) p)"
  using chat_service_step [of L q "pr_server p", OF prod.collapse [symmetric]] deliver_inv
  unfolding notified_def by (metis chat_process.surjective chat_process.update_convs(1) set_server_def)

lemma take_inv:
  assumes inv: "process_inv L p" and free: "pr_blocked p = None" "i \<in> pr_started p"
    and w: "cs_writer (session p i) = WaitReceive"
    and r: "channel_receive (session p i) = Some (out, c')"
  shows "process_inv L (with_session i (\<lambda>_. c') p)"
proof (rule with_session_inv [OF inv free])
  have c': "c' = (session p i)\<lparr>cs_channel := tl (cs_channel (session p i)), cs_writer := Writing out\<rparr>"
    using r by (auto simp: channel_receive_def split: list.splits)
  show "cs_uid c' = cs_uid (session p i)" "cs_authenticated c' = cs_authenticated (session p i)"
    "cs_open c' = cs_open (session p i)"
    by (simp_all add: c')
  show "length (cs_channel c') \<le> channel_room c'"
    using inv_facts(2) [OF inv, of i] by (simp add: c' w channel_room_def)
  show "written_ok c' (pr_sent p i)"
    using written_open [OF inv_facts(1) [OF inv], of i]
    by (auto simp: c' w written_ok_def dest: in_set_butlastD)
qed

lemma step_inv:
  assumes "process_inv L p" "session_step L p q"
  shows "process_inv L q"
  using assms(2)
proof cases
  case (accept i memory)
  then show ?thesis by (simp add: start_inv [OF assms(1)])
next
  case (arrive i bytes)
  then show ?thesis using assms(1) by simp
next
  case (read_head i)
  then show ?thesis by (simp add: reader_head_inv [OF assms(1)] started_if(1) [OF assms(1) read_head(3)])
next
  case (read_body i n)
  then show ?thesis by (simp add: reader_body_inv [OF assms(1)] started_if(1) [OF assms(1) read_body(3)])
next
  case (read_error i n)
  then have "i \<in> pr_started p" using started_if(1) [OF assms(1)] by blast
  with read_error show ?thesis
    using reader_ended_inv [OF stop_inv [OF assms(1)]] by (simp add: reader_failed_def set_server_def)
next
  case (redis_reply i msg q' k r)
  then show ?thesis using redis_reply_inv [OF assms(1)] by simp
next
  case (sql_reply i msg st k rs)
  then show ?thesis using handling_inv [OF assms(1) sql_reply(3)] by (simp add: proceed_inv [OF assms(1)])
next
  case (rpc_reply i msg c k rr)
  then show ?thesis using handling_inv [OF assms(1) rpc_reply(3)] by (simp add: proceed_inv [OF assms(1)])
next
  case (uuid_reply i msg k u)
  then show ?thesis using handling_inv [OF assms(1) uuid_reply(3)] by (simp add: proceed_inv [OF assms(1)])
next
  case (write_take i out c')
  then show ?thesis using take_inv [OF assms(1)] by simp
next
  case (write_done i out)
  then show ?thesis using writer_written_inv [OF assms(1)] by simp
next
  case (write_error i out)
  then show ?thesis using writer_failed_inv [OF assms(1)] by simp
next
  case (deadline i)
  have facts: "written_ok (session p i) (pr_sent p i)" "length (cs_channel (session p i)) \<le> channel_room (session p i)"
    by (rule inv_facts [OF assms(1)])+
  have "process_inv L (with_session i (\<lambda>c. c\<lparr>cs_deadline := False\<rparr>) p)"
    using facts deadline by (intro with_session_inv [OF assms(1)]) (simp_all add: written_ok_def)
  then show ?thesis using stop_inv [OF assms(1)] deadline by (simp add: check_login_deadline_def)
next
  case (notify q')
  then show ?thesis using notify_inv [OF assms(1)] by simp
qed

lemma reachable_inv: "reachable L p \<Longrightarrow> process_inv L p"
  by (induction rule: reachable.induct) (auto intro: initial_inv step_inv)

section \<open>Runs are steps\<close>

text \<open>Services that answer and leave the state of the server alone.\<close>

definition stateless :: "'s environment \<Rightarrow> bool" where
  "stateless env \<longleftrightarrow> (\<forall>q s. snd (on_redis env q s) = s) \<and> (\<forall>q s. snd (on_sql env q s) = s) \<and>
     (\<forall>q s. snd (on_rpc env q s) = s) \<and> (\<forall>s. snd (on_uuid env s) = s)"

lemma run_stateless:
  assumes "stateless env"
  shows "run env (RedisC c k) s = run env (k (fst (on_redis env c s))) s"
    "run env (SqlC st k1) s = run env (k1 (fst (on_sql env st s))) s"
    "run env (RpcC rq k2) s = run env (k2 (fst (on_rpc env rq s))) s"
    "run env (UuidC k3) s = run env (k3 (fst (on_uuid env s))) s"
  using assms by (simp_all add: stateless_def case_prod_beta)

text \<open>The process when the handler of session \<open>i\<close> has returned \<open>m\<close> in state \<open>t\<close>.\<close>

definition replied :: "nat \<Rightarrow> channel_message \<Rightarrow> chat_server \<Rightarrow> redis_log \<Rightarrow> chat_process \<Rightarrow> chat_process" where
  "replied i m t g p = set_reader i ReadHeader (set_server (deliver i m t)
     (p\<lparr>pr_blocked := None, pr_log := (pr_log p)(i := g)\<rparr>))"

lemma replied_over:
  "replied i m t g (set_reader i r (set_server s (p\<lparr>pr_blocked := b\<rparr>))) = replied i m t g p"
  "replied i m t g (set_reader i r (set_server s (p\<lparr>pr_blocked := b\<rparr>))\<lparr>pr_log := (pr_log p)(i := h)\<rparr>) = replied i m t g p"
  by (simp_all add: replied_def set_reader_def set_server_def)

lemma proceed_call:
  "proceed i msg (s, RedisC c k) p = set_reader i (Handling msg (RedisC c k)) (set_server s (p\<lparr>pr_blocked := None\<rparr>))"
  "proceed i msg (s, SqlC st k1) p = set_reader i (Handling msg (SqlC st k1)) (set_server s (p\<lparr>pr_blocked := None\<rparr>))"
  "proceed i msg (s, RpcC rq k2) p = set_reader i (Handling msg (RpcC rq k2)) (set_server s (p\<lparr>pr_blocked := Some i\<rparr>))"
  "proceed i msg (s, UuidC k3) p = set_reader i (Handling msg (UuidC k3)) (set_server s (p\<lparr>pr_blocked := None\<rparr>))"
  by (simp_all add: proceed_def)

lemma waiting_simps:
  "pr_reader (set_reader i r p) i = r" "pr_server (set_reader i r p) = pr_server p" "pr_blocked (set_reader i r p) = pr_blocked p"
  "pr_server (set_server s p) = s" "pr_blocked (set_server s p) = pr_blocked p"
  "pr_log (set_reader i r p) = pr_log p" "pr_log (set_server s p) = pr_log p"
  by (simp_all add: set_reader_def set_server_def)

text \<open>The Redis commands a run issues, with their answers.\<close>

primrec redis_trace :: "'s environment \<Rightarrow> ('s, 'a) cor \<Rightarrow> 's \<Rightarrow> redis_log" where
  "redis_trace env (Done x) = (\<lambda>s. {})"
| "redis_trace env (Throw e) = (\<lambda>s. {})"
| "redis_trace env (RedisC q k) = (\<lambda>s. case on_redis env q s of (r, s') \<Rightarrow> insert (q, r) (redis_trace env (k r) s'))"
| "redis_trace env (SqlC q k) = (\<lambda>s. case on_sql env q s of (r, s') \<Rightarrow> redis_trace env (k r) s')"
| "redis_trace env (RpcC q k) = (\<lambda>s. case on_rpc env q s of (r, s') \<Rightarrow> redis_trace env (k r) s')"
| "redis_trace env (UuidC k) = (\<lambda>s. case on_uuid env s of (u, s') \<Rightarrow> redis_trace env (k u) s')"
| "redis_trace env (Get k) = (\<lambda>s. redis_trace env (k s) s)"
| "redis_trace env (Upd g k) = (\<lambda>s. redis_trace env (k s) (g s))"

lemma trace_bind:
  "redis_trace env (bind m f) s = redis_trace env m s \<union>
     (case run env m s of (Inl e, s') \<Rightarrow> {} | (Inr x, s') \<Rightarrow> redis_trace env (f x) s')"
  by (induction m arbitrary: s) (auto split: prod.splits)

lemma trace_catch: "redis_trace env m s \<subseteq> redis_trace env (catch m h) s"
  by (induction m arbitrary: s) (auto split: prod.splits)

lemma run_is_steps:
  assumes "stateless env" "run env c s = (Inr m, t)"
  shows "\<exists>g. (session_step L)\<^sup>*\<^sup>* (proceed i msg (settle c s) p) (replied i m t g p) \<and>
    pr_log p i \<union> redis_trace env c s \<subseteq> g"
  using assms(2)
proof (induction c arbitrary: s p)
  case (Done x)
  then show ?case
    by (intro exI [of _ "pr_log p i"]) (simp add: proceed_def replied_def)
next
  case (RedisC q k)
  let ?r = "fst (on_redis env q s)"
  let ?p = "proceed i msg (s, RedisC q k) p"
  let ?q = "?p\<lparr>pr_log := (pr_log ?p)(i := insert (q, ?r) (pr_log ?p i))\<rparr>"
  have "session_step L ?p (proceed i msg (settle (k ?r) (pr_server ?p)) ?q)"
    by (rule redis_reply) (simp_all add: proceed_call waiting_simps)
  moreover obtain g where "(session_step L)\<^sup>*\<^sup>* (proceed i msg (settle (k ?r) s) ?q) (replied i m t g ?q)"
      "pr_log ?q i \<union> redis_trace env (k ?r) s \<subseteq> g"
    using RedisC.IH [OF RedisC.prems [unfolded run_stateless(1) [OF assms(1)]], of ?q] by blast
  ultimately show ?case
    by (intro exI [of _ g])
      (simp add: proceed_call waiting_simps replied_over converse_rtranclp_into_rtranclp case_prod_beta assms(1) [unfolded stateless_def])
next
  case (SqlC q k)
  let ?r = "fst (on_sql env q s)"
  let ?p = "proceed i msg (s, SqlC q k) p"
  have "session_step L ?p (proceed i msg (settle (k ?r) (pr_server ?p)) ?p)"
    by (rule sql_reply) (simp_all add: proceed_call waiting_simps)
  moreover obtain g where "(session_step L)\<^sup>*\<^sup>* (proceed i msg (settle (k ?r) s) ?p) (replied i m t g ?p)"
      "pr_log ?p i \<union> redis_trace env (k ?r) s \<subseteq> g"
    using SqlC.IH [OF SqlC.prems [unfolded run_stateless(2) [OF assms(1)]], of ?p] by blast
  ultimately show ?case
    by (intro exI [of _ g])
      (simp add: proceed_call waiting_simps replied_over converse_rtranclp_into_rtranclp case_prod_beta assms(1) [unfolded stateless_def])
next
  case (RpcC q k)
  let ?r = "fst (on_rpc env q s)"
  let ?p = "proceed i msg (s, RpcC q k) p"
  have "session_step L ?p (proceed i msg (settle (k ?r) (pr_server ?p)) ?p)"
    by (rule rpc_reply) (simp_all add: proceed_call waiting_simps)
  moreover obtain g where "(session_step L)\<^sup>*\<^sup>* (proceed i msg (settle (k ?r) s) ?p) (replied i m t g ?p)"
      "pr_log ?p i \<union> redis_trace env (k ?r) s \<subseteq> g"
    using RpcC.IH [OF RpcC.prems [unfolded run_stateless(3) [OF assms(1)]], of ?p] by blast
  ultimately show ?case
    by (intro exI [of _ g])
      (simp add: proceed_call waiting_simps replied_over converse_rtranclp_into_rtranclp case_prod_beta assms(1) [unfolded stateless_def])
next
  case (UuidC k)
  let ?r = "fst (on_uuid env s)"
  let ?p = "proceed i msg (s, UuidC k) p"
  have "session_step L ?p (proceed i msg (settle (k ?r) (pr_server ?p)) ?p)"
    by (rule uuid_reply) (simp_all add: proceed_call waiting_simps)
  moreover obtain g where "(session_step L)\<^sup>*\<^sup>* (proceed i msg (settle (k ?r) s) ?p) (replied i m t g ?p)"
      "pr_log ?p i \<union> redis_trace env (k ?r) s \<subseteq> g"
    using UuidC.IH [OF UuidC.prems [unfolded run_stateless(4) [OF assms(1)]], of ?p] by blast
  ultimately show ?case
    by (intro exI [of _ g])
      (simp add: proceed_call waiting_simps replied_over converse_rtranclp_into_rtranclp case_prod_beta assms(1) [unfolded stateless_def])
qed simp_all

section \<open>A frame is read\<close>

text \<open>A step of a process whose thread is not blocked.\<close>

definition free_step :: "libs \<Rightarrow> chat_process \<Rightarrow> chat_process \<Rightarrow> bool" where
  "free_step L p q \<longleftrightarrow> pr_blocked p = None \<and> session_step L p q"

lemma free_steps: "(free_step L)\<^sup>*\<^sup>* p q \<Longrightarrow> (session_step L)\<^sup>*\<^sup>* p q"
  by (erule rtranclp_mono [THEN predicate2D, rotated]) (auto simp: free_step_def)

lemma read_frame_Frame:
  assumes "read_frame P bs = Frame msg rest"
  shows "\<exists>n. PREFIX_LEN \<le> length bs \<and> read_prefix P (take PREFIX_LEN bs) = (True, n) \<and>
    body_size n \<le> length (drop PREFIX_LEN bs) \<and> msg = read_body (take (body_size n) (drop PREFIX_LEN bs)) n \<and>
    rest = drop (body_size n) (drop PREFIX_LEN bs)"
  using assms by (auto simp: read_frame_def Let_def split: if_splits prod.splits)

lemma frame_is_read:
  assumes "pr_blocked p = None" "pr_reader p i = ReadHeader" "cs_open (session p i)"
    and "read_frame (lb_platform L) (pr_inbox p i) = Frame msg rest"
  shows "\<exists>q. (free_step L)\<^sup>*\<^sup>* p (proceed i msg (settle (handle_message L i msg) (pr_server p)) q) \<and>
    pr_sent q = pr_sent p \<and> pr_started q = pr_started p \<and> pr_read q = (pr_read p)(i := pr_read p i @ [msg]) \<and>
    pr_inbox q i = rest"
proof -
  obtain n where n: "PREFIX_LEN \<le> length (pr_inbox p i)" "read_prefix (lb_platform L) (take PREFIX_LEN (pr_inbox p i)) = (True, n)"
    "body_size n \<le> length (drop PREFIX_LEN (pr_inbox p i))" "msg = read_body (take (body_size n) (drop PREFIX_LEN (pr_inbox p i))) n"
    "rest = drop (body_size n) (drop PREFIX_LEN (pr_inbox p i))"
    using read_frame_Frame [OF assms(4)] by blast
  let ?p = "set_reader i (ReadBody n) (p\<lparr>pr_inbox := (pr_inbox p)(i := drop PREFIX_LEN (pr_inbox p i))\<rparr>)"
  have "free_step L p ?p"
    using read_head [OF assms(1-3) n(1), of L] n(2) assms(1) by (simp add: reader_head_def free_step_def)
  moreover have "session_step L ?p (reader_body L i n ?p)"
    by (rule session_step.read_body) (use assms(1,3) n(3) in \<open>simp_all add: set_reader_def\<close>)
  then have "free_step L ?p (reader_body L i n ?p)"
    using assms(1) by (simp add: free_step_def set_reader_def)
  moreover have "reader_body L i n ?p = proceed i msg (settle (handle_message L i msg) (pr_server p))
      (?p\<lparr>pr_inbox := (pr_inbox ?p)(i := drop (body_size n) (pr_inbox ?p i)), pr_read := (pr_read ?p)(i := pr_read ?p i @ [msg])\<rparr>)"
    (is "_ = proceed i msg _ ?q")
    by (simp add: reader_body_def Let_def n(4)) (simp add: set_reader_def)
  moreover have "pr_sent ?q = pr_sent p \<and> pr_started ?q = pr_started p \<and> pr_read ?q = (pr_read p)(i := pr_read p i @ [msg]) \<and>
      pr_inbox ?q i = rest"
    by (simp add: set_reader_def n(5))
  ultimately show ?thesis
    by (intro exI [of _ ?q]) (simp add: converse_rtranclp_into_rtranclp)
qed

text \<open>A frame that arrives is handled, and its reply delivered, by steps of its own.\<close>

lemma steps_reachable: "(session_step L)\<^sup>*\<^sup>* p q \<Longrightarrow> reachable L p \<Longrightarrow> reachable L q"
  by (induction rule: rtranclp_induct) (auto intro: reach_step)

lemma frame_starts_handler:
  assumes "platform_ok (lb_platform L)" "reachable L p" "pr_blocked p = None"
    and "pr_reader p i = ReadHeader" "cs_open (session p i)" "pr_inbox p i = []" "length b \<le> MAX_LENGTH"
  shows "\<exists>p'. reachable L (proceed i (frame_node rid b)
      (settle (handle_message L i (frame_node rid b)) (pr_server p)) p') \<and>
    pr_sent p' = pr_sent p \<and> pr_inbox p' i = []"
proof -
  let ?msg = "frame_node rid b"
  let ?p = "p\<lparr>pr_inbox := (pr_inbox p)(i := pr_inbox p i @ wire ?msg)\<rparr>"
  have started: "i \<in> pr_started p" using started_if(1) [OF reachable_inv [OF assms(2)] assms(4)] by simp
  have "read_frame (lb_platform L) (pr_inbox ?p i) = Frame ?msg []"
    using read_frame_wire [OF assms(1,7), of rid "[]"] assms(6) by simp
  then obtain q where q: "(session_step L)\<^sup>*\<^sup>* ?p (proceed i ?msg (settle (handle_message L i ?msg) (pr_server p)) q)"
    "pr_sent q = pr_sent p" "pr_inbox q i = []"
    using frame_is_read [of ?p i L ?msg "[]"] assms(3-5) free_steps by fastforce
  from steps_reachable [OF q(1) reach_step [OF assms(2) arrive [OF started]]] q(2,3)
  show ?thesis by blast
qed

lemma frame_is_handled:
  assumes "stateless env" "platform_ok (lb_platform L)" "reachable L p" "pr_blocked p = None"
    and "pr_reader p i = ReadHeader" "cs_open (session p i)" "pr_inbox p i = []" "length b \<le> MAX_LENGTH"
    and "run env (handle_message L i (frame_node rid b)) (pr_server p) = (Inr m, t)"
  shows "\<exists>q. reachable L q \<and> pr_server q = deliver i m t \<and> pr_reader q i = ReadHeader \<and>
    pr_blocked q = None \<and> pr_sent q = pr_sent p \<and> pr_inbox q i = []"
proof -
  let ?msg = "frame_node rid b"
  obtain q where q: "reachable L (proceed i ?msg (settle (handle_message L i ?msg) (pr_server p)) q)"
    "pr_sent q = pr_sent p" "pr_inbox q i = []"
    using frame_starts_handler [OF assms(2-8), of rid] by blast
  obtain g where "(session_step L)\<^sup>*\<^sup>* (proceed i ?msg (settle (handle_message L i ?msg) (pr_server p)) q) (replied i m t g q)"
    using run_is_steps [OF assms(1,9)] by blast
  from steps_reachable [OF this q(1)] q(2,3) show ?thesis
    by (intro exI [of _ "replied i m t g q"]) (simp add: replied_def set_reader_def set_server_def)
qed

end
