(* ===== verification/Replies.thy ===== *)
theory Replies
  imports ChatHandlers
begin

text \<open>
  What the messages built by the handlers look like to the client that receives them: error
  envelopes and notifications, from the JSON value to the frame and back.
\<close>

section \<open>JSON of the classes is read back\<close>

lemma libs_okD:
  assumes "libs_ok L"
  shows "json_lib_ok (lb_json L)" "enum_lib_ok (lb_enum L)" "platform_ok (lb_platform L)"
    "bj_parse_user L (bj_serialize_user L u) = Some u"
  using assms by (simp_all add: libs_ok_def)

lemma text_chat_data_roundtrip:
  "json_lib_ok J \<Longrightarrow> text_chat_data_from_json J (json_norm (text_chat_data_to_json d)) = Some d"
  by (simp add: text_chat_data_from_json_def text_chat_data_to_json_def field_i64_def field_string_def
      json_at_norm)

lemma text_chat_msg_roundtrip:
  "json_lib_ok J \<Longrightarrow> text_chat_msg_from_json J (json_norm (text_chat_msg_to_json m)) = Some m"
  by (simp add: text_chat_msg_from_json_def text_chat_msg_to_json_def field_i64_def field_list_def
      json_at_norm text_chat_data_roundtrip comp_def all_some_map_Some [where g = id, unfolded id_def])

lemma user_detail_roundtrip:
  "json_lib_ok J \<Longrightarrow> user_detail_from_json J (json_norm (user_detail_to_json u)) = Some u"
  by (simp add: user_detail_from_json_def user_detail_to_json_def field_i64_def field_string_def
      json_at_norm)

lemma friend_info_roundtrip:
  "json_lib_ok J \<Longrightarrow> friend_info_from_json J (json_norm (friend_info_to_json i)) = Some i"
  by (simp add: friend_info_from_json_def friend_info_to_json_def user_detail_from_json_def
      user_detail_to_json_def field_i64_def field_string_def json_at_norm)

lemma friend_apply_info_roundtrip:
  "json_lib_ok J \<Longrightarrow> friend_apply_info_from_json J (json_norm (friend_apply_info_to_json i)) = Some i"
  by (simp add: friend_apply_info_from_json_def friend_apply_info_to_json_def user_detail_from_json_def
      user_detail_to_json_def field_i64_def field_i32_def field_string_def json_at_norm)

lemma json_ok_messages [simp]:
  "json_ok (text_chat_data_to_json d)" "json_ok (text_chat_msg_to_json m)"
  "json_ok (notify_add_friend_msg_to_json a)" "json_ok (notify_auth_friend_msg_to_json b)"
  "json_ok (user_detail_to_json u)" "json_ok (friend_info_to_json f)"
  "json_ok (friend_apply_info_to_json g)" "json_ok (user_login_response_to_json r)"
  by (simp_all add: text_chat_data_to_json_def text_chat_msg_to_json_def
      notify_add_friend_msg_to_json_def notify_auth_friend_msg_to_json_def user_detail_to_json_def
      friend_info_to_json_def friend_apply_info_to_json_def user_login_response_to_json_def
      list.pred_map comp_def list.pred_True)

section \<open>Messages on the wire\<close>

text \<open>The message is a frame whose body is the text of this value, complete and readable.\<close>

definition carries :: "libs \<Rightarrow> channel_message \<Rightarrow> u32 \<Rightarrow> json \<Rightarrow> bool" where
  "carries L m rid j \<longleftrightarrow>
     (\<exists>b. dump (lb_json L) j = Some b \<and> cm_msg m = frame_node rid b \<and> length b \<le> MAX_LENGTH \<and>
        node_body (cm_msg m) = b \<and> parse (lb_json L) b = Some (json_norm j))"

lemma node_of_json_carries:
  assumes "libs_ok L" "json_ok j" "dump (lb_json L) j = Some b" "length b \<le> MAX_LENGTH"
  shows "\<exists>n. node_of_json L rid j = Inr n \<and> carries L \<lparr>cm_msg = n, cm_close_after_send = c\<rparr> rid j"
proof -
  have z: "CHR 0x00 \<notin> set b"
    using json_lib_okD(2) [OF libs_okD(1) [OF assms(1)] assms(3)] .
  then have "strlen b = length b" by (simp add: strlen_def takeWhile_all)
  then have "mk_node (lb_platform L) rid (Some b) = frame_node rid b"
    using mk_node_fits [OF libs_okD(3) [OF assms(1)]] assms(4) z by (simp add: takeWhile_all)
  then show ?thesis
    using assms json_lib_okD(1) [OF libs_okD(1) [OF assms(1)]] node_body_frame [OF z]
    by (simp add: node_of_json_def dump_text_def carries_def)
qed

text \<open>What the client reads off the stream for such a message.\<close>

lemma carries_wire:
  assumes "libs_ok L" "carries L m rid j"
  shows "\<exists>n. read_frame (lb_platform L) (wire (cm_msg m) @ rest) = Frame n rest \<and> mn_id n = rid \<and>
    parse (lb_json L) (node_body n) = Some (json_norm j)"
proof -
  from assms(2) obtain b where b: "cm_msg m = frame_node rid b" "length b \<le> MAX_LENGTH"
    "parse (lb_json L) (node_body (cm_msg m)) = Some (json_norm j)"
    by (auto simp: carries_def)
  then show ?thesis using read_frame_wire [OF libs_okD(3) [OF assms(1)] b(2)] by simp
qed

section \<open>Error envelopes\<close>

lemma length_error_ident: "length (error_ident e) \<le> 18"
  by (cases e) simp_all

lemma length_name: "enum_lib_ok E \<Longrightarrow> length (name_server_error E e) \<le> 18"
  using length_error_ident [of e] by (simp add: enum_lib_ok_def)

lemma error_json_props:
  assumes "libs_ok L"
  shows "json_ok (error_json L e JNull)" "ascii_json (error_json L e JNull)"
    "dump_bound (error_json L e JNull) \<le> MAX_LENGTH"
    "json_norm (error_json L e JNull) = error_json L e JNull"
proof -
  have "unat (error_code e) < 2 ^ 64" by (cases e) simp_all
  then show "json_ok (error_json L e JNull)" by (simp add: error_json_def)
  show "ascii_json (error_json L e JNull)"
    using ascii_name [OF libs_okD(2) [OF assms]] by (simp add: error_json_def ascii_def)
  show "dump_bound (error_json L e JNull) \<le> MAX_LENGTH"
    using length_name [OF libs_okD(2) [OF assms], of e]
    by (simp add: error_json_def json_set.simps MAX_LENGTH_def)
  show "json_norm (error_json L e JNull) = error_json L e JNull"
    by (simp add: error_json_def json_set.simps)
qed

text \<open>Every error reply fits a frame and reaches the client as the pair of code and name.\<close>

lemma error_response_carries:
  assumes "libs_ok L"
  shows "\<exists>m. error_response L rid e = Inr m \<and> carries L m rid (error_json L e JNull) \<and> \<not> cm_close_after_send m"
proof -
  obtain b where b: "dump (lb_json L) (error_json L e JNull) = Some b"
    using json_lib_okD(3) [OF libs_okD(1) [OF assms] error_json_props(2) [OF assms]] by blast
  have "length b \<le> MAX_LENGTH"
    using json_lib_okD(4) [OF libs_okD(1) [OF assms] error_json_props(1) [OF assms] b]
      error_json_props(3) [OF assms, of e] by simp
  from node_of_json_carries [OF assms error_json_props(1) [OF assms] b this, of rid False]
  show ?thesis by (auto simp: error_response_def channel_of_def)
qed

lemma message_response_eq: "message_response L rid = error_response L rid Success"
  by (simp add: message_response_def error_response_def)

lemma error_and_close_carries:
  assumes "libs_ok L"
  shows "\<exists>m. error_response_and_close L rid e = Inr m \<and> carries L m rid (error_json L e JNull) \<and>
    cm_close_after_send m"
proof -
  obtain m where "error_response L rid e = Inr m" "carries L m rid (error_json L e JNull)"
    using error_response_carries [OF assms] by blast
  then have "error_response_and_close L rid e = Inr (m\<lparr>cm_close_after_send := True\<rparr>)"
    "carries L (m\<lparr>cm_close_after_send := True\<rparr>) rid (error_json L e JNull)"
    by (simp_all add: error_response_and_close_def carries_def)
  then show ?thesis by auto
qed

end
