(* ===== verification/World.thy ===== *)
theory World
  imports Replies
begin

text \<open>
  A chat server together with the keys of Redis and the tables of MySQL, for statements about what
  a handler does to all three, and what the handlers reply when the services do as documented.
\<close>

record world = chat_server +
  w_keys :: "string \<Rightarrow> string option"
  w_db :: db

text \<open>
  Redis serves its keys, MySQL executes the statements, and neither touches anything else; a reply
  of the peer chat server is not constrained, but its notification does not change this world.
\<close>

fun peer_call :: "rpc_call \<Rightarrow> bool" where
  "peer_call (CallNotifyAddFriend q) = True"
| "peer_call (CallNotifyAuthFriend q) = True"
| "peer_call (CallNotifyTextChatMsg q) = True"
| "peer_call _ = False"

definition services :: "dialect \<Rightarrow> world environment \<Rightarrow> bool" where
  "services D env \<longleftrightarrow>
     keeps_keys w_keys env \<and>
     (\<forall>q s. \<exists>k. snd (on_redis env q s) = s\<lparr>w_keys := k\<rparr>) \<and>
     (\<forall>k m s. w_keys (snd (on_redis env (R_HSET k m) s)) = w_keys s) \<and>
     serves_tables D w_db (\<lambda>d s. s\<lparr>w_db := d\<rparr>) env \<and>
     (\<forall>q s. peer_call q \<longrightarrow> snd (on_rpc env q s) = s)"

lemma servicesD:
  assumes "services D env"
  shows "keeps_keys w_keys env" "serves_tables D w_db (\<lambda>d s. s\<lparr>w_db := d\<rparr>) env"
    "peer_call q \<Longrightarrow> snd (on_rpc env q s) = s"
  using assms by (simp_all add: services_def)

lemma world_redis:
  assumes "services D env"
  shows "w_keys (snd (on_redis env q s)) = k \<Longrightarrow> snd (on_redis env q s) = s\<lparr>w_keys := k\<rparr>"
  using assms unfolding services_def by (metis world.select_convs(1) world.surjective world.update_convs(1))

lemma run_get:
  "services D env \<Longrightarrow> run env (redis_get k) s = (Inr (w_keys s k), s)"
  by (rule run_redis_get [OF servicesD(1)])

lemma run_set:
  "services D env \<Longrightarrow> run env (redis_set k v) s = (Inr True, s\<lparr>w_keys := (w_keys s)(k \<mapsto> v)\<rparr>)"
  using world_redis [of D env "R_SET k v" s "(w_keys s)(k \<mapsto> v)"] servicesD(1) [of D env]
  by (simp add: redis_set_def keeps_keys_def case_prod_beta)

lemma run_hset:
  "services D env \<Longrightarrow> \<exists>n. run env (redis_hset k m) s = (Inr n, s)"
  using world_redis [of D env "R_HSET k m" s "w_keys s"]
  by (simp add: redis_hset_def services_def case_prod_beta)

section \<open>Rows read back from the tables\<close>

definition fits_i64 :: "int \<Rightarrow> bool" where
  "fits_i64 x \<longleftrightarrow> - (2 ^ 63) \<le> x \<and> x < 2 ^ 63"

definition user_info_of :: "db_user \<Rightarrow> user_info" where
  "user_info_of u = \<lparr>ui_id = word_of_int (u_id u), ui_name = u_name u, ui_email = u_email u, ui_pwd = u_pwd u\<rparr>"

lemma user_row [simp]: "user_info_of_row (user_columns u) = Some (user_info_of u)"
  by (simp add: user_info_of_row_def user_columns_def user_info_of_def)

definition user_by_id :: "db \<Rightarrow> i64 \<Rightarrow> user_info option" where
  "user_by_id d uid = map_option user_info_of (List.find (\<lambda>u. u_id u = sint uid) (db_users d))"

definition user_by_name :: "dialect \<Rightarrow> db \<Rightarrow> string \<Rightarrow> user_info option" where
  "user_by_name D d n = map_option user_info_of (List.find (\<lambda>u. same_text D (u_name u) n) (db_users d))"

lemma first_user_map: "first_user (map user_info_of (filter P us)) = map_option user_info_of (List.find P us)"
  by (induction us) (auto simp: first_user_def)

lemma put_same [simp]: "(s :: world)\<lparr>w_db := w_db s\<rparr> = s"
  by simp

lemma run_select_users:
  assumes "services D env" "exec_stmt D st (w_db s) = (Inr [rows_of (map user_columns us)], w_db s)"
  shows "run env (sql_select st user_info_of_row) s = (Inr (map user_info_of us), s)"
  using assms(2) run_sql_execute [OF servicesD(2) [OF assms(1)], of st 1 s]
    run_sql_connect [OF servicesD(2) [OF assms(1)], of s]
  by (simp add: sql_select_def cor_simps typed_rows_def rows_of_def comp_def all_some_map_Some [where g = user_info_of])

lemma run_get_user_info:
  "services D env \<Longrightarrow> run env (get_user_info uid) s = (Inr (user_by_id (w_db s) uid), s)"
  using run_select_users [of D env "SelectUserById uid" s "filter (\<lambda>u. u_id u = sint uid) (db_users (w_db s))"]
  by (simp add: get_user_info_def cor_simps first_user_map user_by_id_def)

lemma run_get_user_info_by_name:
  "services D env \<Longrightarrow> run env (get_user_info_by_name n) s = (Inr (user_by_name D (w_db s) n), s)"
  using run_select_users [of D env "SelectUserByName n" s "filter (\<lambda>u. same_text D (u_name u) n) (db_users (w_db s))"]
  by (simp add: get_user_info_by_name_def cor_simps first_user_map user_by_name_def)

definition applies_of :: "db \<Rightarrow> i64 \<Rightarrow> friend_apply_info list" where
  "applies_of d uid =
     [\<lparr>fai_status = word_of_int (a_status a),
       fai_user_detail = \<lparr>ud_id = word_of_int (a_from_uid a), ud_name = u_name u\<rparr>\<rparr>.
       a \<leftarrow> db_applies d, a_to_uid a = sint uid, u \<leftarrow> db_users d, u_id u = a_from_uid a]"

definition friends_of :: "db \<Rightarrow> i64 \<Rightarrow> friend_info list" where
  "friends_of d uid =
     [\<lparr>fi_back = (case f_back f of Some b \<Rightarrow> b | None \<Rightarrow> []),
       fi_user_detail = \<lparr>ud_id = word_of_int (f_friend_id f), ud_name = u_name u\<rparr>\<rparr>.
       f \<leftarrow> db_friends d, f_self_id f = sint uid, u \<leftarrow> db_users d, u_id u = f_friend_id f]"

lemma run_typed_rows:
  assumes "services D env" "exec_stmt D st (w_db s) = (Inr [rows_of rs], w_db s)"
    and "all_some (map f rs) = Some xs"
  shows "run env (sql_select st f) s = (Inr xs, s)"
  using assms(2,3) run_sql_execute [OF servicesD(2) [OF assms(1)], of st 1 s]
    run_sql_connect [OF servicesD(2) [OF assms(1)], of s]
  by (simp add: sql_select_def cor_simps typed_rows_def rows_of_def)

lemma all_some_append: "all_some xs = Some us \<Longrightarrow> all_some ys = Some vs \<Longrightarrow> all_some (xs @ ys) = Some (us @ vs)"
  by (induction xs arbitrary: us rule: all_some.induct) auto

lemma all_some_concat:
  "(\<And>x. x \<in> set xs \<Longrightarrow> all_some (map f (g x)) = Some (h x)) \<Longrightarrow>
   all_some (map f (concat (map g xs))) = Some (concat (map h xs))"
  by (induction xs) (auto intro: all_some_append)

lemma run_get_friend_applies:
  assumes "services D env"
  shows "run env (get_friend_applies uid) s = (Inr (applies_of (w_db s) uid), s)"
proof -
  let ?row = "\<lambda>a u. \<lparr>far_status = word_of_int (a_status a), far_from_uid = word_of_int (a_from_uid a),
    far_name = u_name u\<rparr>"
  let ?rows = "[?row a u. a \<leftarrow> db_applies (w_db s), a_to_uid a = sint uid, u \<leftarrow> db_users (w_db s), u_id u = a_from_uid a]"
  have "run env (sql_select (SelectFriendApplies uid) friend_apply_row_of) s = (Inr ?rows, s)"
    by (rule run_typed_rows [OF assms])
      (auto simp: select_friend_applies_def friend_apply_row_of_def intro!: all_some_concat)
  moreover have "map friend_apply_info_of ?rows = applies_of (w_db s) uid"
    by (simp add: applies_of_def map_concat comp_def friend_apply_info_of_def if_distrib cong: if_cong)
  ultimately show ?thesis by (simp add: get_friend_applies_def cor_simps)
qed

lemma run_get_friends:
  assumes "services D env"
  shows "run env (get_friends uid) s = (Inr (friends_of (w_db s) uid), s)"
proof -
  let ?row = "\<lambda>f u. \<lparr>fr_friend_id = word_of_int (f_friend_id f), fr_back = f_back f, fr_name = u_name u\<rparr>"
  let ?rows = "[?row f u. f \<leftarrow> db_friends (w_db s), f_self_id f = sint uid, u \<leftarrow> db_users (w_db s), u_id u = f_friend_id f]"
  have "run env (sql_select (SelectFriends uid) friend_row_of) s = (Inr ?rows, s)"
    by (rule run_typed_rows [OF assms])
      (auto simp: select_friends_def friend_row_of_def text_field_def intro!: all_some_concat split: option.split)
  moreover have "map friend_info_of ?rows = friends_of (w_db s) uid"
    by (simp add: friends_of_def map_concat comp_def friend_info_of_def if_distrib cong: if_cong)
  ultimately show ?thesis by (simp add: get_friends_def cor_simps)
qed

end
