(* ===== verification/HandlerBehaviour.thy ===== *)
theory HandlerBehaviour
  imports World HandlerSafety
begin

text \<open>
  What each handler replies and leaves behind, on every branch: first for arbitrary services, then
  for services that do as documented (\<open>services\<close>).
\<close>

section \<open>Whatever the services answer\<close>

lemma run_lift_error: 
  assumes "libs_ok L"
  shows "\<exists>m. run env (lift (error_response L rid e)) s = (Inr m, s) \<and> carries L m rid (error_json L e JNull)"
  using error_response_carries [OF assms, of rid e] by auto

text \<open>No exception of a handler leaves \<open>handle_message\<close>.\<close>

lemma run_handle_message_total:
  fixes s :: "'w server"
  assumes "libs_ok L"
  shows "\<exists>m t. run env (handle_message L me msg) s = (Inr m, t)"
proof -
  have recovered: "\<exists>m t. run env (catch c (\<lambda>err. case err of
      MysqlError _ \<Rightarrow> lift (error_response L rid InternalError)
    | StdException \<Rightarrow> lift (error_response L rid InternalError))) s = (Inr m, t)"
    for c :: "('w, channel_message) task" and rid
    using error_response_carries [OF assms, of rid InternalError]
    by (auto simp: cor_simps split: sum.split prod.split exn.split)
  show ?thesis
    using error_and_close_carries [OF assms, of "mn_id msg" NotAuthenticated] recovered
    by (auto simp: handle_message_def Let_def split: option.split)
qed

lemma settle_unauthenticated:
  assumes "libs_ok L" "\<not> cs_authenticated (srv_sessions s me)" "mn_id msg \<noteq> wire_id LoginRequest"
  shows "\<exists>m. settle (handle_message L me msg) s = (s, Done m) \<and>
    carries L m (mn_id msg) (error_json L NotAuthenticated JNull) \<and> cm_close_after_send m"
  using error_and_close_carries [OF assms(1), of "mn_id msg" NotAuthenticated] assms(2,3)
  by (auto simp: handle_message_def)

text \<open>A request made in the name of another user, or to oneself, goes nowhere.\<close>

lemma settle_add_friend_forged:
  assumes "libs_ok L"
    and "nlohmann_parse_json (lb_json L) (add_friend_request_from_json (lb_json L)) (node_body msg) = Some req"
    and "adr_uid req \<noteq> cs_uid (srv_sessions s me) \<or> adr_uid req = adr_touid req"
  shows "\<exists>m. settle (add_friend L me msg) s = (s, Done m) \<and>
    carries L m (wire_id AddFriendResponse) (error_json L UserUidInvalid JNull)"
  using error_response_carries [OF assms(1), of "wire_id AddFriendResponse" UserUidInvalid] assms(2,3)
  by (auto simp: add_friend_def Let_def)

lemma settle_auth_friend_forged:
  assumes "libs_ok L"
    and "nlohmann_parse_json (lb_json L) (auth_friend_request_from_json (lb_json L)) (node_body msg) = Some req"
    and "ahr_fromuid req \<noteq> cs_uid (srv_sessions s me) \<or> ahr_fromuid req = ahr_touid req"
  shows "\<exists>m. settle (auth_friend L me msg) s = (s, Done m) \<and>
    carries L m (wire_id AuthFriendResponse) (error_json L UserUidInvalid JNull)"
  using error_response_carries [OF assms(1), of "wire_id AuthFriendResponse" UserUidInvalid] assms(2,3)
  by (auto simp: auth_friend_def Let_def)

lemma settle_text_chat_forged:
  assumes "libs_ok L"
    and "nlohmann_parse_json (lb_json L) (text_chat_msg_from_json (lb_json L)) (node_body msg) = Some req"
    and "tcm_fromuid req \<noteq> cs_uid (srv_sessions s me) \<or> tcm_fromuid req = tcm_touid req"
  shows "\<exists>m. settle (text_chat_msg L me msg) s = (s, Done m) \<and>
    carries L m (wire_id TextChatMsgRsp) (error_json L UserUidInvalid JNull)"
  using error_response_carries [OF assms(1), of "wire_id TextChatMsgRsp" UserUidInvalid] assms(2,3)
  by (auto simp: text_chat_msg_def Let_def)

section \<open>With documented services\<close>

definition cached_user :: "libs \<Rightarrow> string \<Rightarrow> user_info option \<Rightarrow> world \<Rightarrow> user_info option \<times> world" where
  "cached_user L key stored s =
     (case Option.bind (w_keys s key) (bj_parse_user L) of
        Some u \<Rightarrow> (Some u, s)
      | None \<Rightarrow> (case stored of
            None \<Rightarrow> (None, s)
          | Some u \<Rightarrow> (Some u, s\<lparr>w_keys := (w_keys s)(key \<mapsto> bj_serialize_user L u)\<rparr>)))"

lemma run_search_user_by_type:
  assumes "services D env" "\<And>s. run env m s = (Inr (stored s), s)"
  shows "run env (search_user_by_type L key m) s =
    (Inr (fst (cached_user L key (stored s) s)), snd (cached_user L key (stored s) s))"
  using assms by (auto simp: search_user_by_type_def search_user_info_def save_user_info_def cor_simps
      run_get run_set cached_user_def split: option.split)

lemma run_search_user_by_uid:
  "services D env \<Longrightarrow> run env (search_user_by_uid L uid) s =
    (let r = cached_user L (UserUidInfoPrefix @ to_string (sint uid)) (user_by_id (w_db s) uid) s
     in (Inr (fst r), snd r))"
  unfolding search_user_by_uid_def Let_def
  by (rule run_search_user_by_type) (auto simp: run_get_user_info)

lemma run_search_user_by_name:
  "services D env \<Longrightarrow> run env (search_user_by_name L n) s =
    (let r = cached_user L (UserNameInfoPrefix @ n) (user_by_name D (w_db s) n) s
     in (Inr (fst r), snd r))"
  unfolding search_user_by_name_def Let_def
  by (rule run_search_user_by_type) (auto simp: run_get_user_info_by_name)

lemma run_update_login_count:
  "services D env \<Longrightarrow> \<exists>b. run env update_login_count s = (Inr b, s)"
  using run_hset [of D env LoginCountKey "[(srv_name s, ucast (participant_count s))]" s]
  by (auto simp: update_login_count_def cor_simps)

lemma become_world [simp]:
  "w_keys (become i u s) = w_keys s" "w_db (become i u s) = w_db s"
  "srv_name (become i u s) = srv_name s" "srv_participants (become i u s) = srv_participants s"
  by (simp_all add: become_def update_session_def)

lemma cached_user_db [simp]: "w_db (snd (cached_user L k st s)) = w_db s"
  "srv_name (snd (cached_user L k st s)) = srv_name s"
  by (auto simp: cached_user_def split: option.split)

subsection \<open>Login\<close>

text \<open>The state a successful login leaves, and its reply.\<close>

definition logged_in :: "libs \<Rightarrow> nat \<Rightarrow> i64 \<Rightarrow> world \<Rightarrow> world" where
  "logged_in L me uid s =
     (let s1 = become me uid
         (snd (cached_user L (UserUidInfoPrefix @ to_string (sint uid)) (user_by_id (w_db s) uid) s))
      in s1\<lparr>w_keys := (w_keys s1)(UserLoginServerPrefix @ to_string (sint uid) \<mapsto> srv_name s)\<rparr>)"

definition login_reply :: "user_login_request \<Rightarrow> string \<Rightarrow> db \<Rightarrow> json" where
  "login_reply req name d =
     response_payload (Some (user_login_response_to_json
       \<lparr>uls_uid = ulr_uid req, uls_token = ulr_token req, uls_name = name,
        uls_apply_list = applies_of d (ulr_uid req), uls_friend_list = friends_of d (ulr_uid req)\<rparr>)) 0 []"

lemma run_login_wrong_token:
  assumes "services D env"
    and "nlohmann_parse_json (lb_json L) (user_login_request_from_json (lb_json L)) (node_body msg) = Some req"
    and "w_keys s (UserTokenKey (ulr_uid req)) \<noteq> Some (ulr_token req)"
  shows "run env (login L me msg) s =
    (error_response_and_close L (wire_id LoginResponse) TokenInvalid, s)"
  using assms by (simp add: login_def Let_def cor_simps run_get)

lemma run_login_unknown_user:
  assumes "services D env"
    and "nlohmann_parse_json (lb_json L) (user_login_request_from_json (lb_json L)) (node_body msg) = Some req"
    and "w_keys s (UserTokenKey (ulr_uid req)) = Some (ulr_token req)"
    and "fst (cached_user L (UserUidInfoPrefix @ to_string (sint (ulr_uid req)))
      (user_by_id (w_db s) (ulr_uid req)) s) = None"
  shows "run env (login L me msg) s =
    (error_response_and_close L (wire_id LoginResponse) InternalError, s)"
  using assms by (auto simp: login_def Let_def cor_simps run_get run_search_user_by_uid cached_user_def
      split: option.splits)

lemma run_login_success:
  assumes "services D env"
    and "nlohmann_parse_json (lb_json L) (user_login_request_from_json (lb_json L)) (node_body msg) = Some req"
    and "w_keys s (UserTokenKey (ulr_uid req)) = Some (ulr_token req)"
    and "fst (cached_user L (UserUidInfoPrefix @ to_string (sint (ulr_uid req)))
      (user_by_id (w_db s) (ulr_uid req)) s) = Some u"
  shows "run env (login L me msg) s =
    (map_sum id channel_of (node_of_json L (wire_id LoginResponse) (login_reply req (ui_name u) (w_db s))),
     logged_in L me (ulr_uid req) s)"
proof -
  let ?s1 = "snd (cached_user L (UserUidInfoPrefix @ to_string (sint (ulr_uid req)))
      (user_by_id (w_db s) (ulr_uid req)) s)"
  obtain b where b: "run env update_login_count ?s1 = (Inr b, ?s1)"
    using run_update_login_count [OF assms(1)] by blast
  show ?thesis
    using assms by (simp add: login_def Let_def cor_simps run_get run_search_user_by_uid b
        become_def [symmetric] set_user_login_server_def run_set run_get_friend_applies run_get_friends
        logged_in_def login_reply_def)
qed

subsection \<open>Where a notification goes\<close>

text \<open>
  The abstract decision behind the friend and chat handlers: refuse, do nothing because the target
  is not logged in anywhere or its session is gone, deliver to a local session, or call the peer.
\<close>

datatype route = Refused | Offline | Disconnected | Local nat | Remote string

definition route_of :: "nat \<Rightarrow> i64 \<Rightarrow> i64 \<Rightarrow> world \<Rightarrow> route" where
  "route_of me from to s =
     (if from \<noteq> cs_uid (srv_sessions s me) \<or> from = to then Refused
      else (case w_keys s (UserLoginServerPrefix @ to_string (sint to)) of
          None \<Rightarrow> Offline
        | Some srv \<Rightarrow>
            if srv = srv_name s
            then (case get_participant to s of None \<Rightarrow> Disconnected | Some i \<Rightarrow> Local i)
            else Remote srv))"

definition deliver_reply ::
    "libs \<Rightarrow> u32 \<Rightarrow> nat \<Rightarrow> (exn + msg_node) \<Rightarrow> world \<Rightarrow> (exn + channel_message) \<times> world" where
  "deliver_reply L rid i msg' s =
     (case msg' of
        Inl e \<Rightarrow> (Inl e, s)
      | Inr n \<Rightarrow> (message_response L rid, deliver i (channel_of n) s))"

definition rpc_error :: "rpc_reply \<Rightarrow> i32 option" where
  "rpc_error r = (case r of
       RspAddFriend rsp \<Rightarrow> Some (afs_error rsp)
     | RspAuthFriend rsp \<Rightarrow> Some (aus_error rsp)
     | RspTextChat rsp \<Rightarrow> Some (tcs_error rsp)
     | _ \<Rightarrow> None)"

text \<open>A reply of the wrong message type is a failed call.\<close>

definition answers :: "rpc_call \<Rightarrow> rpc_reply \<Rightarrow> bool" where
  "answers q r \<longleftrightarrow> (case (q, r) of
       (CallNotifyAddFriend _, RspAddFriend _) \<Rightarrow> True
     | (CallNotifyAuthFriend _, RspAuthFriend _) \<Rightarrow> True
     | (CallNotifyTextChatMsg _, RspTextChat _) \<Rightarrow> True
     | _ \<Rightarrow> False)"

definition peer_reply :: "libs \<Rightarrow> u32 \<Rightarrow> u32 \<Rightarrow> rpc_call \<Rightarrow> rpc_reply \<Rightarrow> exn + channel_message" where
  "peer_reply L mid rid q r =
     (if answers q r \<and> rpc_error r = Some 0 then message_response L rid
      else error_response L mid RPCFailed)"

lemma widen_eq_0 [simp]: "widen_i64 x = 0 \<longleftrightarrow> x = 0"
  using narrow_widen [of x] by (auto simp: widen_i64_def narrow_i32_def)

lemma deliver_world [simp]:
  "w_keys (deliver i m s) = w_keys s" "w_db (deliver i m s) = w_db s"
  by (simp_all add: deliver_def update_session_def)

lemma get_participant_world [simp]:
  "get_participant uid (s\<lparr>w_db := d\<rparr>) = get_participant uid s"
  "get_participant uid (s\<lparr>w_keys := k\<rparr>) = get_participant uid s"
  by (simp_all add: get_participant_def)

lemma run_notify_participant:
  "run env (notify_participant uid msg' a b) s =
     (case get_participant uid s of
        None \<Rightarrow> run env a s
      | Some i \<Rightarrow> (case msg' of
            Inl e \<Rightarrow> (Inl e, s)
          | Inr n \<Rightarrow> run env b (deliver i (channel_of n) s)))"
  by (auto simp: notify_participant_def split: option.split sum.split)

lemma run_login_server:
  "services D env \<Longrightarrow> run env (get_user_login_server u) s =
     (Inr (w_keys s (UserLoginServerPrefix @ to_string (sint u))), s)"
  by (simp add: get_user_login_server_def run_get)

lemma run_text_chat_msg:
  assumes "services D env"
    and "nlohmann_parse_json (lb_json L) (text_chat_msg_from_json (lb_json L)) (node_body msg) = Some req"
  shows "run env (text_chat_msg L me msg) s =
    (let rid = wire_id TextChatMsgRsp; q = CallNotifyTextChatMsg (pb_of_text_chat req) in
     case route_of me (tcm_fromuid req) (tcm_touid req) s of
       Refused \<Rightarrow> (error_response L rid UserUidInvalid, s)
     | Offline \<Rightarrow> (error_response L rid Success, s)
     | Disconnected \<Rightarrow> (error_response L rid Success, s)
     | Local i \<Rightarrow> deliver_reply L rid i
         (node_of_json L (wire_id NotifyTextChatMsg) (text_chat_msg_to_json req)) s
     | Remote srv \<Rightarrow> (peer_reply L (mn_id msg) rid q (fst (on_rpc env q s)), s))"
  using assms servicesD(3) [OF assms(1), of "CallNotifyTextChatMsg (pb_of_text_chat req)" s]
  by (cases "on_rpc env (CallNotifyTextChatMsg (pb_of_text_chat req)) s")
    (auto simp: text_chat_msg_def Let_def cor_simps run_login_server run_notify_participant route_of_def
      deliver_reply_def client_defs peer_reply_def rpc_error_def answers_def text_response_of_pb_def
      split: option.split sum.split rpc_reply.split)

lemma run_auth_friend:
  assumes "services D env"
    and "nlohmann_parse_json (lb_json L) (auth_friend_request_from_json (lb_json L)) (node_body msg) = Some req"
  shows "run env (auth_friend L me msg) s =
    (let rid = wire_id AuthFriendResponse; from = ahr_fromuid req; to = ahr_touid req;
         q = CallNotifyAuthFriend (pb_of_auth_friend from to);
         s' = s\<lparr>w_db := snd (auth_friend_tx (sint from) (sint to) (w_db s))\<rparr> in
     case route_of me from to s of
       Refused \<Rightarrow> (error_response L rid UserUidInvalid, s)
     | Offline \<Rightarrow> (error_response L rid Success, s')
     | Disconnected \<Rightarrow> (error_response L rid Success, s')
     | Local i \<Rightarrow> deliver_reply L rid i
         (node_of_json L (wire_id NotifyAuthFriend) (notify_auth_friend_msg_to_json (notify_auth_of_request req))) s'
     | Remote srv \<Rightarrow> (peer_reply L (mn_id msg) rid q (fst (on_rpc env q s')), s'))"
proof -
  let ?q = "CallNotifyAuthFriend (pb_of_auth_friend (ahr_fromuid req) (ahr_touid req))"
  let ?s = "s\<lparr>w_db := snd (auth_friend_tx (sint (ahr_fromuid req)) (sint (ahr_touid req)) (w_db s))\<rparr>"
  show ?thesis
    using assms servicesD(3) [OF assms(1), of ?q ?s] run_auth_friend_apply [OF servicesD(2) [OF assms(1)]]
    by (cases "on_rpc env ?q ?s")
      (auto simp: auth_friend_def Let_def cor_simps run_login_server run_notify_participant route_of_def
        deliver_reply_def client_defs peer_reply_def rpc_error_def answers_def auth_friend_response_of_pb_def
        split: option.split sum.split rpc_reply.split)
qed

lemma run_client_add_friend:
  assumes "snd (on_rpc env (CallNotifyAddFriend (pb_of_add_friend from name to)) s) = s"
  shows "run env (bind (client_notify_add_friend from name to) (\<lambda>response.
      case response of
        Inl _ \<Rightarrow> lift (error_response L mid RPCFailed)
      | Inr r \<Rightarrow>
          if gr_error r \<noteq> 0 then lift (error_response L mid RPCFailed)
          else lift (message_response L rid))) s =
    (let q = CallNotifyAddFriend (pb_of_add_friend from name to)
     in (peer_reply L mid rid q (fst (on_rpc env q s)), s))"
  using assms
  by (cases "on_rpc env (CallNotifyAddFriend (pb_of_add_friend from name to)) s")
    (auto simp: client_notify_add_friend_def peer_reply_def answers_def rpc_error_def
      add_friend_response_of_pb_def Let_def split: rpc_reply.split)

text \<open>Before the route, \<^verbatim>\<open>add_friend\<close> records the application; after it, it needs the sender's name.\<close>

lemma run_add_friend:
  assumes "services D env"
    and "nlohmann_parse_json (lb_json L) (add_friend_request_from_json (lb_json L)) (node_body msg) = Some req"
  shows "run env (add_friend L me msg) s =
    (let rid = wire_id AddFriendResponse; from = adr_uid req; to = adr_touid req;
         s' = s\<lparr>w_db := snd (insert_friend_apply (sint from) (sint to) (w_db s))\<rparr> in
     case route_of me from to s of
       Refused \<Rightarrow> (error_response L rid UserUidInvalid, s)
     | r \<Rightarrow>
        (case fst (insert_friend_apply (sint from) (sint to) (w_db s)) of
           Inl e \<Rightarrow> (Inl (MysqlError e), s)
         | Inr _ \<Rightarrow>
            if r = Offline then (error_response L rid Success, s')
            else (case user_by_id (w_db s) from of
                None \<Rightarrow> (error_response L rid InternalError, s')
              | Some u \<Rightarrow>
                  (case r of
                     Local i \<Rightarrow> deliver_reply L rid i (node_of_json L (wire_id NotifyAddFriend)
                       (notify_add_friend_msg_to_json \<lparr>naf_applyuid = from, naf_name = ui_name u\<rparr>)) s'
                   | Remote srv \<Rightarrow>
                       (let q = CallNotifyAddFriend (pb_of_add_friend from (ui_name u) to)
                        in (peer_reply L (mn_id msg) rid q (fst (on_rpc env q s')), s'))
                   | _ \<Rightarrow> (error_response L rid Success, s')))))"
proof -
  let ?from = "adr_uid req" and ?to = "adr_touid req"
  let ?r = "insert_friend_apply (sint ?from) (sint ?to) (w_db s)"
  let ?s = "s\<lparr>w_db := snd ?r\<rparr>"
  let ?key = "UserLoginServerPrefix @ to_string (sint ?to)"
  have users: "user_by_id (snd ?r) u = user_by_id (w_db s) u" for u
    by (auto simp: user_by_id_def insert_friend_apply_def)
  have applied: "run env (add_friend_apply \<lparr>fa_from_uid = ?from, fa_to_uid = ?to\<rparr>) s =
      (case fst ?r of Inl e \<Rightarrow> (Inl (MysqlError e), s) | Inr _ \<Rightarrow> (Inr True, ?s))"
    using run_add_friend_apply [OF servicesD(2) [OF assms(1)]] by (simp split: prod.split sum.split)
  show ?thesis
  proof (cases "?from \<noteq> cs_uid (srv_sessions s me) \<or> ?from = ?to")
    case True
    then show ?thesis using assms(2) by (simp add: add_friend_def Let_def route_of_def)
  next
    case False
    then have refused: "(?from \<noteq> cs_uid (srv_sessions s me) \<or> ?from = ?to) = False" by simp
    note start = add_friend_def Let_def assms(2) option.case guar.simps refused if_False run.simps
      run_bind applied
    show ?thesis
    proof (cases "fst ?r")
      case (Inl e)
      have "route_of me ?from ?to s \<noteq> Refused"
        unfolding route_of_def refused if_False by (simp split: option.split)
      then show ?thesis
        unfolding start Inl by (cases "route_of me ?from ?to s") simp_all
    next
      case (Inr x)
      note start = start Inr sum.case run_login_server [OF assms(1)] prod.case
      show ?thesis
      proof (cases "w_keys s ?key")
        case None
        have "route_of me ?from ?to s = Offline"
          unfolding route_of_def refused if_False None by simp
        with None show ?thesis unfolding start by simp
      next
        case (Some srv)
        have rt: "route_of me ?from ?to s = (if srv = srv_name s
            then (case get_participant ?to s of None \<Rightarrow> Disconnected | Some i \<Rightarrow> Local i)
            else Remote srv)"
          unfolding route_of_def refused if_False Some by simp
        show ?thesis
        proof (cases "user_by_id (w_db s) ?from")
          case None
          with Some show ?thesis unfolding start
            by (simp add: rt run_bind run_get_user_info [OF assms(1)] users split: option.split)
        next
          case u: (Some u)
          with Some show ?thesis unfolding start
            using run_client_add_friend [OF servicesD(3) [OF assms(1)]]
            by (cases "srv = srv_name s"; cases "get_participant ?to s")
              (simp_all add: rt run_bind run_get_user_info [OF assms(1)] users
                run_notify_participant deliver_reply_def Let_def split: sum.split)
        qed
      qed
    qed
  qed
qed

end
