(* ===== verification/SampleRun.thy ===== *)
theory SampleRun
  imports SampleLibs SessionSafety HandlerBehaviour
begin

text \<open>
  Concrete services, a concrete server and a concrete run of it, on which the statements about the
  chat server are applied.
\<close>

section \<open>Services\<close>

definition sample_dialect :: dialect where
  "sample_dialect = \<lparr>same_text = (=), fits_varchar = (\<lambda>s. length s \<le> 255), counts_found = True\<rparr>"

definition sample_env :: "world environment" where
  "sample_env = \<lparr>
     on_redis = (\<lambda>q s. case q of
         R_GET k \<Rightarrow> (R_Value (case w_keys s k of None \<Rightarrow> R_Nil | Some v \<Rightarrow> R_Str v), s)
       | R_SET k v \<Rightarrow> (R_Value (R_Str ''OK''), s\<lparr>w_keys := (w_keys s)(k \<mapsto> v)\<rparr>)
       | R_SETEX k t v \<Rightarrow> (R_Value (R_Str ''OK''), s\<lparr>w_keys := (w_keys s)(k \<mapsto> v)\<rparr>)
       | R_HSET k m \<Rightarrow> (R_Value (R_Int 1), s)
       | R_HGETALL k \<Rightarrow> (R_Value (R_Map []), s)),
     on_sql = (\<lambda>q s. case q of
         Execute st \<Rightarrow> (case exec_stmt sample_dialect st (w_db s) of
             (Inl e, d) \<Rightarrow> (SqlError e, s)
           | (Inr rs, d) \<Rightarrow> (SqlOk rs, s\<lparr>w_db := d\<rparr>))
       | _ \<Rightarrow> (SqlOk [], s)),
     on_rpc = (\<lambda>q s. (RpcFailed ''unavailable'', s)),
     on_uuid = (\<lambda>s. (''6f0d'', s))\<rparr>"

lemma sample_services: "services sample_dialect sample_env"
  by (auto simp: services_def keeps_keys_def serves_tables_def sample_env_def fun_upd_def
      split: redis_cmd.split) (metis world.surjective world.update_convs(1))+

lemma sample_dialect_ok: "dialect_ok sample_dialect"
  by (auto simp: dialect_ok_def sample_dialect_def)

section \<open>Messages\<close>

definition sample_msg :: "message_id \<Rightarrow> json \<Rightarrow> msg_node" where
  "sample_msg i j = frame_node (wire_id i) (print_json j)"

lemma sample_parse:
  "json_ok j \<Longrightarrow> nlohmann_parse_json sample_json f (node_body (sample_msg i j)) = f (json_norm j)"
  using json_lib_okD(1) [OF sample_json_ok, of j "print_json j"] node_body_frame [OF print_json_no_zero]
  by (simp add: nlohmann_parse_json_def sample_msg_def) (simp add: sample_json_def)

definition login_json :: json where
  "login_json = json_set ''uid'' (of_i64 1) (json_set ''token'' (JStr ''t1'') JNull)"

definition pair_json :: "string \<Rightarrow> i64 \<Rightarrow> i64 \<Rightarrow> json" where
  "pair_json k a b = json_set ''touid'' (of_i64 b) (json_set k (of_i64 a) JNull)"

definition hello_msg :: text_chat_msg where
  "hello_msg = \<lparr>tcm_fromuid = 1, tcm_touid = 2, tcm_text_array = [\<lparr>tcd_msgid = 7, tcd_content = ''hi''\<rparr>]\<rparr>"

lemma sample_lib [simp]: "lb_json sample_libs = sample_json" "json_lib_ok sample_json"
  by (simp_all add: sample_libs_def sample_json_ok)

lemma parse_login:
  "nlohmann_parse_json sample_json (user_login_request_from_json sample_json)
     (node_body (sample_msg LoginRequest login_json)) = Some \<lparr>ulr_uid = 1, ulr_token = ''t1''\<rparr>"
  by (simp add: sample_parse login_json_def user_login_request_from_json_def field_i64_def field_string_def json_at_norm)

lemma parse_add_friend:
  "nlohmann_parse_json sample_json (add_friend_request_from_json sample_json)
     (node_body (sample_msg AddFriendRequest (pair_json ''uid'' a b))) = Some \<lparr>adr_uid = a, adr_touid = b\<rparr>"
  by (simp add: sample_parse pair_json_def add_friend_request_from_json_def field_i64_def json_at_norm)

lemma parse_auth_friend:
  "nlohmann_parse_json sample_json (auth_friend_request_from_json sample_json)
     (node_body (sample_msg AuthFriendRequest (pair_json ''fromuid'' a b))) = Some \<lparr>ahr_fromuid = a, ahr_touid = b\<rparr>"
  by (simp add: sample_parse pair_json_def auth_friend_request_from_json_def field_i64_def json_at_norm)

lemma parse_text_chat:
  "nlohmann_parse_json sample_json (text_chat_msg_from_json sample_json)
     (node_body (sample_msg TextChatMsgReq (text_chat_msg_to_json m))) = Some m"
  by (simp add: sample_parse text_chat_msg_roundtrip [OF sample_json_ok])

section \<open>A server with two users logged in\<close>

definition sample_session :: "i64 \<Rightarrow> chat_session" where
  "sample_session uid = mark_authenticated (set_uid uid (fresh_session 0))"

definition sample_world :: world where
  "sample_world = \<lparr>srv_name = ''chat1'', srv_participants = [0, 1],
     srv_sessions = (\<lambda>i. if i = 0 then sample_session 1 else if i = 1 then sample_session 2 else fresh_session 0),
     w_keys = (\<lambda>k. if k = UserTokenKey 1 then Some ''t1''
       else if k = UserLoginServerPrefix @ to_string 1 \<or> k = UserLoginServerPrefix @ to_string 2
       then Some ''chat1'' else None),
     w_db = \<lparr>db_users = [\<lparr>u_id = 1, u_name = ''alice'', u_email = ''a@x'', u_pwd = ''p1''\<rparr>,
         \<lparr>u_id = 2, u_name = ''bob'', u_email = ''b@x'', u_pwd = ''p2''\<rparr>],
       db_applies = [], db_friends = [], db_next_user = 3\<rparr>\<rparr>"

lemma sample_world_simps [simp]:
  "srv_name sample_world = ''chat1''" "srv_participants sample_world = [0, 1]"
  "cs_uid (srv_sessions sample_world 0) = 1" "cs_uid (srv_sessions sample_world (Suc 0)) = 2"
  "cs_authenticated (srv_sessions sample_world 0)"
  "cs_channel (srv_sessions sample_world (Suc 0)) = []"
  "cs_writer (srv_sessions sample_world (Suc 0)) = WaitReceive"
  by (simp_all add: sample_world_def sample_session_def set_uid_def mark_authenticated_def fresh_session_def)

lemma sample_keys [simp]:
  "w_keys sample_world (UserLoginServerPrefix @ to_string 1) = Some ''chat1''"
  "w_keys sample_world (UserLoginServerPrefix @ to_string 2) = Some ''chat1''"
  "w_keys sample_world (UserTokenKey 1) = Some ''t1''"
  "w_keys sample_world (UserUidInfoPrefix @ to_string 1) = None"
  by (simp_all add: sample_world_def UserLoginServerPrefix_def UserTokenKey_def UserTokenPrefix_def
      UserUidInfoPrefix_def)

lemma sample_participant [simp]: "get_participant 2 sample_world = Some 1"
  by (simp add: get_participant_def)

end
