(* ===== verification/SessionProperties.thy ===== *)
theory SessionProperties
  imports SampleRun
begin

text \<open>
  What holds of every reachable state of a chat server, with all its sessions, the services and the
  peer interleaved in any order.
\<close>

section \<open>A run: accept, login, token confirmed\<close>

definition empty_process :: chat_process where
  "empty_process = \<lparr>pr_server = \<lparr>srv_name = ''chat1'', srv_participants = [],
       srv_sessions = (\<lambda>_. \<lparr>cs_uid = 0, cs_authenticated = False, cs_deadline = False, cs_open = False,
         cs_channel = [], cs_writer = WriterEnded\<rparr>)\<rparr>,
     pr_started = {}, pr_reader = (\<lambda>_. ReaderEnded), pr_inbox = (\<lambda>_. []), pr_sent = (\<lambda>_. []),
     pr_read = (\<lambda>_. []), pr_log = (\<lambda>_. {}), pr_blocked = None\<rparr>"

lemma empty_initial: "initial empty_process"
  by (simp add: initial_def empty_process_def)

definition accepted :: "i64 \<Rightarrow> chat_process" where
  "accepted memory = start 0 memory empty_process"

lemma accepted_reachable: "reachable L (accepted memory)"
  unfolding accepted_def
  by (rule reach_step [OF reach_init [OF empty_initial] accept]) (simp_all add: empty_process_def)

lemma accepted_simps [simp]:
  "pr_started (accepted m) = {0}" "pr_blocked (accepted m) = None" "pr_reader (accepted m) 0 = ReadHeader"
  "pr_inbox (accepted m) 0 = []" "cs_open (session (accepted m) 0)" "cs_uid (session (accepted m) 0) = m"
  "\<not> cs_authenticated (session (accepted m) 0)" "cs_writer (session (accepted m) 0) = WaitReceive"
  "cs_channel (session (accepted m) 0) = []" "srv_participants (pr_server (accepted m)) = [0]"
  by (simp_all add: accepted_def start_def set_reader_def set_server_def fresh_session_def empty_process_def join_def)

text \<open>Services that answer the login of user 1 with the token \<open>t1\<close>.\<close>

definition login_info :: user_info where
  "login_info = \<lparr>ui_id = 1, ui_name = ''alice'', ui_email = ''a@x'', ui_pwd = ''p1''\<rparr>"

definition login_env :: "chat_server environment" where
  "login_env = \<lparr>
     on_redis = (\<lambda>q s. (if q = R_GET (UserTokenKey 1) then R_Value (R_Str ''t1'')
       else if q = R_GET (UserUidInfoPrefix @ to_string 1)
       then R_Value (R_Str (sample_user_text login_info))
       else (case q of R_SET k v \<Rightarrow> R_Value (R_Str ''OK'') | _ \<Rightarrow> R_Value (R_Int 1)), s)),
     on_sql = (\<lambda>q s. (case q of Execute st \<Rightarrow> SqlOk [rows_of []] | _ \<Rightarrow> SqlOk [], s)),
     on_rpc = (\<lambda>q s. (RpcFailed ''unavailable'', s)),
     on_uuid = (\<lambda>s. (''6f0d'', s))\<rparr>"

lemma login_env_stateless: "stateless login_env"
  by (simp add: stateless_def login_env_def)

lemma cast_sample [simp]:
  "cast_message_id (lb_enum sample_libs) (message_code m) = Some m"
  using cast_message_code [OF libs_okD(2) [OF sample_libs_ok]] .

lemma ucast_wire [simp]: "(ucast (wire_id m) :: u16) = message_code m"
  by (cases m) (simp_all add: wire_id_def)

lemma mn_id_sample [simp]: "mn_id (sample_msg i j) = wire_id i"
  by (simp add: sample_msg_def)

lemma login_env_calls:
  "run login_env (redis_get k) s = (Inr (if k = UserTokenKey 1 then Some ''t1''
     else if k = UserUidInfoPrefix @ to_string 1 then Some (sample_user_text login_info) else None), s)"
  "run login_env (redis_set k v) s = (Inr True, s)"
  "run login_env (redis_hset k h) s = (Inr 1, s)"
  by (simp_all add: redis_defs login_env_def login_info_def)

lemma login_env_select: "run login_env (sql_select st f) s = (Inr [], s)"
  by (simp add: sql_select_def sql_connect_def sql_run_def typed_rows_def cor_simps login_env_def rows_of_def)

lemma login_env_friends:
  "run login_env (get_friend_applies u) s = (Inr [], s)" "run login_env (get_friends u) s = (Inr [], s)"
  by (simp_all add: get_friend_applies_def get_friends_def cor_simps login_env_select)

lemma login_keys_differ: "UserUidInfoPrefix @ to_string 1 \<noteq> UserTokenKey 1"
  by (simp add: UserUidInfoPrefix_def UserTokenKey_def UserTokenPrefix_def)

lemma login_env_user: "run login_env (search_user_by_uid sample_libs 1) s = (Inr (Some login_info), s)"
proof -
  have "bj_parse_user sample_libs (sample_user_text login_info) = Some login_info"
    using libs_okD(4) [OF sample_libs_ok, of login_info] by (simp add: sample_libs_def)
  then show ?thesis
    by (simp add: search_user_by_uid_def search_user_by_type_def search_user_info_def cor_simps
        login_env_calls login_keys_differ)
qed

lemma run_login_env:
  "\<exists>m. run login_env (handle_message sample_libs 0 (sample_msg LoginRequest login_json)) s = (Inr m, become 0 1 s)"
proof -
  have n: "node_of_json sample_libs rid j = Inr (mk_node (lb_platform sample_libs) rid (Some (print_json j)))" for rid j
    by (simp add: node_of_json_def dump_text_def sample_json_def)
  obtain m where "run login_env (login sample_libs 0 (sample_msg LoginRequest login_json)) s = (Inr m, become 0 1 s)"
    by (simp add: n login_def parse_login Let_def run_bind login_env_calls login_env_user
        update_login_count_def set_user_login_server_def login_env_friends become_def)
  then have "run login_env (handle_message sample_libs 0 (sample_msg LoginRequest login_json)) s = (Inr m, become 0 1 s)"
    using cast_sample [of LoginRequest]
    by (simp add: handle_message_def handlers_init_def smap_simps Let_def run_catch)
  then show ?thesis by blast
qed

lemma login_body_fits: "length (print_json login_json) \<le> MAX_LENGTH"
proof -
  have "json_ok login_json" by (simp add: login_json_def)
  from length_print_json [OF this] show ?thesis
    by (simp add: login_json_def json_set.simps of_i64_def MAX_LENGTH_def)
qed

lemma logged_in_reachable:
  "\<exists>p m. reachable sample_libs p \<and> pr_server p = deliver 0 m (become 0 1 (pr_server (accepted 0))) \<and>
     pr_reader p 0 = ReadHeader \<and> pr_blocked p = None \<and> pr_inbox p 0 = []"
proof -
  obtain m where "run login_env (handle_message sample_libs 0 (frame_node (wire_id LoginRequest) (print_json login_json)))
      (pr_server (accepted 0)) = (Inr m, become 0 1 (pr_server (accepted 0)))"
    using run_login_env [of "pr_server (accepted 0)"] by (auto simp: sample_msg_def)
  from frame_is_handled [OF login_env_stateless libs_okD(3) [OF sample_libs_ok] accepted_reachable _ _ _ _ login_body_fits this]
  show ?thesis by auto
qed

lemma participants_of_reachable:
  "reachable L p \<Longrightarrow> set (srv_participants (pr_server p)) = {i \<in> pr_started p. cs_open (session p i)}"
  using inv_facts(3) [OF reachable_inv, of L p] by (simp add: server_inv_def)

section \<open>Authentication\<close>

text \<open>C1: in every reachable state, a session that is authenticated has itself handled a login message
  for exactly the uid it carries, and Redis answered the session's query for that uid's token with the
  token of that message.\<close>

theorem authenticated_by_token:
  assumes "reachable L p" "cs_authenticated (session p i)"
  shows "\<exists>msg\<in>set (pr_read p i). login_granted L msg (pr_log p i) (cs_uid (session p i))"
  using reachable_inv [OF assms(1)] assms(2) by (simp add: process_inv_def server_inv_def)

theorem authenticated_by_token_witness:
  "\<exists>p. cs_authenticated (session p 0) \<and>
     (\<exists>msg\<in>set (pr_read p 0). login_granted sample_libs msg (pr_log p 0) 1)"
proof -
  obtain p m where p: "reachable sample_libs p" "pr_server p = deliver 0 m (become 0 1 (pr_server (accepted 0)))"
    using logged_in_reachable by blast
  have "cs_authenticated (session p 0)" "cs_uid (session p 0) = 1"
    by (simp_all add: p(2) deliver_def become_def)
  with authenticated_by_token [OF p(1)] show ?thesis by metis
qed

text \<open>C29: the memory a session is built over is its uid until it logs in, so it can receive what is
  meant for somebody else: a state is reachable in which a session that never authenticated holds a
  chat message for the user whose id its memory happened to contain.\<close>

theorem unauthenticated_session_can_receive:
  "\<exists>p. reachable sample_libs p \<and> \<not> cs_authenticated (session p 0) \<and> pr_read p 0 = [] \<and>
     (\<exists>m\<in>set (cs_channel (session p 0)). mn_id (cm_msg m) = wire_id NotifyTextChatMsg)"
proof -
  let ?q = "CallNotifyTextChatMsg (pb_of_text_chat hello_msg)"
  let ?p = "set_server (snd (chat_service sample_libs ?q (pr_server (accepted 2)))) (accepted 2)"
  have reach: "reachable sample_libs ?p"
    by (rule reach_step [OF accepted_reachable [of _ 2] notify]) simp
  have there: "get_participant 2 (pr_server (accepted 2)) = Some 0"
    by (simp add: get_participant_def)
  have "\<exists>n. mn_id n = wire_id NotifyTextChatMsg \<and>
    snd (chat_service sample_libs ?q (pr_server (accepted 2))) = deliver 0 (channel_of n) (pr_server (accepted 2))"
    using there by (simp add: NotifyTextChatMsg_rpc_def notify_session_def pb_of_text_chat_def hello_msg_def
        narrow_i32_def widen_i64_def node_of_json_def dump_text_def sample_json_def)
      (rule exI, rule conjI [rotated], rule refl, simp)
  then obtain n where n: "mn_id n = wire_id NotifyTextChatMsg"
    "snd (chat_service sample_libs ?q (pr_server (accepted 2))) = deliver 0 (channel_of n) (pr_server (accepted 2))"
    by blast
  have "pr_server ?p = deliver 0 (channel_of n) (pr_server (accepted 2))"
    by (subst n(2)) (simp add: set_server_def)
  then have "cs_channel (session ?p 0) = [channel_of n]" "\<not> cs_authenticated (session ?p 0)"
    by (simp_all add: deliver_def try_send_def channel_room_def channel_size_def)
  moreover have "pr_read ?p 0 = []"
    by (simp add: set_server_def accepted_def start_def set_reader_def fresh_session_def empty_process_def join_def)
  ultimately show ?thesis using reach n(1) by (intro exI [of _ ?p]) (simp add: channel_of_def)
qed

section \<open>Participants and channels\<close>

text \<open>C13: the sessions that can be found are the ones that are open, each of them once, and no channel
  ever holds more than its 64 messages and the one in the hands of a waiting receiver.\<close>

theorem participants_are_open_sessions:
  assumes "reachable L p"
  shows "set (srv_participants (pr_server p)) = {i \<in> pr_started p. cs_open (session p i)} \<and>
    distinct (srv_participants (pr_server p)) \<and> length (cs_channel (session p i)) \<le> 65"
proof -
  have "server_inv L (pr_started p) (pr_read p) (pr_log p) (pr_server p)"
    by (rule inv_facts(3) [OF reachable_inv [OF assms]])
  then have ok: "server_ok (pr_server p)"
    and open': "set (srv_participants (pr_server p)) = {i \<in> pr_started p. cs_open (session p i)}"
    by (simp_all add: server_inv_def)
  have "length (cs_channel (session p i)) \<le> channel_room (session p i)"
    using ok by (simp add: server_ok_def)
  also have "\<dots> \<le> 65"
    by (simp add: channel_room_def channel_size_def split: writer_state.split)
  finally show ?thesis using ok open' by (simp add: server_ok_def strict_sorted_iff)
qed

theorem participants_are_open_sessions_witness:
  "set (srv_participants (pr_server (accepted 0))) = {i \<in> {0}. cs_open (session (accepted 0) i)}"
  using participants_are_open_sessions [OF accepted_reachable [of sample_libs 0], of 0] by simp



section \<open>Closing\<close>

text \<open>C15: a message that closes the session is the last one that is ever written to it.\<close>

theorem nothing_after_closing_message:
  assumes "reachable L p" "pr_sent p i = ms @ [m] @ ms'" "cm_close_after_send m"
  shows "ms' = [] \<and> cs_writer (session p i) = WriterEnded"
proof -
  have w: "written_ok (session p i) (pr_sent p i)" by (rule inv_facts(1) [OF reachable_inv [OF assms(1)]])
  have "ms' = []"
  proof (rule ccontr)
    assume "ms' \<noteq> []"
    then have "m \<in> set (butlast (pr_sent p i))" using assms(2) by (simp add: butlast_append)
    with w assms(3) show False by (auto simp: written_ok_def)
  qed
  with w assms show ?thesis by (simp add: written_ok_def)
qed

text \<open>A session that has not logged in asks for something else: the refusal is its last message.\<close>

lemma refusal_is_delivered:
  "\<exists>p m. reachable sample_libs p \<and> pr_server p = deliver 0 m (pr_server (accepted 0)) \<and>
     pr_blocked p = None \<and> pr_sent p = (\<lambda>_. []) \<and> cm_close_after_send m \<and>
     error_response_and_close sample_libs (wire_id SearchUserRequest) NotAuthenticated = Inr m"
proof -
  let ?msg = "frame_node (wire_id SearchUserRequest) ''''"
  obtain m where m: "error_response_and_close sample_libs (wire_id SearchUserRequest) NotAuthenticated = Inr m"
    "cm_close_after_send m"
    by (simp add: error_response_and_close_def error_response_def node_of_json_def dump_text_def sample_json_def Let_def)
  then have "run login_env (handle_message sample_libs 0 ?msg) (pr_server (accepted 0)) = (Inr m, pr_server (accepted 0))"
    by (simp add: handle_message_def)
  from frame_is_handled [OF login_env_stateless libs_okD(3) [OF sample_libs_ok] accepted_reachable _ _ _ _ _ this]
  obtain p where "reachable sample_libs p" "pr_server p = deliver 0 m (pr_server (accepted 0))"
    "pr_blocked p = None" "pr_sent p = pr_sent (accepted 0)"
    by auto
  moreover have "pr_sent (accepted 0) = (\<lambda>_. [])"
    by (simp add: accepted_def start_def set_reader_def set_server_def empty_process_def fun_eq_iff)
  ultimately show ?thesis using m by metis
qed

theorem nothing_after_closing_message_witness:
  "\<exists>p. pr_sent p 0 \<noteq> [] \<and> cs_writer (session p 0) = WriterEnded"
proof -
  obtain p m where p: "reachable sample_libs p" "pr_server p = deliver 0 m (pr_server (accepted 0))"
    "pr_blocked p = None" "pr_sent p = (\<lambda>_. [])" "cm_close_after_send m"
    using refusal_is_delivered by blast
  have started: "0 \<in> pr_started p"
    using participants_of_reachable [OF p(1)] by (auto simp: p(2) deliver_def)
  have "channel_receive (session p 0) = Some (m, (session p 0)\<lparr>cs_channel := [], cs_writer := Writing m\<rparr>)"
    by (simp add: p(2) deliver_def try_send_def channel_room_def channel_size_def channel_receive_def)
  then have r1: "reachable sample_libs (with_session 0 (\<lambda>_. (session p 0)\<lparr>cs_channel := [], cs_writer := Writing m\<rparr>) p)"
      (is "reachable _ ?q")
    by (intro reach_step [OF p(1) write_take [OF p(3) started]])
      (simp add: p(2) deliver_def try_send_def channel_room_def channel_size_def)
  have r2: "reachable sample_libs (writer_written 0 m ?q)"
    by (rule reach_step [OF r1 write_done])
      (simp_all add: with_session_def set_server_def p(2,3) deliver_def try_send_def channel_room_def channel_size_def)
  have "pr_sent (writer_written 0 m ?q) 0 = [] @ [m] @ []"
    by (simp add: writer_written_def Let_def with_session_def set_server_def p(4))
  from this nothing_after_closing_message [OF r2 this p(5)] show ?thesis by (metis append_is_Nil_conv not_Cons_self2)
qed

section \<open>A login that outlives its session\<close>

lemma login_asks_first:
  "\<exists>k. \<forall>s::chat_server. settle (handle_message sample_libs 0 (sample_msg LoginRequest login_json)) s = (s, RedisC (R_GET (UserTokenKey 1)) k)"
  using cast_sample [of LoginRequest]
  by (simp add: handle_message_def handlers_init_def smap_simps Let_def login_def parse_login redis_get_def)

lemma login_records_server:
  "(R_SET (UserLoginServerPrefix @ to_string 1) (srv_name s), R_Value (R_Str ''OK''))
     \<in> redis_trace login_env (handle_message sample_libs 0 (sample_msg LoginRequest login_json)) s"
proof -
  have "(R_SET (UserLoginServerPrefix @ to_string 1) (srv_name s), R_Value (R_Str ''OK''))
      \<in> redis_trace login_env (login sample_libs 0 (sample_msg LoginRequest login_json)) s"
    by (simp add: login_def parse_login Let_def trace_bind run_bind login_env_calls login_env_user
        update_login_count_def) (simp add: set_user_login_server_def redis_set_def login_env_def UserUidInfoPrefix_def)
  then show ?thesis
    using cast_sample [of LoginRequest]
    by (simp add: handle_message_def handlers_init_def smap_simps Let_def subsetD [OF trace_catch])
qed

text \<open>C33: a login can outlive its session: a state is reachable in which the deadline has closed a session that waits
  for Redis's answer to its login, and from there the login goes on to mark the closed session as authenticated and to
  record this server in Redis as the one the user is on, though no session is left here.\<close>

theorem expired_login_goes_on:
  "\<exists>p q. reachable sample_libs p \<and> (session_step sample_libs)\<^sup>*\<^sup>* p q \<and>
     srv_participants (pr_server p) = [] \<and> \<not> cs_open (session p 0) \<and> \<not> cs_authenticated (session p 0) \<and>
     srv_participants (pr_server q) = [] \<and> \<not> cs_open (session q 0) \<and> cs_authenticated (session q 0) \<and>
     cs_uid (session q 0) = 1 \<and>
     (R_SET (UserLoginServerPrefix @ to_string 1) (srv_name (pr_server q)), R_Value (R_Str ''OK'')) \<in> pr_log q 0"
proof -
  let ?msg = "sample_msg LoginRequest login_json" and ?s = "pr_server (accepted 0)"
  let ?t = "stop 0 ?s"
  obtain k where k: "\<And>s::chat_server. settle (handle_message sample_libs 0 ?msg) s = (s, RedisC (R_GET (UserTokenKey 1)) k)"
    using login_asks_first by blast
  obtain a where a: "reachable sample_libs (proceed 0 ?msg (?s, RedisC (R_GET (UserTokenKey 1)) k) a)" (is "reachable _ ?a")
    using frame_starts_handler [OF libs_okD(3) [OF sample_libs_ok] accepted_reachable _ _ _ _ login_body_fits, of 0 0 "wire_id LoginRequest"] k
    by (auto simp: sample_msg_def)
  have session: "pr_server ?a = ?s" "pr_blocked ?a = None" "pr_reader ?a 0 = Handling ?msg (RedisC (R_GET (UserTokenKey 1)) k)"
    by (simp_all add: proceed_call waiting_simps)
  have "0 \<in> pr_started ?a" using started_if(1) [OF reachable_inv [OF a], of 0] session(3) by simp
  moreover have fresh: "session ?a 0 = fresh_session 0" "srv_participants (pr_server ?a) = [0]"
    by (simp_all add: session(1)) (simp_all add: accepted_def start_def process_defs empty_process_def join_def)
  ultimately have "session_step sample_libs ?a (check_login_deadline 0 ?a)"
    by (intro deadline) (simp_all add: session(2) fresh_session_def)
  moreover have "check_login_deadline 0 ?a = set_server ?t ?a"
    by (simp add: check_login_deadline_def fresh fresh_session_def) (simp add: session(1))
  ultimately have p: "reachable sample_libs (set_server ?t ?a)" (is "reachable _ ?p")
    using reach_step [OF a] by simp
  have "proceed 0 ?msg (settle (handle_message sample_libs 0 ?msg) ?t) ?p = ?p"
    using session(2,3) by (simp add: k proceed_call) (simp add: process_defs fun_upd_idem)
  moreover obtain m where "run login_env (handle_message sample_libs 0 ?msg) ?t = (Inr m, become 0 1 ?t)"
    using run_login_env by blast
  ultimately obtain g where g: "(session_step sample_libs)\<^sup>*\<^sup>* ?p (replied 0 m (become 0 1 ?t) g ?p)"
    "redis_trace login_env (handle_message sample_libs 0 ?msg) ?t \<subseteq> g"
    using run_is_steps [OF login_env_stateless, of "handle_message sample_libs 0 ?msg" ?t m "become 0 1 ?t" sample_libs 0 ?msg ?p] by auto
  let ?q = "replied 0 m (become 0 1 ?t) g ?p"
  have "srv_participants (pr_server ?p) = [] \<and> \<not> cs_open (session ?p 0) \<and> \<not> cs_authenticated (session ?p 0)"
    using fresh by (simp add: waiting_simps stop_def leave_def session(1) fresh_session_def)
  moreover have "pr_server ?q = deliver 0 m (become 0 1 ?t)" "pr_log ?q 0 = g"
    by (simp_all add: replied_def process_defs)
  moreover have "srv_participants ?t = []" "\<not> cs_open (srv_sessions ?t 0)"
    using fresh by (simp_all add: stop_def leave_def session(1))
  ultimately show ?thesis
    using p g login_records_server [of ?t]
    by (intro exI [of _ ?p] exI [of _ ?q]) (auto simp: become_def deliver_def)
qed

end
