(* ===== verification/SessionRefinement.thy ===== *)
theory SessionRefinement
  imports SessionProperties
begin

text \<open>
  What a session promises, without sockets, coroutines and channels: it is absent, anonymous, logged in or
  gone. Every step of the chat server is a step of this abstract session, for one session at a time.
\<close>

section \<open>The abstract session\<close>

datatype view = Absent | Anonymous | LoggedIn i64 | Gone

text \<open>\<open>granted\<close> says for which ids a login is allowed.\<close>

inductive view_step :: "(i64 \<Rightarrow> bool) \<Rightarrow> view \<Rightarrow> view \<Rightarrow> bool" for granted where
  view_accept: "view_step granted Absent Anonymous"
| view_login: "granted u \<Longrightarrow> view_step granted Anonymous (LoggedIn u)"
| view_again: "granted u \<Longrightarrow> view_step granted (LoggedIn v) (LoggedIn u)"
| view_close: "v \<noteq> Absent \<Longrightarrow> view_step granted v Gone"
| view_stay: "view_step granted v v"

inductive_simps view_step_simps [simp]:
  "view_step granted Gone v" "view_step granted v Absent" "view_step granted v Anonymous"
  "view_step granted v (LoggedIn u)"

section \<open>What the server's state is for one session\<close>

definition session_view :: "chat_process \<Rightarrow> nat \<Rightarrow> view" where
  "session_view p i =
     (if i \<notin> pr_started p then Absent
      else if \<not> cs_open (session p i) then Gone
      else if cs_authenticated (session p i) then LoggedIn (cs_uid (session p i))
      else Anonymous)"

text \<open>A login is allowed for the ids whose token Redis confirmed for a message this session handled.\<close>

definition granted_to :: "libs \<Rightarrow> chat_process \<Rightarrow> nat \<Rightarrow> i64 \<Rightarrow> bool" where
  "granted_to L p i u \<longleftrightarrow> (\<exists>msg\<in>set (pr_read p i). login_granted L msg (pr_log p i) u)"

section \<open>Changes of one session\<close>

definition same_view :: "chat_session \<Rightarrow> chat_session \<Rightarrow> bool" where
  "same_view c d \<longleftrightarrow> cs_open d = cs_open c \<and> cs_authenticated d = cs_authenticated c \<and> cs_uid d = cs_uid c"

definition changes :: "nat \<Rightarrow> 'w server \<Rightarrow> 'w server \<Rightarrow> bool" where
  "changes i s t \<longleftrightarrow> (\<forall>j. j \<noteq> i \<longrightarrow> same_view (srv_sessions s j) (srv_sessions t j)) \<and>
     (cs_open (srv_sessions t i) \<longrightarrow> cs_open (srv_sessions s i)) \<and>
     (cs_authenticated (srv_sessions s i) \<longrightarrow> cs_authenticated (srv_sessions t i))"

lemma same_view_refl [simp]: "same_view c c"
  by (simp add: same_view_def)

lemma changes_refl [simp]: "changes i s s"
  by (simp add: changes_def)

lemma changes_trans: "changes i s t \<Longrightarrow> changes i t u \<Longrightarrow> changes i s u"
  by (auto simp: changes_def same_view_def)

lemma changes_update:
  assumes "cs_open (f (srv_sessions s i)) \<longrightarrow> cs_open (srv_sessions s i)"
    and "cs_authenticated (srv_sessions s i) \<longrightarrow> cs_authenticated (f (srv_sessions s i))"
  shows "changes i s (update_session i f s)"
  using assms by (simp add: changes_def)

lemma changes_deliver [simp]: "changes i s (deliver j m s)"
  by (auto simp: changes_def same_view_def deliver_def)

lemma changes_stop [simp]: "changes i s (stop i s)"
  by (simp add: changes_def)

lemma changes_become [simp]: "changes i s (become i u s)"
  unfolding become_def by (rule changes_update) simp_all

lemma changes_handler: "handler_step L i msg log s t \<Longrightarrow> changes i s t"
  by (auto simp: handler_step_def notified_def)

lemma changes_settle:
  assumes "guar (handler_step L i msg) log c" "settle c s = (s', c')"
  shows "changes i s s'"
proof -
  have "changes i s u" if "changes i s t" "handler_step L i msg log t u" for t u
    by (rule changes_trans [OF that(1) changes_handler [OF that(2)]])
  then show ?thesis using settle_guar [OF assms, of "changes i s"] by simp
qed

lemma changes_service: "changes i s (snd (chat_service L q s))"
  using chat_service_step [OF prod.collapse [symmetric], of L q s] by (auto simp: notified_def)

section \<open>Changes of one step\<close>

text \<open>A step touches one session, or it accepts one.\<close>

definition one_session :: "nat \<Rightarrow> chat_process \<Rightarrow> chat_process \<Rightarrow> bool" where
  "one_session i p q \<longleftrightarrow> pr_started q = pr_started p \<and> changes i (pr_server p) (pr_server q)"

lemma one_session_proceed:
  assumes "guar (handler_step L i msg) log c" "pr_started p' = pr_started p"
  shows "one_session i p (proceed i msg (settle c (pr_server p)) p')"
proof -
  obtain s' c' where r: "settle c (pr_server p) = (s', c')" by force
  have c: "changes i (pr_server p) s'" by (rule changes_settle [OF assms(1) r])
  have "changes i (pr_server p) (deliver i m s')" "changes i (pr_server p) (stop i s')" for m
    using c changes_trans [OF c] by simp_all
  with c show ?thesis
    using assms(2) by (cases c') (simp_all add: r proceed_def one_session_def process_defs)
qed

lemma one_session_stop [simp]:
  "one_session i p (set_reader i r (set_server (stop i (pr_server p)) p))"
  by (simp add: one_session_def process_defs)

lemma one_session_with: 
  "cs_open (f (session p i)) \<longrightarrow> cs_open (session p i) \<Longrightarrow>
   cs_authenticated (session p i) \<longrightarrow> cs_authenticated (f (session p i)) \<Longrightarrow> one_session i p (with_session i f p)"
  unfolding one_session_def with_session_def set_server_def by (simp add: changes_update)

lemma step_one_session:
  assumes "reachable L p" "session_step L p q"
  shows "(\<exists>i. one_session i p q) \<or> (\<exists>i m. i \<notin> pr_started p \<and> q = start i m p)"
  using assms(2)
proof cases
  case (accept i memory) then show ?thesis by blast
next
  case (arrive i bytes) then show ?thesis by (auto simp: one_session_def)
next
  case (read_head i)
  then have "one_session i p q"
    by (simp add: reader_head_def Let_def one_session_def process_defs split: prod.split)
  then show ?thesis by blast
next
  case (read_body i n)
  then have "one_session i p q"
    using one_session_proceed [OF guar_handle_message] by (simp add: reader_body_def Let_def)
  then show ?thesis by blast
next
  case (read_error i n)
  then have "one_session i p q" by (simp add: reader_failed_def)
  then show ?thesis by blast
next
  case (redis_reply i msg c k r)
  then have "one_session i p q"
    using handling_inv [OF reachable_inv [OF assms(1)] redis_reply(3)]
    by (auto intro!: one_session_proceed)
  then show ?thesis by blast
next
  case (sql_reply i msg st k rs)
  then have "one_session i p q"
    using handling_inv [OF reachable_inv [OF assms(1)] sql_reply(3)] by (auto intro!: one_session_proceed)
  then show ?thesis by blast
next
  case (rpc_reply i msg c k rr)
  then have "one_session i p q"
    using handling_inv [OF reachable_inv [OF assms(1)] rpc_reply(3)] by (auto intro!: one_session_proceed)
  then show ?thesis by blast
next
  case (uuid_reply i msg k u)
  then have "one_session i p q"
    using handling_inv [OF reachable_inv [OF assms(1)] uuid_reply(3)] by (auto intro!: one_session_proceed)
  then show ?thesis by blast
next
  case (write_take i out c')
  then have "one_session i p q"
    using one_session_with [of "\<lambda>_. c'" p i] by (auto simp: channel_receive_def split: list.splits)
  then show ?thesis by blast
next
  case (write_done i out)
  then have "one_session i p q"
    by (simp add: writer_written_def Let_def one_session_def process_defs changes_def)
  then show ?thesis by blast
next
  case (write_error i out)
  then have "one_session i p q"
    by (simp add: writer_failed_def one_session_def process_defs changes_def)
  then show ?thesis by blast
next
  case (deadline i)
  then have "one_session i p q"
    by (simp add: check_login_deadline_def one_session_def process_defs changes_def)
  then show ?thesis by blast
next
  case (notify c)
  then have "one_session 0 p q" by (simp add: one_session_def process_defs changes_service)
  then show ?thesis by blast
qed

section \<open>The simulation\<close>

lemma view_granted:
  "reachable L q \<Longrightarrow> session_view q i = LoggedIn u \<Longrightarrow> granted_to L q i u"
  using reachable_inv [of L q]
  by (auto simp: session_view_def granted_to_def process_inv_def server_inv_def split: if_splits)

lemma view_change:
  assumes "one_session i p q" "\<And>u. session_view q i = LoggedIn u \<Longrightarrow> G u"
  shows "j \<noteq> i \<Longrightarrow> session_view q j = session_view p j" "view_step G (session_view p i) (session_view q i)"
proof -
  show "j \<noteq> i \<Longrightarrow> session_view q j = session_view p j"
    using assms(1) by (simp add: one_session_def changes_def same_view_def session_view_def)
  show "view_step G (session_view p i) (session_view q i)"
    using assms by (auto simp: one_session_def changes_def session_view_def intro: view_step.intros)
qed

lemma view_start:
  assumes "i \<notin> pr_started p"
  shows "j \<noteq> i \<Longrightarrow> session_view (start i m p) j = session_view p j"
    "view_step G (session_view p i) (session_view (start i m p) i)"
  using assms by (auto simp: session_view_def start_def process_defs join_def fresh_session_def)

text \<open>C3: the server refines the abstract session: from every reachable state, every step is a step of the
  abstract session for one session and leaves the view of all others alone; a session becomes logged in
  only under an id that Redis granted to it, and one that is gone never comes back.\<close>

theorem sessions_refine_views:
  assumes "reachable L p" "session_step L p q"
  shows "\<exists>i. view_step (granted_to L q i) (session_view p i) (session_view q i) \<and>
     (\<forall>j. j \<noteq> i \<longrightarrow> session_view q j = session_view p j)"
proof -
  have q: "reachable L q" by (rule reach_step [OF assms])
  from step_one_session [OF assms] show ?thesis
  proof (elim disjE exE conjE)
    fix i assume "one_session i p q"
    from view_change [OF this, of "granted_to L q i"] view_granted [OF q] show ?thesis by blast
  next
    fix i m assume i: "i \<notin> pr_started p" "q = start i m p"
    from view_start [OF i(1)] show ?thesis unfolding i(2) by blast
  qed
qed

theorem sessions_refine_views_witness:
  "\<exists>i. view_step (granted_to sample_libs (check_login_deadline 0 (accepted 5)) i)
       (session_view (accepted 5) i) (session_view (check_login_deadline 0 (accepted 5)) i) \<and>
     (\<forall>j. j \<noteq> i \<longrightarrow> session_view (check_login_deadline 0 (accepted 5)) j = session_view (accepted 5) j)"
proof -
  have "cs_deadline (session (accepted 5) 0)"
    by (simp add: accepted_def start_def set_reader_def set_server_def fresh_session_def join_def)
  then have "session_step sample_libs (accepted 5) (check_login_deadline 0 (accepted 5))"
    by (intro deadline) simp_all
  from sessions_refine_views [OF accepted_reachable this] show ?thesis .
qed

end
