(* ===== verification/WireSafety.thy ===== *)
theory WireSafety
  imports SessionProperties Replies
begin

text \<open>
  What a client can receive: every node a chat server writes was built by a constructor of \<^verbatim>\<open>MsgNode\<close>, and it
  is a notification or the answer to a message this session has sent. So the bytes a session writes are a
  stream of frames, and the reader at the other end gets them back.
\<close>

section \<open>What a coroutine returns\<close>

text \<open>\<open>returns Q c\<close>: whatever the services answer and whatever state it finds, \<open>c\<close> throws or returns a value of \<open>Q\<close>.\<close>

primrec returns :: "('a \<Rightarrow> bool) \<Rightarrow> ('s, 'a) cor \<Rightarrow> bool" where
  "returns Q (Done x) = Q x"
| "returns Q (Throw e) = True"
| "returns Q (RedisC q k) = (\<forall>r. returns Q (k r))"
| "returns Q (SqlC q k) = (\<forall>r. returns Q (k r))"
| "returns Q (RpcC q k) = (\<forall>r. returns Q (k r))"
| "returns Q (UuidC k) = (\<forall>u. returns Q (k u))"
| "returns Q (Get k) = (\<forall>s. returns Q (k s))"
| "returns Q (Upd g k) = (\<forall>s. returns Q (k s))"

lemma returns_bind: "(\<And>x. returns Q (f x)) \<Longrightarrow> returns Q (bind m f)"
  by (induction m) auto

lemma returns_bind_of: "returns R m \<Longrightarrow> (\<And>x. R x \<Longrightarrow> returns Q (f x)) \<Longrightarrow> returns Q (bind m f)"
  by (induction m) auto

lemma returns_catch: "returns Q m \<Longrightarrow> (\<And>e. returns Q (h e)) \<Longrightarrow> returns Q (catch m h)"
  by (induction m) auto

lemma returns_lift: "returns Q (lift r) \<longleftrightarrow> (\<forall>x. r = Inr x \<longrightarrow> Q x)"
  by (cases r) auto

lemma returns_mono: "returns Q c \<Longrightarrow> (\<And>x. Q x \<Longrightarrow> R x) \<Longrightarrow> returns R c"
  by (induction c) auto

lemma returns_settle: "returns Q c \<Longrightarrow> settle c s = (s', c') \<Longrightarrow> returns Q c'"
  by (induction c arbitrary: s) auto

section \<open>Replies and notifications\<close>

definition built :: "libs \<Rightarrow> channel_message \<Rightarrow> bool" where
  "built L m \<longleftrightarrow> (\<exists>i b. cm_msg m = mk_node (lb_platform L) i b)"

definition notification :: "libs \<Rightarrow> channel_message \<Rightarrow> bool" where
  "notification L m \<longleftrightarrow> built L m \<and> is_notification m"

text \<open>The id of a reply is the id of the request, or the response id the protocol pairs with it.\<close>

definition answers_id :: "libs \<Rightarrow> msg_node \<Rightarrow> u32 \<Rightarrow> bool" where
  "answers_id L msg i \<longleftrightarrow> i = mn_id msg \<or>
     (\<exists>k. cast_message_id (lb_enum L) (ucast (mn_id msg)) = Some k \<and> i = wire_id (get_response_id k))"

definition reply_to :: "libs \<Rightarrow> msg_node \<Rightarrow> channel_message \<Rightarrow> bool" where
  "reply_to L msg m \<longleftrightarrow> built L m \<and> answers_id L msg (mn_id (cm_msg m))"

lemma built_node_of_json: "node_of_json L i j = Inr n \<Longrightarrow> \<exists>b. n = mk_node (lb_platform L) i b"
  by (auto simp: node_of_json_def split: sum.splits)

lemma built_replies:
  "error_response L i e = Inr m \<Longrightarrow> built L m \<and> mn_id (cm_msg m) = i"
  "error_response_and_close L i e = Inr m \<Longrightarrow> built L m \<and> mn_id (cm_msg m) = i"
  "message_response L i = Inr m \<Longrightarrow> built L m \<and> mn_id (cm_msg m) = i"
  "built L (empty_response L i) \<and> mn_id (cm_msg (empty_response L i)) = i"
  by (auto simp: built_def error_response_def error_response_and_close_def message_response_def
      empty_response_def channel_of_def map_sum_def Let_def split: sum.splits dest!: built_node_of_json) blast+

lemma reply_lift:
  assumes "answers_id L msg i"
  shows "returns (reply_to L msg) (lift (error_response L i e))"
    "returns (reply_to L msg) (lift (error_response_and_close L i e))"
    "returns (reply_to L msg) (lift (message_response L i))"
    "returns (reply_to L msg) (lift (map_sum id channel_of (node_of_json L i j)))"
  using assms built_replies [of L i] built_node_of_json [of L i j]
  by (auto simp: returns_lift reply_to_def map_sum_def built_def channel_of_def split: sum.splits)

lemma answers_own_id [simp]: "answers_id L msg (mn_id msg)"
  by (simp add: answers_id_def)

lemmas reply_intros = reply_lift returns_bind

section \<open>The handlers reply\<close>

lemma login_replies:
  "answers_id L msg (wire_id LoginResponse) \<Longrightarrow> returns (reply_to L msg) (login L me msg)"
  unfolding login_def Let_def by (auto intro!: reply_intros split: option.split)

lemma search_user_replies:
  assumes "answers_id L msg (wire_id SearchUserResponse)"
  shows "returns (reply_to L msg) (search_user L me msg)"
proof -
  have "reply_to L msg (channel_of (mk_node (lb_platform L) (wire_id SearchUserResponse) b))" for b
    using assms by (auto simp: reply_to_def built_def channel_of_def)
  then have found: "returns (reply_to L msg) (bind (lift (error_response L (wire_id SearchUserResponse) UserNotFound)) (\<lambda>not_found.
      Done (case r of Some u \<Rightarrow> channel_of (mk_node (lb_platform L) (wire_id SearchUserResponse)
          (Some (bj_serialize_user L u))) | None \<Rightarrow> not_found)))" for r
    by (intro returns_bind_of [OF reply_lift(1) [OF assms]]) (simp split: option.split)
  show ?thesis
    unfolding search_user_def Let_def
  proof (cases "parse (lb_json L) (node_body msg)", goal_cases)
    case 1
    then show ?case using reply_lift(1) [OF assms] by simp
  next
    case (2 request)
    then show ?case by (simp only: option.case) (rule returns_bind, rule found)
  qed
qed

lemma notify_replies:
  "returns Q a \<Longrightarrow> returns Q b \<Longrightarrow> returns Q (notify_participant uid m a b)"
  by (auto simp: notify_participant_def split: option.split sum.split)

lemma add_friend_replies:
  "answers_id L msg (wire_id AddFriendResponse) \<Longrightarrow> returns (reply_to L msg) (add_friend L me msg)"
  unfolding add_friend_def Let_def
  by (auto intro!: reply_intros notify_replies split: option.split sum.split)

lemma auth_friend_replies:
  "answers_id L msg (wire_id AuthFriendResponse) \<Longrightarrow> returns (reply_to L msg) (auth_friend L me msg)"
  unfolding auth_friend_def Let_def
  by (auto intro!: reply_intros notify_replies split: option.split sum.split)

lemma text_chat_msg_replies:
  "answers_id L msg (wire_id TextChatMsgRsp) \<Longrightarrow> returns (reply_to L msg) (text_chat_msg L me msg)"
  unfolding text_chat_msg_def Let_def
  by (auto intro!: reply_intros notify_replies split: option.split sum.split)

lemmas handler_replies = login_replies search_user_replies add_friend_replies auth_friend_replies
  text_chat_msg_replies

lemma handle_message_returns: "returns (reply_to L msg) (handle_message L me msg)"
proof -
  have h: "returns (reply_to L msg) (h L me msg)"
    if "cast_message_id (lb_enum L) (ucast (mn_id msg)) = Some k" "smap_find handlers_init k = Some h" for k h
  proof -
    have "answers_id L msg (wire_id (get_response_id k))"
      using that(1) by (auto simp: answers_id_def)
    then show ?thesis using handlers_init_cases [OF that(2)] handler_replies by auto
  qed
  have "reply_to L msg (empty_response L (mn_id msg))"
    using built_replies(4) [of L "mn_id msg"] by (simp add: reply_to_def)
  moreover have "answers_id L msg (wire_id (get_response_id k))"
    if "cast_message_id (lb_enum L) (ucast (mn_id msg)) = Some k" for k
    using that by (auto simp: answers_id_def)
  ultimately show ?thesis
    using h unfolding handle_message_def Let_def
    by (auto intro!: reply_lift returns_catch split: option.split exn.split)
qed

section \<open>The notifications\<close>

text \<open>A handler or the service puts nothing but notifications into the channels.\<close>

definition adds :: "libs \<Rightarrow> 'w server \<Rightarrow> 'w server \<Rightarrow> bool" where
  "adds L s t \<longleftrightarrow> (\<forall>j. cs_writer (srv_sessions t j) = cs_writer (srv_sessions s j) \<and>
     (\<forall>m\<in>set (cs_channel (srv_sessions t j)). m \<in> set (cs_channel (srv_sessions s j)) \<or> notification L m))"

lemma adds_refl [simp]: "adds L s s"
  by (simp add: adds_def)

lemma adds_trans: "adds L s t \<Longrightarrow> adds L t u \<Longrightarrow> adds L s u"
  by (simp add: adds_def) blast

lemma try_send_channel: "m' \<in> set (cs_channel (snd (try_send m c))) \<Longrightarrow> m' = m \<or> m' \<in> set (cs_channel c)"
  by (auto simp: try_send_def split: if_splits)

lemma adds_deliver: "notification L m \<Longrightarrow> adds L s (deliver i m s)"
  by (auto simp: adds_def deliver_def dest!: try_send_channel)

lemma adds_become [simp]: "adds L s (become i u s)"
  by (simp add: adds_def become_def set_uid_def mark_authenticated_def)

lemma notification_of_json:
  "node_of_json L (wire_id k) j = Inr n \<Longrightarrow> k \<in> {NotifyAddFriend, NotifyAuthFriend, NotifyTextChatMsg} \<Longrightarrow>
   notification L (channel_of n)"
  using built_node_of_json [of L "wire_id k" j n] node_of_json_id [of L "wire_id k" j n]
  by (auto simp: notification_def built_def channel_of_def is_notification_def)

lemma guar_adds_notify:
  assumes "k \<in> {NotifyAddFriend, NotifyAuthFriend, NotifyTextChatMsg}" "quiet a" "quiet b"
  shows "guar (\<lambda>_. adds L) log (notify_participant uid (node_of_json L (wire_id k) j) a b)"
proof -
  have "adds L s (case (get_participant uid s, node_of_json L (wire_id k) j) of
      (Some target, Inr n) \<Rightarrow> deliver target (channel_of n) s | _ \<Rightarrow> s)" for s :: "'a server"
    using notification_of_json [OF _ assms(1), of L j] adds_deliver
    by (auto split: option.split sum.split)
  then show ?thesis
    using assms(2,3) by (auto simp: notify_participant_def intro: quiet_guar split: option.split sum.split)
qed

lemma log_mono_adds [simp]: "log_mono (\<lambda>_. adds L)"
  by (simp add: log_mono_def)

lemma adds_bind:
  "quiet m \<Longrightarrow> (\<And>x L'. guar (\<lambda>_. adds L) L' (f x)) \<Longrightarrow> guar (\<lambda>_. adds L) log (bind m f)"
  by (rule guar_bind) (auto intro: quiet_guar)

lemma adds_login: "guar (\<lambda>_. adds L) log (login L me msg)"
  using adds_become unfolding login_def Let_def become_def
  by (auto intro!: adds_bind split: option.split)

lemma adds_add_friend: "guar (\<lambda>_. adds L) log (add_friend L me msg)"
  unfolding add_friend_def Let_def
  by (auto intro!: adds_bind guar_adds_notify split: option.split sum.split)

lemma adds_auth_friend: "guar (\<lambda>_. adds L) log (auth_friend L me msg)"
  unfolding auth_friend_def Let_def
  by (auto intro!: adds_bind guar_adds_notify split: option.split sum.split)

lemma adds_text_chat_msg: "guar (\<lambda>_. adds L) log (text_chat_msg L me msg)"
  unfolding text_chat_msg_def Let_def
  by (auto intro!: adds_bind guar_adds_notify split: option.split sum.split)

lemma adds_search_user: "guar (\<lambda>_. adds L) log (search_user L me msg)"
  by (rule quiet_guar [OF quiet_search_user])

lemma adds_with_recovery:
  assumes "smap_find handlers_init k = Some h" "\<And>e. quiet (r e)"
  shows "guar (\<lambda>_. adds L) log (catch (h L me msg) r)"
  using handlers_init_cases [OF assms(1)] assms(2)
  by (intro guar_catch) (auto intro: quiet_guar adds_login adds_search_user adds_add_friend
      adds_auth_friend adds_text_chat_msg)

lemma adds_handle_message: "guar (\<lambda>_. adds L) log (handle_message L me msg)"
  unfolding handle_message_def Let_def
  by (auto intro!: adds_with_recovery split: option.split exn.split)

lemma adds_settle:
  assumes "guar (\<lambda>_. adds L) log c" "settle c s = (s', c')"
  shows "guar (\<lambda>_. adds L) log c' \<and> adds L s s'"
  by (rule settle_guar [OF assms]) (auto intro: adds_trans)

lemma adds_notify_session:
  "k \<in> {NotifyAddFriend, NotifyAuthFriend, NotifyTextChatMsg} \<Longrightarrow> adds L s (snd (notify_session L j uid k s))"
  using notification_of_json [of L k j] adds_deliver
  by (auto simp: notify_session_def split: option.split sum.split)

lemma notify_rpc_state:
  "snd (NotifyAddFriend_rpc L a s) = snd (notify_session L (notify_add_friend_msg_to_json (notify_add_friend_of_pb a))
     (widen_i64 (afr_touid a)) NotifyAddFriend s)"
  "snd (NotifyAuthFriend_rpc L b s) = snd (notify_session L (notify_auth_friend_msg_to_json (notify_auth_friend_of_pb b))
     (widen_i64 (aur_touid b)) NotifyAuthFriend s)"
  "snd (NotifyTextChatMsg_rpc L c s) = snd (notify_session L (text_chat_msg_to_json (notify_text_chat_of_pb c))
     (widen_i64 (tcr_touid c)) NotifyTextChatMsg s)"
  by (simp_all add: NotifyAddFriend_rpc_def NotifyAuthFriend_rpc_def NotifyTextChatMsg_rpc_def
      case_prod_beta split: sum.split)

lemma service_state:
  "snd (chat_service L (CallNotifyAddFriend a) s) = snd (NotifyAddFriend_rpc L a s)"
  "snd (chat_service L (CallNotifyAuthFriend b) s) = snd (NotifyAuthFriend_rpc L b s)"
  "snd (chat_service L (CallNotifyTextChatMsg c) s) = snd (NotifyTextChatMsg_rpc L c s)"
  by (simp_all split: prod.split sum.split)

lemma adds_service: "adds L s (snd (chat_service L q s))"
  by (cases q) (simp_all add: service_state notify_rpc_state adds_notify_session
      del: chat_service.simps(1-3))

section \<open>The invariant\<close>

definition expected :: "libs \<Rightarrow> msg_node list \<Rightarrow> channel_message \<Rightarrow> bool" where
  "expected L R m \<longleftrightarrow> notification L m \<or> (\<exists>msg\<in>set R. reply_to L msg m)"

text \<open>The messages of a session that are not written yet.\<close>

definition pending :: "chat_session \<Rightarrow> channel_message set" where
  "pending c = set (cs_channel c) \<union> (case cs_writer c of Writing m \<Rightarrow> {m} | _ \<Rightarrow> {})"

text \<open>\<open>R\<close> are the nodes the sessions have read, \<open>S\<close> the messages they have written.\<close>

definition server_wire ::
    "libs \<Rightarrow> (nat \<Rightarrow> msg_node list) \<Rightarrow> (nat \<Rightarrow> channel_message list) \<Rightarrow> chat_server \<Rightarrow> bool" where
  "server_wire L R S s \<longleftrightarrow> (\<forall>i. \<forall>m\<in>pending (srv_sessions s i) \<union> set (S i). expected L (R i) m)"

definition handling_ok :: "libs \<Rightarrow> msg_node list \<Rightarrow> reader_state \<Rightarrow> bool" where
  "handling_ok L R r \<longleftrightarrow> (\<forall>msg c. r = Handling msg c \<longrightarrow>
     msg \<in> set R \<and> guar (\<lambda>_. adds L) {} c \<and> returns (reply_to L msg) c)"

definition wire_inv :: "libs \<Rightarrow> chat_process \<Rightarrow> bool" where
  "wire_inv L p \<longleftrightarrow> server_wire L (pr_read p) (pr_sent p) (pr_server p) \<and>
     (\<forall>i. handling_ok L (pr_read p i) (pr_reader p i))"

lemma guar_any_log: "guar (\<lambda>_. G) L c \<Longrightarrow> guar (\<lambda>_. G) L' c"
  by (induction c arbitrary: L L') (simp_all, blast+)

lemma expected_mono: "expected L R m \<Longrightarrow> set R \<subseteq> set R' \<Longrightarrow> expected L R' m"
  by (auto simp: expected_def)

lemma handling_ok_simps [simp]: "handling_ok L R ReadHeader" "handling_ok L R (ReadBody n)" "handling_ok L R ReaderEnded"
  "handling_ok L R (Handling msg c) \<longleftrightarrow>
     msg \<in> set R \<and> guar (\<lambda>_. adds L) {} c \<and> returns (reply_to L msg) c"
  by (simp_all add: handling_ok_def)

lemma handling_ok_mono: "handling_ok L R r \<Longrightarrow> set R \<subseteq> set R' \<Longrightarrow> handling_ok L R' r"
  by (auto simp: handling_ok_def)

section \<open>Changes of the server\<close>

lemma pending_adds: "adds L s t \<Longrightarrow> m \<in> pending (srv_sessions t i) \<Longrightarrow> m \<in> pending (srv_sessions s i) \<or> notification L m"
  by (auto simp: adds_def pending_def)

lemma server_wire_adds: "server_wire L R S s \<Longrightarrow> adds L s t \<Longrightarrow> server_wire L R S t"
  unfolding server_wire_def by (meson UnE UnI1 UnI2 expected_def pending_adds)

lemma server_wire_update:
  "server_wire L R S s \<Longrightarrow> pending (f (srv_sessions s i)) \<subseteq> pending (srv_sessions s i) \<Longrightarrow>
   server_wire L R S (update_session i f s)"
  by (auto simp: server_wire_def)

lemma pending_send: "pending (snd (try_send m c)) \<subseteq> insert m (pending c)"
  by (auto simp: pending_def try_send_def split: if_splits)

lemma server_wire_deliver:
  "server_wire L R S s \<Longrightarrow> expected L (R i) m \<Longrightarrow> server_wire L R S (deliver i m s)"
  using pending_send [of m "srv_sessions s i"] by (auto simp: server_wire_def deliver_def)

lemma server_wire_stop [simp]: "server_wire L R S (stop i s) = server_wire L R S s"
  by (auto simp: server_wire_def pending_def split: if_splits)

lemma server_wire_sent:
  "server_wire L R S s \<Longrightarrow> expected L (R i) m \<Longrightarrow> server_wire L R (S(i := S i @ [m])) s"
  by (auto simp: server_wire_def)

lemma server_wire_read:
  "server_wire L R S s \<Longrightarrow> (\<And>i. set (R i) \<subseteq> set (R' i)) \<Longrightarrow> server_wire L R' S s"
  unfolding server_wire_def using expected_mono by blast

section \<open>Every step keeps it\<close>

lemma proceed_wire:
  assumes "wire_inv L p" "msg \<in> set (pr_read p i)" "guar (\<lambda>_. adds L) {} c" "returns (reply_to L msg) c"
  shows "wire_inv L (proceed i msg (settle c (pr_server p)) p)"
proof -
  obtain s c' where r: "settle c (pr_server p) = (s, c')" by force
  have c': "guar (\<lambda>_. adds L) {} c'" "adds L (pr_server p) s" "returns (reply_to L msg) c'"
    using adds_settle [OF assms(3) r] returns_settle [OF assms(4) r] by simp_all
  then have s: "server_wire L (pr_read p) (pr_sent p) s"
    using assms(1) server_wire_adds [of L _ _ "pr_server p" s] by (simp add: wire_inv_def)
  have "server_wire L (pr_read p) (pr_sent p) (deliver i m s)" if "reply_to L msg m" for m
    using server_wire_deliver [OF s] that assms(2) by (auto simp: expected_def)
  with s c' assms(1,2) show ?thesis
    by (cases c') (auto simp: r proceed_def wire_inv_def process_defs)
qed

lemma wire_inv_simps [simp]:
  "wire_inv L (p\<lparr>pr_inbox := b\<rparr>) = wire_inv L p" "wire_inv L (p\<lparr>pr_log := g\<rparr>) = wire_inv L p"
  by (simp_all add: wire_inv_def)

lemma wire_inv_stop: "wire_inv L p \<Longrightarrow> wire_inv L (set_server (stop i (pr_server p)) p)"
  by (simp add: wire_inv_def set_server_def)

lemma wire_inv_with:
  "wire_inv L p \<Longrightarrow> pending (f (session p i)) \<subseteq> pending (session p i) \<Longrightarrow> wire_inv L (with_session i f p)"
  by (simp add: wire_inv_def process_defs server_wire_update)

lemma wire_inv_reader: "wire_inv L p \<Longrightarrow> handling_ok L (pr_read p i) r \<Longrightarrow> wire_inv L (set_reader i r p)"
  by (simp add: wire_inv_def process_defs)

lemma wire_inv_read:
  assumes "wire_inv L p"
  shows "wire_inv L (p\<lparr>pr_read := (pr_read p)(i := pr_read p i @ [msg])\<rparr>)"
  using assms server_wire_read [of L "pr_read p" "pr_sent p" "pr_server p"] 
    handling_ok_mono [of L "pr_read p i" "pr_reader p i" "pr_read p i @ [msg]"]
  by (simp add: wire_inv_def subset_insertI)

lemma wire_inv_sent:
  "wire_inv L p \<Longrightarrow> expected L (pr_read p i) m \<Longrightarrow>
   wire_inv L (p\<lparr>pr_sent := (pr_sent p)(i := pr_sent p i @ [m])\<rparr>)"
  by (simp add: wire_inv_def server_wire_sent)

lemma wire_inv_writing: "wire_inv L p \<Longrightarrow> cs_writer (session p i) = Writing m \<Longrightarrow> expected L (pr_read p i) m"
  by (auto simp: wire_inv_def server_wire_def pending_def)

lemma wire_inv_handling:
  "wire_inv L p \<Longrightarrow> pr_reader p i = Handling msg c \<Longrightarrow>
   msg \<in> set (pr_read p i) \<and> guar (\<lambda>_. adds L) {} c \<and> returns (reply_to L msg) c"
  unfolding wire_inv_def by (metis handling_ok_simps(4))

lemma step_wire:
  assumes "wire_inv L p" "session_step L p q"
  shows "wire_inv L q"
  using assms(2)
proof cases
  case (accept i memory)
  then show ?thesis
    using assms(1) by (auto simp: wire_inv_def start_def process_defs join_def server_wire_def pending_def fresh_session_def)
next
  case (arrive i bytes)
  then show ?thesis using assms(1) by simp
next
  case (read_head i)
  then show ?thesis
    using assms(1) wire_inv_stop [OF assms(1), of i]
    by (auto simp: reader_head_def Let_def set_reader_inbox intro!: wire_inv_reader split: prod.split)
next
  case (read_body i n)
  let ?msg = "read_body (take (body_size n) (pr_inbox p i)) n"
  let ?q = "p\<lparr>pr_inbox := (pr_inbox p)(i := drop (body_size n) (pr_inbox p i))\<rparr>"
  have "wire_inv L (?q\<lparr>pr_read := (pr_read ?q)(i := pr_read ?q i @ [?msg])\<rparr>)" (is "wire_inv L ?p")
    by (rule wire_inv_read) (simp add: assms(1))
  from proceed_wire [OF this _ adds_handle_message handle_message_returns, of ?msg i i]
  show ?thesis using read_body(1) by (simp add: reader_body_def Let_def)
next
  case (read_error i n)
  then show ?thesis
    using wire_inv_reader [OF wire_inv_stop [OF assms(1)], of i i ReaderEnded]
    by (simp add: reader_failed_def)
next
  case (redis_reply i msg c k r)
  from wire_inv_handling [OF assms(1) this(3)] show ?thesis
    using assms(1) proceed_wire [of L "p\<lparr>pr_log := (pr_log p)(i := insert (c, r) (pr_log p i))\<rparr>" msg i "k r"]
      guar_any_log [of "adds L" "insert (c, r) {}" "k r" "{}"] redis_reply(1) by simp
next
  case (sql_reply i msg st k rs)
  from wire_inv_handling [OF assms(1) this(3)] show ?thesis
    using sql_reply(1) by (simp add: proceed_wire [OF assms(1)])
next
  case (rpc_reply i msg c k rr)
  from wire_inv_handling [OF assms(1) this(3)] show ?thesis
    using rpc_reply(1) by (simp add: proceed_wire [OF assms(1)])
next
  case (uuid_reply i msg k u)
  from wire_inv_handling [OF assms(1) this(3)] show ?thesis
    using uuid_reply(1) by (simp add: proceed_wire [OF assms(1)])
next
  case (write_take i out c')
  then have "pending c' \<subseteq> pending (session p i)"
    by (auto simp: channel_receive_def pending_def split: list.splits)
  then show ?thesis using write_take(1) wire_inv_with [OF assms(1), of "\<lambda>_. c'"] by simp
next
  case (write_done i out)
  have "wire_inv L (p\<lparr>pr_sent := (pr_sent p)(i := pr_sent p i @ [out])\<rparr>)" (is "wire_inv L ?p")
    by (rule wire_inv_sent [OF assms(1) wire_inv_writing [OF assms(1) write_done(3)]])
  from this wire_inv_stop [OF this, of i] show ?thesis
    using write_done(1) unfolding writer_written_def Let_def
    by (auto intro!: wire_inv_with) (auto simp: pending_def set_server_def)
next
  case (write_error i out)
  then show ?thesis
    using wire_inv_with [OF wire_inv_stop [OF assms(1)], of "\<lambda>c. c\<lparr>cs_writer := WriterEnded\<rparr>" i i]
    by (simp add: writer_failed_def) (auto simp: pending_def set_server_def)
next
  case (deadline i)
  then show ?thesis
    using wire_inv_with [OF assms(1), of "\<lambda>c. c\<lparr>cs_deadline := False\<rparr>" i] wire_inv_stop [OF assms(1), of i]
    by (simp add: check_login_deadline_def) (auto simp: pending_def)
next
  case (notify c)
  then show ?thesis
    using assms(1) server_wire_adds [OF _ adds_service, of L "pr_read p" "pr_sent p" "pr_server p" c]
    by (simp add: wire_inv_def set_server_def)
qed

lemma reachable_wire: "reachable L p \<Longrightarrow> wire_inv L p"
proof (induction rule: reachable.induct)
  case (reach_init p)
  then show ?case
    by (auto simp: initial_def wire_inv_def server_wire_def pending_def)
next
  case (reach_step p q)
  then show ?case by (simp add: step_wire)
qed

section \<open>Frames\<close>

text \<open>A built node is a frame as long as its length is not negative, which takes a text of 2 GiB.\<close>

lemma valid_built:
  assumes "platform_ok P" "0 \<le> sint (mn_body_length (mk_node P i body))"
  shows "valid_node (mk_node P i body)"
proof (cases body)
  case None
  then show ?thesis
    using assms(1) by (simp add: mk_node_None valid_node_def) (intro exI [of _ i] exI [of _ "[]"], simp)
next
  case (Some b)
  let ?l = "word_of_nat (strlen b) :: i32"
  show ?thesis
  proof (cases "sint ?l > int MAX_LENGTH")
    case True
    then have "mk_node P i (Some b) = frame_node i []"
      using encode_header_fresh [OF assms(1), of 0 i]
      by (simp add: mk_node_def Let_def set_body_length_def frame_node_def blit_def empty_node_def)
    then show ?thesis
      using Some unfolding valid_node_def by (intro exI [of _ i] exI [of _ "[]"]) simp
  next
    case False
    have "mn_body_length (mk_node P i (Some b)) = ?l"
      using False by (simp add: mk_node_def Let_def set_body_length_def encode_header_def)
    then have pos: "0 \<le> sint ?l" using assms(2) Some by simp
    define n where "n = nat (sint ?l)"
    have n: "n \<le> MAX_LENGTH" "sint ?l = int n" "?l = word_of_nat n"
      using pos False by (simp_all add: n_def)
    have "unat ?l = n" using n by (simp add: unat_of_nat take_bit_nat_eq_self MAX_LENGTH_def)
    then have "n \<le> strlen b" by (simp add: unat_of_nat)
    then have len: "n \<le> length b" using length_takeWhile_le le_trans by (fastforce simp: strlen_def)
    have size: "unat (scast ?l :: u64) = n"
      using n by (simp add: scast_eq unat_of_nat take_bit_nat_eq_self MAX_LENGTH_def)
    have "mk_node P i (Some b) = frame_node i (take n b)"
      using encode_header_fresh [OF assms(1) n(1), of i] size False len n(1)
      by (simp add: mk_node_def Let_def set_body_length_def n(3) frame_node_def blit_def min_absorb2
          del: replicate_Suc)
    then show ?thesis
      using Some n(1) unfolding valid_node_def by (intro exI [of _ i] exI [of _ "take n b"]) simp
  qed
qed

lemma frame_length_positive: "length b \<le> MAX_LENGTH \<Longrightarrow> 0 \<le> sint (mn_body_length (frame_node i b))"
  by (simp add: frame_node_def sint_small_i32 MAX_LENGTH_def)

text \<open>A refusal, on its way and written: a run whose stream is not empty.\<close>

lemma refusal_is_written:
  "\<exists>p m. reachable sample_libs p \<and> pr_sent p 0 = [m] \<and> 0 \<le> sint (mn_body_length (cm_msg m))"
proof -
  obtain p m where p: "reachable sample_libs p" "pr_server p = deliver 0 m (pr_server (accepted 0))"
    "pr_blocked p = None" "pr_sent p = (\<lambda>_. [])"
    and m: "error_response_and_close sample_libs (wire_id SearchUserRequest) NotAuthenticated = Inr m"
    using refusal_is_delivered by blast
  have started: "0 \<in> pr_started p"
    using participants_of_reachable [OF p(1)] by (auto simp: p(2) deliver_def)
  let ?c = "(session p 0)\<lparr>cs_channel := [], cs_writer := Writing m\<rparr>"
  have room: "cs_channel (session p 0) = [m]" "cs_open (session p 0)" "cs_writer (session p 0) = WaitReceive"
    by (simp_all add: p(2) deliver_def try_send_def channel_room_def channel_size_def)
  then have "channel_receive (session p 0) = Some (m, ?c)"
    by (simp add: channel_receive_def)
  from reach_step [OF p(1) write_take [OF p(3) started room(3) this]]
  have r: "reachable sample_libs (with_session 0 (\<lambda>_. ?c) p)" (is "reachable _ ?q") .
  have "reachable sample_libs (writer_written 0 m ?q)"
    by (rule reach_step [OF r write_done]) (simp_all add: with_session_def set_server_def p(3) room(2))
  moreover have "pr_sent (writer_written 0 m ?q) 0 = [m]"
    by (simp add: writer_written_def Let_def with_session_def set_server_def p(4))
  moreover have "0 \<le> sint (mn_body_length (cm_msg m))"
    using error_and_close_carries [OF sample_libs_ok, of "wire_id SearchUserRequest" NotAuthenticated] m
      frame_length_positive unfolding carries_def by (metis sum.inject(2))
  ultimately show ?thesis by blast
qed

section \<open>Properties\<close>

text \<open>C16: a client can read everything it gets, and expects it: in every reachable state the bytes written to a
  session are a stream from which the client's reader takes exactly the nodes that were sent, with nothing
  left over, and each of them is a notification or the answer to a message of this session, under the id of
  that message or the response id that belongs to it. The one condition is that no text of 2 GiB made the
  length of a node negative.\<close>

theorem written_stream_is_readable:
  assumes "reachable L p" "platform_ok (lb_platform L)"
    and "\<forall>m\<in>set (pr_sent p i). 0 \<le> sint (mn_body_length (cm_msg m))"
  shows "read_all (read_frame (lb_platform L)) (Suc (length (pr_sent p i)))
      (concat (map (\<lambda>m. wire (cm_msg m)) (pr_sent p i))) = (map cm_msg (pr_sent p i), [], False) \<and>
    (\<forall>m\<in>set (pr_sent p i). notification L m \<or> (\<exists>msg\<in>set (pr_read p i). reply_to L msg m))"
proof -
  have e: "expected L (pr_read p i) m" if "m \<in> set (pr_sent p i)" for m
    using reachable_wire [OF assms(1)] that by (simp add: wire_inv_def server_wire_def)
  have "valid_node (cm_msg m)" if "m \<in> set (pr_sent p i)" for m
    using e [OF that] assms(3) that valid_built [OF assms(2)]
    by (auto simp: expected_def notification_def reply_to_def built_def)
  then have "read_all (read_frame (lb_platform L)) (Suc (length (pr_sent p i)))
      (concat (map (\<lambda>m. wire (cm_msg m)) (pr_sent p i))) = (map cm_msg (pr_sent p i), [], False)"
    using net.stream [OF assms(2), of "map cm_msg (pr_sent p i)" "[]" "Suc (length (pr_sent p i))"]
    by (simp add: comp_def)
  with e show ?thesis by (simp add: expected_def)
qed

theorem written_stream_is_readable_witness:
  "\<exists>(p :: chat_process) m. pr_sent p 0 = [m] \<and> read_all (read_frame sample_platform) 2 (wire (cm_msg m)) = ([cm_msg m], [], False)"
proof -
  obtain p m where p: "reachable sample_libs p" "pr_sent p 0 = [m]" "0 \<le> sint (mn_body_length (cm_msg m))"
    using refusal_is_written by blast
  have "lb_platform sample_libs = sample_platform" by (simp add: sample_libs_def)
  with written_stream_is_readable [OF p(1) libs_okD(3) [OF sample_libs_ok], of 0] p(2,3)
  have "read_all (read_frame sample_platform) 2 (wire (cm_msg m)) = ([cm_msg m], [], False)"
    by (simp add: numeral_2_eq_2 del: read_all.simps)
  with p(2) show ?thesis by blast
qed

end
