(* ===== verification/ChatClient.thy ===== *)
theory ChatClient
  imports MsgNode
begin

text \<open>
  \<^verbatim>\<open>chat_client/main.cpp\<close>: the command line client, from its arguments and input lines to the frames
  it writes and the frames it reads back.
\<close>

section \<open>Arguments\<close>

record client_config =
  cl_host :: string
  cl_port :: string
  cl_file :: string

definition default_config :: client_config where
  "default_config = \<lparr>cl_host = ''127.0.0.1'', cl_port = ''18080'', cl_file = []\<rparr>"

text \<open>\<^verbatim>\<open>s.find(c)\<close>\<close>

fun find_char :: "char \<Rightarrow> string \<Rightarrow> nat option" where
  "find_char c [] = None"
| "find_char c (d # s) = (if d = c then Some 0 else map_option Suc (find_char c s))"

definition parse_arg :: "string \<Rightarrow> client_config \<Rightarrow> client_config" where
  "parse_arg arg cfg =
     (case find_char (CHR ''='') arg of
        None \<Rightarrow> cfg
      | Some eq \<Rightarrow>
          if take 2 arg \<noteq> ''--'' then cfg
          else (let key = take (eq - 2) (drop 2 arg); val = drop (eq + 1) arg in
            if key = ''host'' then cfg\<lparr>cl_host := val\<rparr>
            else if key = ''port'' then cfg\<lparr>cl_port := val\<rparr>
            else if key = ''file'' then cfg\<lparr>cl_file := val\<rparr>
            else cfg))"

definition parse_args :: "string list \<Rightarrow> client_config" where
  "parse_args args = fold parse_arg args default_config"

section \<open>Input lines\<close>

text \<open>
  \<^verbatim>\<open>std::stoul\<close> in base ten: leading white space, an optional sign, digits; the value modulo \<^verbatim>\<open>2^64\<close>
  after negation and the number of characters consumed, or an exception.
\<close>

definition is_space :: "char \<Rightarrow> bool" where
  "is_space c \<longleftrightarrow> c = CHR '' '' \<or> of_char c \<in> {9 ..< 14 :: nat}"

definition stoul :: "string \<Rightarrow> (u64 \<times> nat) option" where
  "stoul s =
     (let spaces = length (takeWhile is_space s); s1 = drop spaces s;
          negative = (case s1 of c # _ \<Rightarrow> c = CHR ''-'' | [] \<Rightarrow> False);
          signed = (case s1 of c # _ \<Rightarrow> c = CHR ''-'' \<or> c = CHR ''+'' | [] \<Rightarrow> False);
          s2 = (if signed then tl s1 else s1);
          digits = takeWhile is_digit s2;
          n = undec digits
      in if digits = [] then None
         else if n \<ge> 2 ^ 64 then None
         else Some (if negative then - of_nat n else of_nat n,
                spaces + (if signed then 1 else 0) + length digits))"

definition parse_line :: "string \<Rightarrow> (u32 \<times> string) option" where
  "parse_line line =
     (case find_char (CHR ''|'') line of
        None \<Rightarrow> None
      | Some pos \<Rightarrow>
          (let id_str = take pos line; body = drop (pos + 1) line in
           case stoul id_str of
             None \<Rightarrow> None
           | Some (parsed, consumed) \<Rightarrow>
               if consumed \<noteq> length id_str then None else Some (ucast parsed, body)))"

section \<open>Messages\<close>

text \<open>The frame to write, or \<open>None\<close> for a body that is too long.\<close>

definition send_message :: "platform \<Rightarrow> u32 \<Rightarrow> string \<Rightarrow> string option" where
  "send_message P i body =
     (let (ok, n) = set_body_length (word_of_nat (length body)) (empty_node\<lparr>mn_id := i\<rparr>) in
      if \<not> ok then None
      else (let n' = encode_header P n
            in Some (wire (n'\<lparr>mn_data := blit PREFIX_LEN body (mn_data n')\<rparr>))))"

text \<open>Id and body of the next frame in the received bytes, and what is left of them.\<close>

definition recv_and_print :: "platform \<Rightarrow> string \<Rightarrow> ((u32 \<times> string) \<times> string) option" where
  "recv_and_print P bytes =
     (case read_frame P bytes of
        Frame n rest \<Rightarrow> Some ((mn_id n, take (body_size n) (drop PREFIX_LEN (mn_data n))), rest)
      | _ \<Rightarrow> None)"

text \<open>
  The main loop: per line, skip, stop, or send and wait for one reply. \<open>replies\<close> gives for each
  exchange whether the write and the read succeed. The result is what was sent.
\<close>

fun client_loop :: "platform \<Rightarrow> bool \<Rightarrow> string list \<Rightarrow> (bool \<times> bool) list \<Rightarrow> string list" where
  "client_loop P interactive [] replies = []"
| "client_loop P interactive (line # rest) replies =
     (if interactive \<and> line = ''exit'' then []
      else if line = [] \<or> hd line = CHR ''#'' then client_loop P interactive rest replies
      else (case parse_line line of
          None \<Rightarrow> client_loop P interactive rest replies
        | Some (i, body) \<Rightarrow>
            (case send_message P i body of
               None \<Rightarrow> []
             | Some bytes \<Rightarrow>
                 (case replies of
                    (True, True) # rs \<Rightarrow> bytes # client_loop P interactive rest rs
                  | (True, False) # rs \<Rightarrow> [bytes]
                  | _ \<Rightarrow> []))))"

text \<open>
  The same loop with the bytes that arrive: per line that is sent, the next frame of the stream is read and
  printed. \<open>writes\<close> gives for each write whether it succeeds; the stream ends where the server ends it. The
  result is what was sent, and what was printed.
\<close>

fun client_exchange ::
    "platform \<Rightarrow> bool \<Rightarrow> string list \<Rightarrow> bool list \<Rightarrow> string \<Rightarrow> string list \<times> (u32 \<times> string) list" where
  "client_exchange P interactive [] writes incoming = ([], [])"
| "client_exchange P interactive (line # rest) writes incoming =
     (if interactive \<and> line = ''exit'' then ([], [])
      else if line = [] \<or> hd line = CHR ''#'' then client_exchange P interactive rest writes incoming
      else (case parse_line line of
          None \<Rightarrow> client_exchange P interactive rest writes incoming
        | Some (i, body) \<Rightarrow>
            (case send_message P i body of
               None \<Rightarrow> ([], [])
             | Some bytes \<Rightarrow>
                 (case writes of
                    True # ws \<Rightarrow>
                      (case recv_and_print P incoming of
                         None \<Rightarrow> ([bytes], [])
                       | Some (m, incoming') \<Rightarrow>
                           (let (sent, printed) = client_exchange P interactive rest ws incoming'
                            in (bytes # sent, m # printed)))
                  | _ \<Rightarrow> ([], [])))))"

text \<open>\<^verbatim>\<open>main\<close>: the exit code, what was sent and what was printed.\<close>

record client_machine =
  cm_connect :: "string \<Rightarrow> string \<Rightarrow> bool"
  cm_lines :: "string \<Rightarrow> string list option"
  cm_stdin :: "string list"

definition client_main ::
    "platform \<Rightarrow> client_machine \<Rightarrow> string list \<Rightarrow> bool list \<Rightarrow> string \<Rightarrow> int \<times> string list \<times> (u32 \<times> string) list" where
  "client_main P M args writes incoming =
     (let cfg = parse_args args in
      if \<not> cm_connect M (cl_host cfg) (cl_port cfg) then (1, [], [])
      else
        let interactive = (cl_file cfg = []) in
        if interactive then (0, client_exchange P True (cm_stdin M) writes incoming)
        else (case cm_lines M (cl_file cfg) of
            None \<Rightarrow> (1, [], [])
          | Some lines \<Rightarrow> (0, client_exchange P False lines writes incoming)))"

text \<open>Every exchange sends what the loop sends for some outcome of its writes and reads.\<close>

lemma exchange_is_loop:
  "\<exists>replies. fst (client_exchange P interactive lines writes incoming) = client_loop P interactive lines replies"
proof (induction P interactive lines writes incoming rule: client_exchange.induct)
  case (2 P interactive line rest writes incoming)
  show ?case
  proof (cases "interactive \<and> line = ''exit'' \<or> line = [] \<or> hd line = CHR ''#'' \<or> parse_line line = None")
    case True
    with 2(1,2) show ?thesis by auto
  next
    case False
    then obtain i body where p: "parse_line line = Some (i, body)" by auto
    show ?thesis
    proof (cases "send_message P i body")
      case None
      with False p show ?thesis by auto
    next
      case (Some bytes)
      consider (ok) ws m incoming' where "writes = True # ws" "recv_and_print P incoming = Some (m, incoming')"
        | (no_reply) ws where "writes = True # ws" "recv_and_print P incoming = None"
        | (no_write) "\<nexists>ws. writes = True # ws"
        by (metis option.exhaust prod.exhaust)
      then show ?thesis
      proof cases
        case ok
        have "\<exists>replies. fst (client_exchange P interactive rest ws incoming') = client_loop P interactive rest replies"
          by (rule 2(3)) (use False p Some ok in auto)
        then obtain rs where "fst (client_exchange P interactive rest ws incoming') = client_loop P interactive rest rs"
          by blast
        then show ?thesis
          using False p Some ok by (intro exI [of _ "(True, True) # rs"]) (simp add: case_prod_beta)
      next
        case no_reply
        then show ?thesis using False p Some by (intro exI [of _ "[(True, False)]"]) simp
      next
        case no_write
        then show ?thesis using False p Some
          by (intro exI [of _ "[]"]) (auto split: list.split bool.split)
      qed
    qed
  qed
qed simp

section \<open>What the server reads\<close>

lemma send_message_frame:
  assumes "platform_ok P" "length body \<le> MAX_LENGTH"
  shows "send_message P i body = Some (wire (frame_node i body))"
  using encode_header_fresh [OF assms, of i] assms
  by (simp add: send_message_def set_body_length_small blit_def frame_node_def del: replicate_Suc)

lemma send_message_too_long:
  "MAX_LENGTH < length body \<Longrightarrow> length body < 2 ^ 31 \<Longrightarrow> send_message P i body = None"
  by (simp add: send_message_def set_body_length_large)

lemma recv_frame:
  assumes "platform_ok P" "length b \<le> MAX_LENGTH"
  shows "recv_and_print P (wire (frame_node i b) @ rest) = Some ((i, b), rest)"
  using read_frame_wire [OF assms] body_size_frame [OF assms(2)]
  by (simp add: recv_and_print_def) (simp add: frame_node_def)

lemma find_char_append: "c \<notin> set s \<Longrightarrow> find_char c (s @ c # t) = Some (length s)"
  by (induction s) auto

lemma stoul_dec: "n < 2 ^ 64 \<Longrightarrow> stoul (dec_nat n) = Some (of_nat n, length (dec_nat n))"
proof -
  assume n: "n < 2 ^ 64"
  obtain c s where d: "dec_nat n = c # s" by (cases "dec_nat n") auto
  then have c: "is_digit c" using dec_nat_digits [of c n] by simp
  then have "\<not> is_space c" "c \<noteq> CHR ''-''" "c \<noteq> CHR ''+''"
    by (auto simp: is_digit_def is_space_def)
  moreover have "takeWhile is_digit (dec_nat n) = dec_nat n"
    using dec_nat_digits by (simp add: takeWhile_eq_all_conv)
  ultimately show ?thesis
    using n undec_dec_nat [of n] by (simp add: stoul_def d Let_def)
qed

text \<open>A line with a plain decimal id is read as that id and everything behind the first bar.\<close>

lemma parse_line_dec:
  assumes "n < 2 ^ 32"
  shows "parse_line (dec_nat n @ CHR ''|'' # body) = Some (of_nat n, body)"
proof -
  have "CHR ''|'' \<notin> set (dec_nat n)" using dec_nat_digits [of "CHR ''|''" n] by (auto simp: is_digit_def)
  then have "find_char (CHR ''|'') (dec_nat n @ CHR ''|'' # body) = Some (length (dec_nat n))"
    by (rule find_char_append)
  moreover have "take_bit 64 n = n" using assms by (simp add: take_bit_nat_eq_self)
  ultimately show ?thesis
    using assms by (simp add: parse_line_def stoul_dec unsigned_of_nat)
qed

section \<open>What the client prints\<close>

text \<open>The text of a node as the client prints it: as many bytes as the header says.\<close>

definition printed_text :: "msg_node \<Rightarrow> u32 \<times> string" where
  "printed_text n = (mn_id n, take (body_size n) (drop PREFIX_LEN (mn_data n)))"

lemma recv_valid:
  "platform_ok P \<Longrightarrow> valid_node n \<Longrightarrow> recv_and_print P (wire n @ rest) = Some (printed_text n, rest)"
  using net.rd_enc [of P n rest] by (simp add: recv_and_print_def printed_text_def)

lemma recv_nothing: "recv_and_print P [] = None"
  by (simp add: recv_and_print_def)

text \<open>The frames are printed in the order of the stream, one for each line that is sent, the last of which may be
  left without one.\<close>

lemma exchange_prints_stream:
  assumes "platform_ok P" "\<forall>n\<in>set ns. valid_node n"
    and "client_exchange P interactive lines writes (concat (map wire ns)) = (sent, printed)"
  shows "printed = map printed_text (take (length printed) ns) \<and>
    length printed \<le> length sent \<and> length sent \<le> Suc (length printed)"
  using assms(2,3)
proof (induction lines arbitrary: writes ns sent printed)
  case (Cons line lines)
  show ?case
  proof (cases "\<exists>i body bytes ws. \<not> (interactive \<and> line = ''exit'') \<and> line \<noteq> [] \<and> hd line \<noteq> CHR ''#'' \<and>
      parse_line line = Some (i, body) \<and> send_message P i body = Some bytes \<and> writes = True # ws")
    case False
    then have "(sent, printed) = ([], []) \<or>
        client_exchange P interactive lines writes (concat (map wire ns)) = (sent, printed)"
      using Cons.prems(2) by (auto split: if_splits option.splits list.splits bool.splits)
    then show ?thesis using Cons.IH [OF Cons.prems(1)] by auto
  next
    case True
    then obtain i body bytes ws where t: "\<not> (interactive \<and> line = ''exit'')" "line \<noteq> []" "hd line \<noteq> CHR ''#''"
      "parse_line line = Some (i, body)" "send_message P i body = Some bytes" "writes = True # ws"
      by blast
    show ?thesis
    proof (cases ns)
      case Nil
      then show ?thesis using Cons.prems(2) t by (auto simp: recv_nothing)
    next
      case (Cons n ns')
      then have n: "recv_and_print P (concat (map wire ns)) = Some (printed_text n, concat (map wire ns'))"
        using recv_valid [OF assms(1)] Cons.prems(1) by simp
      obtain s r where e: "client_exchange P interactive lines ws (concat (map wire ns')) = (s, r)" by force
      have ns': "\<forall>n\<in>set ns'. valid_node n" using \<open>ns = n # ns'\<close> Cons.prems(1) by simp
      have "sent = bytes # s" "printed = printed_text n # r"
        using Cons.prems(2) t n e by auto
      then show ?thesis using Cons.IH [OF ns' e] \<open>ns = n # ns'\<close> by simp
    qed
  qed
qed simp

end
