(* ===== verification/FrameProperties.thy ===== *)
theory FrameProperties
  imports ChatClient SampleRun
begin

text \<open>
  What holds of the bytes between a client and a chat server: the frames of a stream, the limits of
  a header, and the command line client at the other end.
\<close>

section \<open>Streams of frames\<close>

text \<open>However many messages are written one after the other, the reader's loop takes exactly these
  messages off the stream, in order, and leaves the bytes of an incomplete next header; fuel beyond the
  number of messages is enough.\<close>

lemma stream_of_frames_roundtrip:
  assumes "platform_ok P" "\<forall>m\<in>set ms. valid_node m" "length tail < PREFIX_LEN" "length ms < fuel"
  shows "read_all (read_frame P) fuel (concat (map wire ms) @ tail) = (ms, tail, False)"
  by (rule net.stream [OF assms(1,2) _ assms(4)]) (use assms(3) in \<open>simp add: read_frame_def\<close>)

theorem stream_of_frames_roundtrip_witness:
  "read_all (read_frame sample_platform) 3
     (concat (map wire [frame_node 1005 ''a'', frame_node 1017 []]) @ ''xy'') =
   ([frame_node 1005 ''a'', frame_node 1017 []], ''xy'', False)"
proof (rule stream_of_frames_roundtrip)
  show "platform_ok sample_platform"
    using libs_okD(3) [OF sample_libs_ok] by (simp add: sample_libs_def)
  have "valid_node (frame_node i b)" if "length b \<le> MAX_LENGTH" for i b
    using that by (auto simp: valid_node_def)
  then show "\<forall>m\<in>set [frame_node 1005 ''a'', frame_node 1017 []]. valid_node m"
    by (simp add: MAX_LENGTH_def)
qed (simp_all add: len_defs)

text \<open>C37: whatever six bytes arrive as a header, the reader goes on only with a length of at most 1024,
  and then header and body together fit the buffer of the node they are read into.\<close>

theorem accepted_header_fits_buffer:
  assumes "length bs = PREFIX_LEN" "read_prefix P bs = (True, n)"
  shows "body_size n \<le> MAX_LENGTH \<and> PREFIX_LEN + body_size n < length (mn_data n) \<and>
    0 \<le> sint (mn_body_length n)"
proof -
  obtain w :: u16 where w: "fst (set_body_length (ucast w) n') = True" "mn_body_length n = ucast w"
    "mn_data n = blit 0 bs (mn_data empty_node)" for n'
    using assms(2) by (auto simp: read_prefix_def decode_header_def Let_def set_body_length_def split: if_splits)
  have size: "sint (ucast w :: i32) = int (unat w)"
  proof -
    have "unat w < 2 ^ LENGTH(16)" by (rule unsigned_less)
    then show ?thesis using sint_small_i32 [of "unat w"] by simp
  qed
  then have "uint w \<le> 1024"
    using w(1) [of n] by (simp add: set_body_length_def MAX_LENGTH_def split: if_splits)
  moreover have "int (unat w) = uint w" by simp
  ultimately have "unat w \<le> 1024" by linarith
  with size show ?thesis
    using w(2,3) assms(1) by (simp add: body_size_def blit_def empty_node_def len_defs)
qed

theorem accepted_header_fits_buffer_witness:
  "\<exists>n. read_prefix sample_platform (frame_header 1005 7) = (True, n) \<and> body_size n \<le> MAX_LENGTH"
proof -
  have "platform_ok sample_platform"
    using libs_okD(3) [OF sample_libs_ok] by (simp add: sample_libs_def)
  from read_prefix_frame [OF this, of 7 1005]
  obtain n where n: "read_prefix sample_platform (frame_header 1005 7) = (True, n)"
    by (simp add: MAX_LENGTH_def)
  from accepted_header_fits_buffer [OF length_frame_header n] n show ?thesis by blast
qed

section \<open>The client and the server\<close>

lemma typed_line_is_frame:
  assumes "platform_ok P" "n < 2 ^ 32" "length body \<le> MAX_LENGTH"
  shows "client_loop P True [dec_nat n @ CHR ''|'' # body] [(True, True)] = [wire (frame_node (of_nat n) body)]"
proof -
  let ?line = "dec_nat n @ CHR ''|'' # body"
  have "is_digit (hd ?line)"
    using dec_nat_digits [of "hd (dec_nat n)" n] by simp
  then have "hd ?line \<noteq> CHR ''#''" "hd ?line \<noteq> CHR ''e''"
    by (auto simp: is_digit_def)
  moreover from this have "?line \<noteq> ''exit''" by (metis list.sel(1))
  ultimately show ?thesis
    using assms by (simp add: parse_line_dec send_message_frame)
qed

text \<open>A line of a decimal id and a text, typed into the client, is read by the server as exactly this id
  and this text, whatever follows on the stream; and a frame the server writes is printed by the client
  with its id and text.\<close>

lemma typed_line_reaches_server:
  assumes "platform_ok P" "n < 2 ^ 32" "length body \<le> MAX_LENGTH" "length reply \<le> MAX_LENGTH"
  shows "(\<exists>bytes. client_loop P True [dec_nat n @ CHR ''|'' # body] [(True, True)] = [bytes] \<and>
      read_frame P (bytes @ rest) = Frame (frame_node (of_nat n) body) rest) \<and>
    recv_and_print P (wire (frame_node rid reply) @ rest) = Some ((rid, reply), rest)"
  using typed_line_is_frame [OF assms(1-3)] read_frame_wire [OF assms(1,3)] recv_frame [OF assms(1,4)] by blast

theorem typed_line_reaches_server_witness:
  "read_frame sample_platform (hd (client_loop sample_platform True [dec_nat 1007 @ ''|{}''] [(True, True)])) =
   Frame (frame_node 1007 ''{}'') []"
proof -
  have "platform_ok sample_platform"
    using libs_okD(3) [OF sample_libs_ok] by (simp add: sample_libs_def)
  from typed_line_reaches_server [OF this, of 1007 "''{}''" "[]" "[]" 0]
  show ?thesis by (auto simp: MAX_LENGTH_def simp del: client_loop.simps)
qed

end
