(* ===== verification/StatusServer.thy ===== *)
theory StatusServer
  imports RedisClient MessageCommon
begin

text \<open>
  \<^verbatim>\<open>status_server/grpc_service.hpp\<close>: choosing the chat server with the fewest logins, issuing the
  login token of a user, and the token query. \<open>chat_servers\<close> is the configured list.
\<close>

record chat_server_config =
  csc_name :: string
  csc_host :: string
  csc_port :: i32

definition INVALID_UID_OR_TOKEN :: i32 where
  "INVALID_UID_OR_TOKEN = 1"

section \<open>Load balancing\<close>

text \<open>\<^verbatim>\<open>std::map<std::string, std::pair<size_t, int64_t>>\<close>: position in the list and login count.\<close>

type_synonym login_table = "(string \<times> (nat \<times> i64)) list"

definition initial_counts :: "chat_server_config list \<Rightarrow> login_table" where
  "initial_counts servers =
     fold (\<lambda>(i, config) m. smap_set (csc_name config) (i, 0) m) (enumerate 0 servers) []"

definition apply_counts :: "(string \<times> i64) list \<Rightarrow> login_table \<Rightarrow> login_table" where
  "apply_counts result table =
     fold (\<lambda>(key, value) m. case smap_find m key of
         Some (i, _) \<Rightarrow> smap_set key (i, value) m
       | None \<Rightarrow> m) result table"

definition int64_max :: i64 where
  "int64_max = 2 ^ 63 - 1"

definition least_loaded :: "login_table \<Rightarrow> nat" where
  "least_loaded table =
     fst (fold (\<lambda>(key, i, count) (index, min_value).
         if count <s min_value then (i, count) else (index, min_value)) table (0, int64_max))"

definition get_server_index :: "chat_server_config list \<Rightarrow> ('s, nat) cor" where
  "get_server_index servers =
     bind (redis_hgetall LoginCountKey) (\<lambda>result.
     if result = [] then Done 0
     else Done (least_loaded (apply_counts result (initial_counts servers))))"

section \<open>Service methods\<close>

text \<open>
  \<^verbatim>\<open>chat_servers_[index]\<close> is unchecked; \<open>server_at\<close> is its value for an index in range. Out of range the
  source is undefined, which \<open>None\<close> stands for here.
\<close>

definition server_at :: "chat_server_config list \<Rightarrow> nat \<Rightarrow> chat_server_config option" where
  "server_at servers i = (if i < length servers then Some (servers ! i) else None)"

definition empty_chat_server_rsp :: pb_chat_server_rsp where
  "empty_chat_server_rsp = \<lparr>gcs_error = 0, gcs_host = [], gcs_port = 0, gcs_token = []\<rparr>"

definition token_key :: "i32 \<Rightarrow> string" where
  "token_key uid = UserTokenPrefix @ to_string (sint uid)"

definition GetChatServer_rpc :: "chat_server_config list \<Rightarrow> i32 \<Rightarrow> ('s, pb_chat_server_rsp option) cor" where
  "GetChatServer_rpc servers uid =
     bind (get_server_index servers) (\<lambda>index.
     UuidC (\<lambda>token.
     bind (redis_set (token_key uid) token) (\<lambda>result.
     if \<not> result then Done (Some (empty_chat_server_rsp\<lparr>gcs_error := 1\<rparr>))
     else Done (map_option (\<lambda>server. empty_chat_server_rsp\<lparr>gcs_host := csc_host server,
         gcs_port := csc_port server, gcs_token := token\<rparr>) (server_at servers index)))))"

definition StatusLogin_rpc :: "i32 \<Rightarrow> ('s, pb_login_rsp) cor" where
  "StatusLogin_rpc uid =
     bind (redis_get (token_key uid)) (\<lambda>token.
     Done (case token of
         None \<Rightarrow> \<lparr>lgs_error = INVALID_UID_OR_TOKEN, lgs_uid = 0, lgs_token = []\<rparr>
       | Some t \<Rightarrow> \<lparr>lgs_error = 0, lgs_uid = uid, lgs_token = t\<rparr>))"

section \<open>The chosen server\<close>

text \<open>The login count a server is taken to have: the last one Redis lists under its name, or zero.\<close>

definition count_of :: "(string \<times> i64) list \<Rightarrow> string \<Rightarrow> i64" where
  "count_of result name = (case map_of (rev result) name of Some c \<Rightarrow> c | None \<Rightarrow> 0)"

lemma initial_counts_ok: "smap_ok (initial_counts servers)"
proof -
  have "smap_ok (fold (\<lambda>(i, config) m. smap_set (csc_name config) (i, 0) m) xs m)"
    if "smap_ok m" for xs :: "(nat \<times> chat_server_config) list" and m :: login_table
    using that by (induction xs arbitrary: m) auto
  then show ?thesis by (simp add: initial_counts_def)
qed

text \<open>Every configured name is in the table, with the position of a server of that name and count 0.\<close>

lemma initial_counts_find:
  "smap_find (initial_counts servers) n = Some (i, c) \<Longrightarrow>
     i < length servers \<and> csc_name (servers ! i) = n \<and> c = 0"
  and initial_counts_dom: "fst ` set (initial_counts servers) = csc_name ` set servers"
proof -
  have inv: "smap_find (fold (\<lambda>(i, config) m. smap_set (csc_name config) (i, 0) m) xs m) n = Some (i, c) \<Longrightarrow>
      (\<exists>e\<in>set xs. i = fst e \<and> csc_name (snd e) = n \<and> c = 0) \<or> smap_find m n = Some (i, c)"
    for xs :: "(nat \<times> chat_server_config) list" and m :: login_table
  proof (induction xs arbitrary: m)
    case (Cons e xs)
    obtain j config where e: "e = (j, config)" by force
    from Cons.IH [of "smap_set (csc_name config) (j, 0) m"] Cons.prems show ?case
      by (auto simp: e smap_find_set split: if_splits)
  qed simp
  show "smap_find (initial_counts servers) n = Some (i, c) \<Longrightarrow>
     i < length servers \<and> csc_name (servers ! i) = n \<and> c = 0"
    using inv [of "enumerate 0 servers" "[]"] by (auto simp: initial_counts_def in_set_enumerate_eq)
  have "fst ` set (fold (\<lambda>(i, config) m. smap_set (csc_name config) (i, 0) m) xs m) =
      (csc_name \<circ> snd) ` set xs \<union> fst ` set m"
    for xs :: "(nat \<times> chat_server_config) list" and m :: login_table
    by (induction xs arbitrary: m) (simp_all add: case_prod_beta)
  from this [of "enumerate 0 servers" "[]"]
  show "fst ` set (initial_counts servers) = csc_name ` set servers"
    by (simp only: initial_counts_def list.set image_empty Un_empty_right image_comp [symmetric])
      (simp flip: set_map)
qed

lemma apply_counts_find:
  "smap_find (apply_counts result t) n =
     map_option (\<lambda>(i, c). (i, case map_of (rev result) n of Some v \<Rightarrow> v | None \<Rightarrow> c)) (smap_find t n)"
proof (induction result arbitrary: t)
  case Nil
  then show ?case by (simp add: apply_counts_def option.map_ident)
next
  case (Cons e result)
  obtain k v where e: "e = (k, v)" by force
  let ?t = "case smap_find t k of Some (i, _) \<Rightarrow> smap_set k (i, v) t | None \<Rightarrow> t"
  have "apply_counts (e # result) t = apply_counts result ?t"
    by (simp add: apply_counts_def e)
  with Cons.IH [of ?t] show ?case
    by (cases "smap_find t k") (auto simp: e smap_find_set map_add_def id_def split: option.split)
qed

lemma apply_counts_ok: "smap_ok t \<Longrightarrow> smap_ok (apply_counts result t)"
  by (induction result arbitrary: t) (auto simp: apply_counts_def split: option.split)

text \<open>The scan ends with the first entry of least count, or where it started.\<close>

lemma scan_least:
  assumes "fold (\<lambda>(key, i, count) (index, min_value).
      if count <s min_value then (i, count) else (index, min_value)) table (i0, m0) = (i, m)"
  shows "m \<le>s m0" "\<forall>(k, j, c)\<in>set table. m \<le>s c"
    and "(i, m) = (i0, m0) \<or> (\<exists>k. (k, i, m) \<in> set table)"
proof -
  have "m \<le>s m0 \<and> (\<forall>(k, j, c)\<in>set table. m \<le>s c) \<and>
      ((i, m) = (i0, m0) \<or> (\<exists>k. (k, i, m) \<in> set table))"
    using assms
  proof (induction table arbitrary: i0 m0)
    case (Cons e table)
    obtain k j c where e: "e = (k, j, c)" by (metis prod_cases3)
    show ?case
      using Cons.IH [of j c] Cons.IH [of i0 m0] Cons.prems
      by (auto simp: e word_sless_alt word_sle_eq split: if_splits)
  qed simp
  then show "m \<le>s m0" "\<forall>(k, j, c)\<in>set table. m \<le>s c"
    "(i, m) = (i0, m0) \<or> (\<exists>k. (k, i, m) \<in> set table)" by auto
qed

lemma sle_max: "(c :: i64) \<le>s int64_max"
  using sint_lt [of c] by (simp add: word_sle_eq int64_max_def)

text \<open>The chosen position is in range, and no configured server has fewer logins than the one there.\<close>

lemma least_loaded_spec:
  assumes "servers \<noteq> []"
  shows "least_loaded (apply_counts result (initial_counts servers)) < length servers"
    and "s \<in> set servers \<Longrightarrow>
      count_of result (csc_name (servers ! least_loaded (apply_counts result (initial_counts servers))))
        \<le>s count_of result (csc_name s)"
proof -
  let ?t = "apply_counts result (initial_counts servers)"
  obtain i m where f: "fold (\<lambda>(key, i, count) (index, min_value).
      if count <s min_value then (i, count) else (index, min_value)) ?t (0, int64_max) = (i, m)" by force
  then have i: "least_loaded ?t = i" by (simp add: least_loaded_def)
  note scan = scan_least [OF f]
  have ok: "smap_ok ?t" by (simp add: apply_counts_ok initial_counts_ok)
  have entry: "\<exists>j. smap_find ?t (csc_name s) = Some (j, count_of result (csc_name s))" if "s \<in> set servers" for s
  proof -
    have "csc_name s \<in> fst ` set (initial_counts servers)" using that by (simp add: initial_counts_dom)
    then obtain j c where f: "smap_find (initial_counts servers) (csc_name s) = Some (j, c)"
      by (metis (no_types, lifting) map_of_eq_None_iff option.exhaust surj_pair)
    then have "c = 0" using initial_counts_find by blast
    with f show ?thesis by (auto simp: apply_counts_find count_of_def)
  qed
  have least: "m \<le>s count_of result (csc_name s)" if "s \<in> set servers" for s
    using entry [OF that] scan(2) map_of_SomeD by fastforce
  have chosen: "i < length servers \<and> count_of result (csc_name (servers ! i)) \<le>s m"
  proof (cases "(i, m) = (0, int64_max)")
    case True
    then show ?thesis using assms sle_max by simp
  next
    case False
    with scan(3) obtain k where "(k, i, m) \<in> set ?t" by auto
    then have "smap_find ?t k = Some (i, m)" using smap_find_iff [OF ok] by simp
    then obtain c where c: "smap_find (initial_counts servers) k = Some (i, c)"
      "m = (case map_of (rev result) k of Some v \<Rightarrow> v | None \<Rightarrow> c)"
      by (auto simp: apply_counts_find)
    from initial_counts_find [OF c(1)] c(2) show ?thesis by (auto simp: count_of_def)
  qed
  then show "least_loaded ?t < length servers" by (simp add: i)
  show "count_of result (csc_name (servers ! least_loaded ?t)) \<le>s count_of result (csc_name s)"
    if "s \<in> set servers"
    using least [OF that] chosen unfolding i by (auto simp: word_sle_eq intro: order_trans)
qed

lemma quiet_get_server_index [simp]: "quiet (get_server_index servers)"
  by (auto simp: get_server_index_def intro!: quiet_bind)

end
