(* ===== verification/VerifyServer.thy ===== *)
theory VerifyServer
  imports RedisClient MessageCommon
begin

text \<open>
  \<^verbatim>\<open>verify_server/grpc_service.hpp\<close> and \<^verbatim>\<open>verify_server/mail_client.hpp\<close>: issuing verification codes,
  the mail queue with its single worker thread, and the quoting of the mail command.
\<close>

section \<open>The mail client\<close>

record mail_task =
  mt_to :: string
  mt_subject :: string
  mt_body :: string

text \<open>The worker waits on the condition variable, runs the mail command of a task, or has returned.\<close>

datatype mail_worker = WorkerWaiting | WorkerDelivering mail_task | WorkerReturned

record mail_client =
  mc_queue :: "mail_task list"
  mc_stop :: bool
  mc_worker :: mail_worker

definition new_mail_client :: mail_client where
  "new_mail_client = \<lparr>mc_queue = [], mc_stop = False, mc_worker = WorkerWaiting\<rparr>"

definition send_mail :: "string \<Rightarrow> string \<Rightarrow> string \<Rightarrow> 'w mail_client_scheme \<Rightarrow> 'w mail_client_scheme" where
  "send_mail to subject body c =
     c\<lparr>mc_queue := mc_queue c @ [\<lparr>mt_to = to, mt_subject = subject, mt_body = body\<rparr>]\<rparr>"

text \<open>The first half of the destructor, which then joins the worker.\<close>

definition request_stop :: "'w mail_client_scheme \<Rightarrow> 'w mail_client_scheme" where
  "request_stop c = c\<lparr>mc_stop := True\<rparr>"

text \<open>One round of \<^verbatim>\<open>worker_loop\<close> up to the delivery, when its wait ends.\<close>

definition worker_wakes :: "'w mail_client_scheme \<Rightarrow> bool" where
  "worker_wakes c \<longleftrightarrow> mc_stop c \<or> mc_queue c \<noteq> []"

definition worker_round :: "'w mail_client_scheme \<Rightarrow> 'w mail_client_scheme" where
  "worker_round c =
     (if mc_stop c \<and> mc_queue c = [] then c\<lparr>mc_worker := WorkerReturned\<rparr>
      else c\<lparr>mc_worker := WorkerDelivering (hd (mc_queue c)), mc_queue := tl (mc_queue c)\<rparr>)"

fun shell_quote_char :: "char \<Rightarrow> string" where
  "shell_quote_char c = (if c = CHR 0x27 then [CHR 0x27, CHR 0x5C, CHR 0x27, CHR 0x27] else [c])"

definition shell_quote :: "string \<Rightarrow> string" where
  "shell_quote s = CHR 0x27 # concat (map shell_quote_char s) @ [CHR 0x27]"

definition mail_command :: "mail_task \<Rightarrow> string" where
  "mail_command t = ''/usr/bin/mail -s '' @ shell_quote (mt_subject t) @ '' '' @ shell_quote (mt_to t) @
     '' 2>/dev/null''"

text \<open>What is handed to \<^verbatim>\<open>popen\<close>, as a C string, and what is written to the pipe.\<close>

definition popen_input :: "mail_task \<Rightarrow> string \<times> string" where
  "popen_input t = (takeWhile (\<lambda>c. c \<noteq> CHR 0x00) (mail_command t), mt_body t)"

text \<open>
  The worker of a client between two waits: it takes a task or returns, and it runs the command of
  the task it took (the exit status is only logged). \<open>out\<close> records what was handed to \<^verbatim>\<open>popen\<close>.
\<close>

type_synonym mail_state = "mail_client \<times> (string \<times> string) list"

fun worker_step :: "mail_state \<Rightarrow> mail_state" where
  "worker_step (c, out) =
     (case mc_worker c of
        WorkerWaiting \<Rightarrow> (if worker_wakes c then worker_round c else c, out)
      | WorkerDelivering t \<Rightarrow> (c\<lparr>mc_worker := WorkerWaiting\<rparr>, out @ [popen_input t])
      | WorkerReturned \<Rightarrow> (c, out))"

text \<open>Any interleaving of callers, the end of the process, and the worker; \<open>sent\<close> records the calls.\<close>

inductive mail_reach :: "mail_task list \<Rightarrow> mail_state \<Rightarrow> bool" where
  mail_init: "mail_reach [] (new_mail_client, [])"
| mail_enqueue: "mail_reach sent (c, out) \<Longrightarrow>
    mail_reach (sent @ [\<lparr>mt_to = to, mt_subject = subject, mt_body = body\<rparr>]) (send_mail to subject body c, out)"
| mail_stop: "mail_reach sent (c, out) \<Longrightarrow> mail_reach sent (request_stop c, out)"
| mail_work: "mail_reach sent p \<Longrightarrow> mail_reach sent (worker_step p)"

inductive_cases mail_reachE: "mail_reach sent p"

definition in_hand :: "mail_client \<Rightarrow> mail_task list" where
  "in_hand c = (case mc_worker c of WorkerDelivering t \<Rightarrow> [t] | _ \<Rightarrow> [])"

lemma mail_conservation:
  "mail_reach sent p \<Longrightarrow>
   map popen_input sent = snd p @ map popen_input (in_hand (fst p) @ mc_queue (fst p)) \<and>
   (mc_worker (fst p) = WorkerReturned \<longrightarrow> mc_stop (fst p))"
proof (induction rule: mail_reach.induct)
  case (mail_work sent p)
  then show ?case
    by (cases p) (auto simp: worker_round_def worker_wakes_def in_hand_def neq_Nil_conv
        split: mail_worker.splits)
qed (auto simp: new_mail_client_def send_mail_def request_stop_def in_hand_def)

text \<open>Once the process ends, the worker empties the queue in bounded many rounds and returns.\<close>

lemma worker_drains:
  "mc_stop c \<Longrightarrow> mc_worker c = WorkerWaiting \<Longrightarrow> length (mc_queue c) = n \<Longrightarrow>
   (worker_step ^^ (2 * n + 1)) (c, out) =
     (c\<lparr>mc_queue := [], mc_worker := WorkerReturned\<rparr>, out @ map popen_input (mc_queue c))"
proof (induction n arbitrary: c out)
  case 0
  then show ?case by (simp add: worker_wakes_def worker_round_def)
next
  case (Suc n)
  then obtain t ts where q: "mc_queue c = t # ts" by (cases "mc_queue c") auto
  have eq: "2 * Suc n + 1 = Suc (Suc (2 * n + 1))" by simp
  have "(worker_step ^^ (2 * Suc n + 1)) (c, out) =
      (worker_step ^^ (2 * n + 1)) (c\<lparr>mc_queue := ts, mc_worker := WorkerWaiting\<rparr>, out @ [popen_input t])"
    using Suc.prems(1,2) q unfolding eq funpow_Suc_right o_apply
    by (simp add: worker_wakes_def worker_round_def)
  also have "\<dots> = (c\<lparr>mc_queue := [], mc_worker := WorkerReturned\<rparr>, out @ map popen_input (mc_queue c))"
    using Suc q by simp
  finally show ?case .
qed

definition mail_push :: "mail_task \<Rightarrow> mail_client \<Rightarrow> bool \<times> mail_client" where
  "mail_push t c = (True, send_mail (mt_to t) (mt_subject t) (mt_body t) c)"

definition mail_pop :: "mail_client \<Rightarrow> (mail_task \<times> mail_client) option" where
  "mail_pop c = (case mc_queue c of
       [] \<Rightarrow> None
     | t # ts \<Rightarrow> Some (t, worker_round c))"

interpretation mails: fifo mail_push mail_pop mc_queue
  by unfold_locales (auto simp: mail_push_def mail_pop_def send_mail_def worker_round_def split: list.splits)

section \<open>Quoting\<close>

text \<open>
  How a POSIX shell reads a word (the rules of single quotes and of backslash; other special
  characters end this reading with failure): the specification the quoting is measured against.
\<close>

fun sh_plain :: "string \<Rightarrow> (string \<times> string) option"
  and sh_quoted :: "string \<Rightarrow> (string \<times> string) option" where
  "sh_plain [] = Some ([], [])"
| "sh_plain (c # s) =
     (if c = CHR '' '' then Some ([], c # s)
      else if c = CHR 0x27 then sh_quoted s
      else if c = CHR 0x5C then
        (case s of [] \<Rightarrow> None | d # s' \<Rightarrow> map_option (map_prod ((#) d) id) (sh_plain s'))
      else None)"
| "sh_quoted [] = None"
| "sh_quoted (c # s) =
     (if c = CHR 0x27 then sh_plain s else map_option (map_prod ((#) c) id) (sh_quoted s))"

lemma sh_quoted_body:
  "sh_quoted (concat (map shell_quote_char s) @ CHR 0x27 # r) = map_option (map_prod ((@) s) id) (sh_plain r)"
  by (induction s) (simp_all add: option.map_comp comp_def map_prod_def case_prod_beta option.map_ident)

lemma sh_shell_quote:
  "r = [] \<or> (\<exists>r'. r = CHR '' '' # r') \<Longrightarrow> sh_plain (shell_quote s @ r) = Some (s, r)"
  by (auto simp: shell_quote_def sh_quoted_body)

section \<open>Verification codes\<close>

text \<open>\<^verbatim>\<open>verify_server/grpc_service.hpp\<close>. The mail texts are the UTF-8 bytes of the source's literals.\<close>

definition mail_text_before :: string where
  "mail_text_before =
     map char_of [0xE6 :: nat, 0x82, 0xA8, 0xE7, 0x9A, 0x84, 0xE9, 0xAA, 0x8C, 0xE8, 0xAF, 0x81,
     0xE7, 0xA0, 0x81, 0xE4, 0xB8, 0xBA]"

definition mail_text_after :: string where
  "mail_text_after =
     map char_of [0xE8 :: nat, 0xAF, 0xB7, 0xE4, 0xB8, 0x89, 0xE5, 0x88, 0x86, 0xE9, 0x92, 0x9F,
     0xE5, 0x86, 0x85, 0xE5, 0xAE, 0x8C, 0xE6, 0x88, 0x90, 0xE6, 0xB3, 0xA8, 0xE5, 0x86, 0x8C]"

definition get_verify_code :: "string \<Rightarrow> ('s, int + string) cor" where
  "get_verify_code email =
     bind (redis_get email) (\<lambda>get_result.
     case get_result of
       Some code \<Rightarrow> Done (Inr code)
     | None \<Rightarrow> UuidC (\<lambda>code.
         bind (redis_set_expired email code 600) (\<lambda>ok.
         if \<not> ok then Done (Inl (-1)) else Done (Inr code))))"

definition GetVerifyCode_rpc :: "string \<Rightarrow> ('w mail_client_scheme, pb_verify_rsp) cor" where
  "GetVerifyCode_rpc email =
     bind (get_verify_code email) (\<lambda>unique_id.
     case unique_id of
       Inl _ \<Rightarrow> Done \<lparr>gvr_error = -1, gvr_email = email, gvr_code = []\<rparr>
     | Inr code \<Rightarrow>
         (let content = mail_text_before @ code @ mail_text_after in
          Upd (send_mail email ''verify code'' content) (\<lambda>_.
          Upd (send_mail ''chitanda@localhost'' ''verify code'' content) (\<lambda>_.
          Done \<lparr>gvr_error = 0, gvr_email = email, gvr_code = code\<rparr>))))"

lemma quiet_get_verify_code [simp]: "quiet (get_verify_code email)"
  by (auto simp: get_verify_code_def intro!: quiet_bind split: option.split)

end
