(* ===== verification/GateServer.thy ===== *)
theory GateServer
  imports Prelude
begin

text \<open>
  The gate's threads and connections: \<^verbatim>\<open>gate_server/context_thread.hpp\<close>, \<^verbatim>\<open>context_pool.hpp\<close>,
  \<^verbatim>\<open>server.hpp\<close>, \<^verbatim>\<open>server.cpp\<close> and the keep-alive loop of \<^verbatim>\<open>http_connection.cpp\<close>.
\<close>

section \<open>Context threads and the pool\<close>

text \<open>A thread is running while its \<^verbatim>\<open>io_context\<close> has the work guard or pending operations.\<close>

record context_thread =
  ct_running :: bool
  ct_guard :: bool
  ct_joined :: bool

definition new_context_thread :: context_thread where
  "new_context_thread = \<lparr>ct_running = False, ct_guard = True, ct_joined = False\<rparr>"

definition context_thread_run :: "context_thread \<Rightarrow> context_thread" where
  "context_thread_run t = (if ct_running t then t else t\<lparr>ct_running := True\<rparr>)"

definition context_thread_stop :: "context_thread \<Rightarrow> context_thread" where
  "context_thread_stop t =
     (if \<not> ct_running t then t else t\<lparr>ct_running := False, ct_guard := False, ct_joined := True\<rparr>)"

text \<open>The destructor; a thread that a stop has joined is left as it is.\<close>

definition context_thread_destroy :: "context_thread \<Rightarrow> context_thread" where
  "context_thread_destroy t = context_thread_stop t"

lemma thread_destroy_after_stop: "context_thread_destroy (context_thread_stop t) = context_thread_stop t"
  by (simp add: context_thread_destroy_def context_thread_stop_def)

record context_pool =
  cp_threads :: "context_thread list"
  cp_next :: nat

definition new_context_pool :: "nat \<Rightarrow> context_pool" where
  "new_context_pool n = \<lparr>cp_threads = replicate n new_context_thread, cp_next = 0\<rparr>"

text \<open>The position of the context handed out; the reference into the vector is not checked.\<close>

definition get_io_context :: "context_pool \<Rightarrow> nat \<times> context_pool" where
  "get_io_context p = (cp_next p, p\<lparr>cp_next := (cp_next p + 1) mod length (cp_threads p)\<rparr>)"

definition context_pool_run :: "context_pool \<Rightarrow> context_pool" where
  "context_pool_run p = p\<lparr>cp_threads := map context_thread_run (cp_threads p)\<rparr>"

definition context_pool_stop :: "context_pool \<Rightarrow> context_pool" where
  "context_pool_stop p = p\<lparr>cp_threads := map context_thread_stop (cp_threads p)\<rparr>"

fun take_contexts :: "nat \<Rightarrow> context_pool \<Rightarrow> nat list \<times> context_pool" where
  "take_contexts 0 p = ([], p)"
| "take_contexts (Suc n) p =
     (let (i, p') = get_io_context p; (is, p'') = take_contexts n p' in (i # is, p''))"

lemma get_io_context_threads [simp]: "cp_threads (snd (get_io_context p)) = cp_threads p"
  by (simp add: get_io_context_def)

lemma take_contexts_mod:
  "cp_next p < length (cp_threads p) \<Longrightarrow>
   fst (take_contexts n p) = map (\<lambda>k. (cp_next p + k) mod length (cp_threads p)) [0..<n]"
proof (induction n arbitrary: p)
  case (Suc n)
  let ?l = "length (cp_threads p)"
  have "(cp_next p + 1) mod ?l < ?l" using Suc.prems by (intro mod_less_divisor) linarith
  then have "fst (take_contexts n (snd (get_io_context p))) =
      map (\<lambda>k. ((cp_next p + 1) mod ?l + k) mod ?l) [0..<n]"
    using Suc.IH [of "snd (get_io_context p)"] by (simp add: get_io_context_def)
  also have "\<dots> = map (\<lambda>k. (cp_next p + k) mod ?l) (map Suc [0..<n])"
    by (simp add: mod_add_left_eq del: map_Suc_upt)
  also have "\<dots> = map (\<lambda>k. (cp_next p + k) mod ?l) [1..<Suc n]"
    by (simp only: map_Suc_upt One_nat_def)
  finally show ?case
    using Suc.prems
    by (simp add: case_prod_beta Let_def upt_conv_Cons del: upt_Suc) (simp add: get_io_context_def)
qed simp

section \<open>The server\<close>

text \<open>Sessions are kept in a \<^verbatim>\<open>std::map\<close> under their uuid; a number stands for the connection object.\<close>

record gate_server =
  gs_running :: bool
  gs_pool :: context_pool
  gs_accepting :: bool
  gs_sessions :: "(string \<times> nat) list"

definition new_gate_server :: gate_server where
  "new_gate_server = \<lparr>gs_running = False, gs_pool = new_context_pool 4, gs_accepting = True, gs_sessions = []\<rparr>"

definition add_session :: "nat \<Rightarrow> string \<Rightarrow> gate_server \<Rightarrow> gate_server" where
  "add_session c uuid s = s\<lparr>gs_sessions := smap_set uuid c (gs_sessions s)\<rparr>"

definition clear_session :: "string \<Rightarrow> gate_server \<Rightarrow> gate_server" where
  "clear_session uuid s = s\<lparr>gs_sessions := smap_erase uuid (gs_sessions s)\<rparr>"

text \<open>\<open>dispatcher_ok\<close>: the result of \<^verbatim>\<open>dispatcher_->init(config)\<close>.\<close>

definition gate_server_init :: "bool \<Rightarrow> gate_server \<Rightarrow> int \<times> gate_server" where
  "gate_server_init dispatcher_ok s =
     (if gs_running s then (-1, s)
      else (let s' = s\<lparr>gs_running := True, gs_pool := context_pool_run (gs_pool s)\<rparr>
            in (if dispatcher_ok then 0 else -1, s')))"

definition gate_server_stop :: "gate_server \<Rightarrow> gate_server" where
  "gate_server_stop s =
     (if \<not> gs_running s then s
      else s\<lparr>gs_running := False, gs_accepting := False, gs_pool := context_pool_stop (gs_pool s),
        gs_sessions := []\<rparr>)"

text \<open>The destructor stops the server once more; nothing is left to do then.\<close>

definition gate_server_destroy :: "gate_server \<Rightarrow> gate_server" where
  "gate_server_destroy s = gate_server_stop s"

lemma destroy_after_stop: "gate_server_destroy (gate_server_stop s) = gate_server_stop s"
  by (simp add: gate_server_destroy_def gate_server_stop_def)

section \<open>Connections\<close>

text \<open>
  \<^verbatim>\<open>HttpConnection::run\<close> between two suspensions: reading a request, waiting for its handler, writing
  the response; it returns after \<^verbatim>\<open>clean_up\<close>, or an exception leaves it: the completion of the
  handler's 30-second limit is not redirected to \<^verbatim>\<open>ec\<close>, so it throws.
\<close>

datatype conn_state = ConnReading | ConnHandling bool | ConnWriting bool | ConnClosed | ConnThrown

record gate_process =
  gp_server :: gate_server
  gp_uuid :: "nat \<Rightarrow> string"
  gp_conn :: "nat \<Rightarrow> conn_state"
  gp_started :: "nat set"

definition set_conn :: "nat \<Rightarrow> conn_state \<Rightarrow> gate_process \<Rightarrow> gate_process" where
  "set_conn c st p = p\<lparr>gp_conn := (gp_conn p)(c := st)\<rparr>"

definition clean_up :: "nat \<Rightarrow> gate_process \<Rightarrow> gate_process" where
  "clean_up c p = p\<lparr>gp_server := clear_session (gp_uuid p c) (gp_server p)\<rparr>"

text \<open>\<^verbatim>\<open>Server::run\<close>: a new connection under a fresh uuid.\<close>

definition accept_conn :: "nat \<Rightarrow> string \<Rightarrow> gate_process \<Rightarrow> gate_process" where
  "accept_conn c uuid p = set_conn c ConnReading
     (p\<lparr>gp_server := add_session c uuid ((gp_server p)\<lparr>gs_pool := snd (get_io_context (gs_pool (gp_server p)))\<rparr>),
        gp_uuid := (gp_uuid p)(c := uuid), gp_started := insert c (gp_started p)\<rparr>)"

inductive gate_step :: "gate_process \<Rightarrow> gate_process \<Rightarrow> bool" where
  conn_accept: "gs_accepting (gp_server p) \<Longrightarrow> c \<notin> gp_started p \<Longrightarrow> uuid \<notin> gp_uuid p ` gp_started p \<Longrightarrow>
    gate_step p (accept_conn c uuid p)"
| conn_read: "gp_conn p c = ConnReading \<Longrightarrow> gate_step p (set_conn c (ConnHandling keep_alive) p)"
| conn_read_error: "gp_conn p c = ConnReading \<Longrightarrow> gate_step p (set_conn c ConnClosed (clean_up c p))"
| conn_handled: "gp_conn p c = ConnHandling keep_alive \<Longrightarrow> gate_step p (set_conn c (ConnWriting keep_alive) p)"
| conn_cancelled: "gp_conn p c = ConnHandling keep_alive \<Longrightarrow> gate_step p (set_conn c ConnThrown p)"
| conn_written: "gp_conn p c = ConnWriting True \<Longrightarrow> gate_step p (set_conn c ConnReading p)"
| conn_finished: "gp_conn p c = ConnWriting False \<Longrightarrow> gate_step p (set_conn c ConnClosed (clean_up c p))"
| conn_write_error: "gp_conn p c = ConnWriting keep_alive \<Longrightarrow> gate_step p (set_conn c ConnClosed (clean_up c p))"
| server_stop: "gate_step p (p\<lparr>gp_server := gate_server_stop (gp_server p)\<rparr>)"

inductive_cases gate_stepE: "gate_step p q"

definition gate_initial :: "gate_process \<Rightarrow> bool" where
  "gate_initial p \<longleftrightarrow> gs_sessions (gp_server p) = [] \<and> gp_started p = {} \<and>
     gp_conn p = (\<lambda>_. ConnClosed)"

inductive gate_reachable :: "gate_process \<Rightarrow> bool" where
  gate_init: "gate_initial p \<Longrightarrow> gate_reachable p"
| gate_next: "gate_reachable p \<Longrightarrow> gate_step p q \<Longrightarrow> gate_reachable q"

section \<open>The session table\<close>

text \<open>
  Entries belong to started connections under their own uuid, and a connection that has been closed
  has none.
\<close>

definition gate_inv :: "gate_process \<Rightarrow> bool" where
  "gate_inv p \<longleftrightarrow>
     smap_ok (gs_sessions (gp_server p)) \<and> inj_on (gp_uuid p) (gp_started p) \<and>
     (\<forall>u c. smap_find (gs_sessions (gp_server p)) u = Some c \<longrightarrow>
        c \<in> gp_started p \<and> gp_uuid p c = u \<and> gp_conn p c \<noteq> ConnClosed) \<and>
     (\<forall>c. c \<notin> gp_started p \<longrightarrow> gp_conn p c = ConnClosed)"

lemma gate_inv_started: "gate_inv p \<Longrightarrow> gp_conn p c \<noteq> ConnClosed \<Longrightarrow> c \<in> gp_started p"
  unfolding gate_inv_def by metis

lemma gate_inv_uuid:
  assumes "gate_inv p" "gp_conn p c \<noteq> ConnClosed" "gp_conn p d \<noteq> ConnClosed" "gp_uuid p c = gp_uuid p d"
  shows "c = d"
proof -
  have "inj_on (gp_uuid p) (gp_started p)" using assms(1) by (simp add: gate_inv_def)
  from inj_onD [OF this assms(4) gate_inv_started [OF assms(1,2)] gate_inv_started [OF assms(1,3)]]
  show ?thesis .
qed

lemma gate_inv_ok: "gate_inv p \<Longrightarrow> smap_ok (gs_sessions (gp_server p))"
  by (simp add: gate_inv_def)

lemma set_conn_inv:
  "gate_inv p \<Longrightarrow> gp_conn p c \<noteq> ConnClosed \<Longrightarrow> st \<noteq> ConnClosed \<Longrightarrow> gate_inv (set_conn c st p)"
  unfolding gate_inv_def set_conn_def by auto

lemma clean_up_inv:
  assumes "gate_inv p" "gp_conn p c \<noteq> ConnClosed"
  shows "gate_inv (set_conn c ConnClosed (clean_up c p))"
proof -
  have c: "c \<in> gp_started p" using assms by (auto simp: gate_inv_def)
  have "u = gp_uuid p c" if "smap_find (gs_sessions (gp_server p)) u = Some c" for u
    using assms that by (auto simp: gate_inv_def)
  then show ?thesis
    using assms c by (auto simp: gate_inv_def set_conn_def clean_up_def clear_session_def smap_find_erase)
qed

lemma accept_inv:
  assumes "gate_inv p" "c \<notin> gp_started p" "uuid \<notin> gp_uuid p ` gp_started p"
  shows "gate_inv (accept_conn c uuid p)"
proof -
  have "inj_on ((gp_uuid p)(c := uuid)) (insert c (gp_started p))"
    using assms by (auto simp: gate_inv_def inj_on_def image_iff)
  then show ?thesis
    using assms by (auto simp: gate_inv_def accept_conn_def set_conn_def add_session_def smap_find_set)
qed

lemma gate_step_inv: "gate_step p q \<Longrightarrow> gate_inv p \<Longrightarrow> gate_inv q"
proof (induction rule: gate_step.induct)
  case (conn_accept p c uuid)
  then show ?case by (simp add: accept_inv)
next
  case (server_stop p)
  then show ?case by (auto simp: gate_inv_def gate_server_stop_def)
qed (auto intro!: set_conn_inv clean_up_inv)

lemma gate_reachable_inv: "gate_reachable p \<Longrightarrow> gate_inv p"
  proof (induction rule: gate_reachable.induct)
  case (gate_init p)
  then show ?case by (simp add: gate_initial_def gate_inv_def)
qed (rule gate_step_inv)

end
