(* ===== verification/Config.thy ===== *)
theory Config
  imports Json StatusServer
begin

text \<open>
  The configuration of the services: the TOML file of the gate (\<^verbatim>\<open>gate_server/config.hpp\<close>), the JSON
  files of the chat, status and verify servers, and the Redis connection settings.
\<close>

section \<open>The gate's TOML file\<close>

text \<open>toml++: the value of a key in a section, if it is there and of the type asked for.\<close>

record toml =
  toml_string :: "string \<Rightarrow> string \<Rightarrow> string option"
  toml_int :: "string \<Rightarrow> string \<Rightarrow> i32 option"

record server_config =
  sc_host :: string
  sc_port :: i32

record redis_config = server_config +
  rc_user :: string
  rc_pass :: string

record mysql_config = redis_config +
  mc_database :: string

definition server_config_from_toml :: "toml \<Rightarrow> string \<Rightarrow> server_config option" where
  "server_config_from_toml t prefix =
     Option.bind (toml_string t prefix ''host'') (\<lambda>h.
     Option.bind (toml_int t prefix ''port'') (\<lambda>p. Some \<lparr>sc_host = h, sc_port = p\<rparr>))"

definition redis_config_from_toml :: "toml \<Rightarrow> string \<Rightarrow> redis_config option" where
  "redis_config_from_toml t prefix =
     Option.bind (toml_string t prefix ''host'') (\<lambda>h.
     Option.bind (toml_int t prefix ''port'') (\<lambda>p.
     Option.bind (toml_string t prefix ''user'') (\<lambda>u.
     Option.bind (toml_string t prefix ''pass'') (\<lambda>w.
       Some \<lparr>sc_host = h, sc_port = p, rc_user = u, rc_pass = w\<rparr>))))"

definition mysql_config_from_toml :: "toml \<Rightarrow> string \<Rightarrow> mysql_config option" where
  "mysql_config_from_toml t prefix =
     Option.bind (toml_string t prefix ''host'') (\<lambda>h.
     Option.bind (toml_int t prefix ''port'') (\<lambda>p.
     Option.bind (toml_string t prefix ''user'') (\<lambda>u.
     Option.bind (toml_string t prefix ''pass'') (\<lambda>w.
     Option.bind (toml_string t prefix ''database'') (\<lambda>d.
       Some \<lparr>sc_host = h, sc_port = p, rc_user = u, rc_pass = w, mc_database = d\<rparr>)))))"

text \<open>The three \<^verbatim>\<open>valid()\<close> members are the same code.\<close>

definition config_valid :: "'a server_config_scheme \<Rightarrow> bool" where
  "config_valid c \<longleftrightarrow> sc_host c \<noteq> [] \<and> sint (sc_port c) \<ge> 1 \<and> sint (sc_port c) \<le> 65535"

definition valid_or_none :: "'a server_config_scheme option \<Rightarrow> 'a server_config_scheme option" where
  "valid_or_none c = Option.bind c (\<lambda>x. if config_valid x then Some x else None)"

record gate_config =
  gc_server :: server_config
  gc_verify :: server_config
  gc_status :: server_config
  gc_redis :: redis_config
  gc_mysql :: mysql_config

definition read_config :: "toml \<Rightarrow> gate_config option" where
  "read_config t =
     Option.bind (valid_or_none (server_config_from_toml t ''server'')) (\<lambda>s.
     Option.bind (valid_or_none (server_config_from_toml t ''verify'')) (\<lambda>v.
     Option.bind (valid_or_none (server_config_from_toml t ''status'')) (\<lambda>st.
     Option.bind (valid_or_none (redis_config_from_toml t ''redis'')) (\<lambda>r.
     Option.bind (valid_or_none (mysql_config_from_toml t ''mysql'')) (\<lambda>m.
       Some \<lparr>gc_server = s, gc_verify = v, gc_status = st, gc_redis = r, gc_mysql = m\<rparr>)))))"

definition gate_config_init :: "toml \<Rightarrow> int" where
  "gate_config_init t = (case read_config t of None \<Rightarrow> -1 | Some _ \<Rightarrow> 0)"

text \<open>\<^verbatim>\<open>redis_config_init\<close> and \<^verbatim>\<open>RedisClient::get_config\<close>: the HELLO credentials, host and port.\<close>

record redis_connection_config =
  rcc_hello :: "(string \<times> string) option"
  rcc_host :: string
  rcc_port :: string

definition redis_config_init :: "'a redis_config_scheme \<Rightarrow> redis_connection_config" where
  "redis_config_init c =
     \<lparr>rcc_hello = (if rc_user c \<noteq> [] then Some (rc_user c, rc_pass c) else None),
      rcc_host = sc_host c, rcc_port = to_string (sint (sc_port c))\<rparr>"

text \<open>The gate has a function of the same name in \<^verbatim>\<open>dispatcher.cpp\<close>.\<close>

definition gate_redis_config_init :: "'a redis_config_scheme \<Rightarrow> redis_connection_config" where
  "gate_redis_config_init c =
     \<lparr>rcc_hello = (if rc_user c \<noteq> [] then Some (rc_user c, rc_pass c) else None),
      rcc_host = sc_host c, rcc_port = to_string (sint (sc_port c))\<rparr>"

lemma gate_redis_config_same [simp]: "gate_redis_config_init = redis_config_init"
  by (simp add: fun_eq_iff gate_redis_config_init_def redis_config_init_def)

section \<open>The JSON files\<close>

definition server_config_from_json :: "json_lib \<Rightarrow> json \<Rightarrow> server_config option" where
  "server_config_from_json J j =
     Option.bind (field_string J ''host'' j) (\<lambda>h.
     Option.bind (field_i32 J ''port'' j) (\<lambda>p. Some \<lparr>sc_host = h, sc_port = p\<rparr>))"

definition named_server_from_json :: "json_lib \<Rightarrow> json \<Rightarrow> chat_server_config option" where
  "named_server_from_json J j =
     Option.bind (field_string J ''name'' j) (\<lambda>n.
     Option.bind (field_string J ''host'' j) (\<lambda>h.
     Option.bind (field_i32 J ''port'' j) (\<lambda>p. Some \<lparr>csc_name = n, csc_host = h, csc_port = p\<rparr>)))"

definition redis_config_from_json :: "json_lib \<Rightarrow> json \<Rightarrow> redis_config option" where
  "redis_config_from_json J j =
     Option.bind (field_string J ''host'' j) (\<lambda>h. Option.bind (field_i32 J ''port'' j) (\<lambda>p.
     Option.bind (field_string J ''user'' j) (\<lambda>u. Option.bind (field_string J ''pass'' j) (\<lambda>w.
       Some \<lparr>sc_host = h, sc_port = p, rc_user = u, rc_pass = w\<rparr>))))"

definition mysql_config_from_json :: "json_lib \<Rightarrow> json \<Rightarrow> mysql_config option" where
  "mysql_config_from_json J j =
     Option.bind (field_string J ''host'' j) (\<lambda>h. Option.bind (field_i32 J ''port'' j) (\<lambda>p.
     Option.bind (field_string J ''user'' j) (\<lambda>u. Option.bind (field_string J ''pass'' j) (\<lambda>w.
     Option.bind (field_string J ''database'' j) (\<lambda>d.
       Some \<lparr>sc_host = h, sc_port = p, rc_user = u, rc_pass = w, mc_database = d\<rparr>)))))"

text \<open>A class member is read with the conversion of its class.\<close>

definition member :: "(json \<Rightarrow> 'b option) \<Rightarrow> string \<Rightarrow> json \<Rightarrow> 'b option" where
  "member f k j = Option.bind (json_at j k) f"

record chat_config =
  cc_server :: chat_server_config
  cc_status :: server_config
  cc_grpc :: server_config
  cc_peer :: server_config
  cc_redis :: redis_config
  cc_mysql :: mysql_config

definition chat_config_from_json :: "json_lib \<Rightarrow> json \<Rightarrow> chat_config option" where
  "chat_config_from_json J j =
     Option.bind (member (named_server_from_json J) ''server'' j) (\<lambda>s.
     Option.bind (member (server_config_from_json J) ''status_server'' j) (\<lambda>st.
     Option.bind (member (server_config_from_json J) ''grpc_server'' j) (\<lambda>g.
     Option.bind (member (server_config_from_json J) ''peer_grpc_server'' j) (\<lambda>p.
     Option.bind (member (redis_config_from_json J) ''redis'' j) (\<lambda>r.
     Option.bind (member (mysql_config_from_json J) ''mysql'' j) (\<lambda>m.
       Some \<lparr>cc_server = s, cc_status = st, cc_grpc = g, cc_peer = p, cc_redis = r, cc_mysql = m\<rparr>))))))"

record status_config =
  stc_server :: chat_server_config
  stc_redis :: redis_config
  stc_chat_servers :: "chat_server_config list"

definition status_config_from_json :: "json_lib \<Rightarrow> json \<Rightarrow> status_config option" where
  "status_config_from_json J j =
     Option.bind (member (named_server_from_json J) ''server'' j) (\<lambda>s.
     Option.bind (member (redis_config_from_json J) ''redis'' j) (\<lambda>r.
     Option.bind (field_list (named_server_from_json J) ''chat_servers'' j) (\<lambda>c.
       Some \<lparr>stc_server = s, stc_redis = r, stc_chat_servers = c\<rparr>)))"

record email_config =
  ec_user :: string
  ec_pass :: string

record verify_config =
  vc_server :: server_config
  vc_email :: email_config
  vc_redis :: redis_config

definition email_config_from_json :: "json_lib \<Rightarrow> json \<Rightarrow> email_config option" where
  "email_config_from_json J j =
     Option.bind (field_string J ''user'' j) (\<lambda>u. Option.bind (field_string J ''pass'' j) (\<lambda>p.
       Some \<lparr>ec_user = u, ec_pass = p\<rparr>))"

definition verify_config_from_json :: "json_lib \<Rightarrow> json \<Rightarrow> verify_config option" where
  "verify_config_from_json J j =
     Option.bind (member (server_config_from_json J) ''server'' j) (\<lambda>s.
     Option.bind (member (email_config_from_json J) ''email'' j) (\<lambda>e.
     Option.bind (member (redis_config_from_json J) ''redis'' j) (\<lambda>r.
       Some \<lparr>vc_server = s, vc_email = e, vc_redis = r\<rparr>)))"

text \<open>
  \<^verbatim>\<open>init\<close> of a JSON configuration: the text of the file if it opens, and -1 with the old value for
  whatever the library throws.
\<close>

definition json_config_init :: "json_lib \<Rightarrow> (json \<Rightarrow> 'c option) \<Rightarrow> string option \<Rightarrow> 'c \<Rightarrow> int \<times> 'c" where
  "json_config_init J from_json file old =
     (case file of
        None \<Rightarrow> (-1, old)
      | Some text \<Rightarrow>
          (case nlohmann_parse_json J from_json text of
             None \<Rightarrow> (-1, old)
           | Some c \<Rightarrow> (0, c)))"

lemma read_config_valid:
  "read_config t = Some c \<Longrightarrow>
   config_valid (gc_server c) \<and> config_valid (gc_verify c) \<and> config_valid (gc_status c) \<and>
   config_valid (gc_redis c) \<and> config_valid (gc_mysql c)"
  by (auto simp: read_config_def valid_or_none_def split: bind_splits if_splits)

end
