(* ===== verification/ServiceProperties.thy ===== *)
theory ServiceProperties
  imports StatusServer VerifyServer SampleRun GateServer Config
begin

text \<open>
  What holds of the status and the verify server, of the gate's connections and of the configuration.
\<close>

section \<open>Status server\<close>

text \<open>The counts Redis reports in state \<open>s\<close>, and that no server of the list has fewer logins than this one.\<close>

definition login_counts :: "'s environment \<Rightarrow> 's \<Rightarrow> (string \<times> i64) list" where
  "login_counts env s =
     (case fst (on_redis env (R_HGETALL LoginCountKey) s) of R_Value (R_Map m) \<Rightarrow> m | _ \<Rightarrow> [])"

definition fewest_logins ::
    "(string \<times> i64) list \<Rightarrow> chat_server_config list \<Rightarrow> chat_server_config \<Rightarrow> bool" where
  "fewest_logins counts servers srv \<longleftrightarrow> srv \<in> set servers \<and>
     (\<forall>other\<in>set servers. count_of counts (csc_name srv) \<le>s count_of counts (csc_name other))"

lemma run_login_counts:
  "\<exists>t. run env (redis_hgetall LoginCountKey) s = (Inr (login_counts env s), t)"
  by (cases "on_redis env (R_HGETALL LoginCountKey) s")
    (auto simp: redis_hgetall_def login_counts_def split: redis_reply.split redis_value.split)

lemma run_server_index:
  assumes "servers \<noteq> []"
  shows "\<exists>i t. run env (get_server_index servers) s = (Inr i, t) \<and> i < length servers \<and>
    fewest_logins (login_counts env s) servers (servers ! i)"
proof -
  obtain t where t: "run env (redis_hgetall LoginCountKey) s = (Inr (login_counts env s), t)"
    using run_login_counts [of env s] by (elim exE)
  show ?thesis
  proof (cases "login_counts env s = []")
    case True
    have "fewest_logins [] servers (servers ! 0)"
      using assms by (simp add: fewest_logins_def count_of_def)
    with True assms t show ?thesis
      by (intro exI [of _ 0] exI [of _ t]) (simp add: get_server_index_def run_bind)
  next
    case False
    let ?i = "least_loaded (apply_counts (login_counts env s) (initial_counts servers))"
    have "?i < length servers" "fewest_logins (login_counts env s) servers (servers ! ?i)"
      using least_loaded_spec [OF assms, where result = "login_counts env s"] by (simp_all add: fewest_logins_def)
    with False t show ?thesis
      by (intro exI [of _ ?i] exI [of _ t]) (simp add: get_server_index_def run_bind)
  qed
qed

lemma chat_server_chosen:
  assumes "keeps_keys store env" "servers \<noteq> []"
  shows "\<exists>rsp t srv. run env (GetChatServer_rpc servers uid) s = (Inr (Some rsp), t) \<and>
    gcs_error rsp = 0 \<and> gcs_host rsp = csc_host srv \<and> gcs_port rsp = csc_port srv \<and>
    fewest_logins (login_counts env s) servers srv \<and> store t (token_key uid) = Some (gcs_token rsp) \<and>
    run env (StatusLogin_rpc uid) t =
      (Inr \<lparr>lgs_error = 0, lgs_uid = uid, lgs_token = gcs_token rsp\<rparr>, t)"
proof -
  obtain i t1 where i: "run env (get_server_index servers) s = (Inr i, t1)" "i < length servers"
    "fewest_logins (login_counts env s) servers (servers ! i)"
    using run_server_index [OF assms(2), of env s] by (elim exE conjE)
  obtain token t2 where u: "on_uuid env t1 = (token, t2)" by force
  obtain t where t: "run env (redis_set (token_key uid) token) t2 = (Inr True, t)"
    "store t = (store t2)(token_key uid \<mapsto> token)"
    using run_redis_set [OF assms(1), of "token_key uid" token t2] by (elim exE conjE)
  let ?rsp = "empty_chat_server_rsp\<lparr>gcs_host := csc_host (servers ! i), gcs_port := csc_port (servers ! i),
    gcs_token := token\<rparr>"
  have "run env (GetChatServer_rpc servers uid) s = (Inr (Some ?rsp), t)"
    using i(1,2) u t(1) by (simp add: GetChatServer_rpc_def run_bind server_at_def)
  moreover have "run env (StatusLogin_rpc uid) t = (Inr \<lparr>lgs_error = 0, lgs_uid = uid, lgs_token = token\<rparr>, t)"
    using t(2) by (simp add: StatusLogin_rpc_def run_bind run_redis_get [OF assms(1)])
  ultimately show ?thesis
    using i(3) t(2)
    by (intro exI [of _ ?rsp] exI [of _ t] exI [of _ "servers ! i"]) (simp add: empty_chat_server_rsp_def)
qed

text \<open>C22: asked for a chat server, the status server names a configured one that has the fewest logins of all
  (with the counts Redis reports, zero for a server it does not know, and the first of the list when there are
  none), and the token it answers with is the one Redis holds for the user afterwards: the token query returns it.\<close>

theorem chat_server_is_least_loaded:
  assumes "keeps_keys store env" "servers \<noteq> []"
  shows "\<exists>rsp t srv. run env (GetChatServer_rpc servers uid) s = (Inr (Some rsp), t) \<and>
    gcs_error rsp = 0 \<and> gcs_host rsp = csc_host srv \<and> gcs_port rsp = csc_port srv \<and>
    fewest_logins (login_counts env s) servers srv \<and> store t (token_key uid) = Some (gcs_token rsp) \<and>
    run env (StatusLogin_rpc uid) t =
      (Inr \<lparr>lgs_error = 0, lgs_uid = uid, lgs_token = gcs_token rsp\<rparr>, t)"
  by (rule chat_server_chosen [OF assms])

definition sample_servers :: "chat_server_config list" where
  "sample_servers = [\<lparr>csc_name = ''chat1'', csc_host = ''10.0.0.1'', csc_port = 8090\<rparr>,
     \<lparr>csc_name = ''chat2'', csc_host = ''10.0.0.2'', csc_port = 8090\<rparr>]"

lemma sample_keeps: "keeps_keys w_keys sample_env"
  by (rule servicesD(1) [OF sample_services])

theorem chat_server_is_least_loaded_witness:
  "\<exists>rsp t. run sample_env (GetChatServer_rpc sample_servers 1) sample_world = (Inr (Some rsp), t) \<and> gcs_error rsp = 0"
  using chat_server_is_least_loaded [OF sample_keeps, of sample_servers 1 sample_world]
  by (auto simp: sample_servers_def)

section \<open>Verify server\<close>

text \<open>The verify server's state beside the mail queue: the keys of Redis.\<close>

record verify_world = mail_client +
  vw_keys :: "string \<Rightarrow> string option"

definition verify_services :: "verify_world environment \<Rightarrow> bool" where
  "verify_services env \<longleftrightarrow> keeps_keys vw_keys env \<and>
     (\<forall>q s. mc_queue (snd (on_redis env q s)) = mc_queue s) \<and>
     (\<forall>s. mc_queue (snd (on_uuid env s)) = mc_queue s) \<and> (\<forall>s. vw_keys (snd (on_uuid env s)) = vw_keys s)"

definition code_mails :: "string \<Rightarrow> string \<Rightarrow> mail_task list" where
  "code_mails email code =
     [\<lparr>mt_to = email, mt_subject = ''verify code'', mt_body = mail_text_before @ code @ mail_text_after\<rparr>,
      \<lparr>mt_to = ''chitanda@localhost'', mt_subject = ''verify code'', mt_body = mail_text_before @ code @ mail_text_after\<rparr>]"

lemma send_mail_keys [simp]: "vw_keys (send_mail a b c s) = vw_keys s"
  by (simp add: send_mail_def)

lemma run_code_reply:
  "run env (let content = mail_text_before @ code @ mail_text_after in
      Upd (send_mail email ''verify code'' content) (\<lambda>_.
      Upd (send_mail ''chitanda@localhost'' ''verify code'' content) (\<lambda>_.
      Done \<lparr>gvr_error = 0, gvr_email = email, gvr_code = code\<rparr>))) t =
   (Inr \<lparr>gvr_error = 0, gvr_email = email, gvr_code = code\<rparr>, t\<lparr>mc_queue := mc_queue t @ code_mails email code\<rparr>)"
  by (simp add: Let_def send_mail_def code_mails_def)

lemma code_requested:
  assumes "verify_services env"
  shows "\<exists>code t. run env (GetVerifyCode_rpc email) s =
      (Inr \<lparr>gvr_error = 0, gvr_email = email, gvr_code = code\<rparr>, t) \<and>
    (case vw_keys s email of Some c \<Rightarrow> code = c | None \<Rightarrow> code = fst (on_uuid env s)) \<and>
    vw_keys t = (vw_keys s)(email \<mapsto> code) \<and> mc_queue t = mc_queue s @ code_mails email code \<and>
    (\<exists>t'. run env (GetVerifyCode_rpc email) t =
      (Inr \<lparr>gvr_error = 0, gvr_email = email, gvr_code = code\<rparr>, t') \<and> vw_keys t' = vw_keys t)"
proof -
  have keeps: "keeps_keys vw_keys env" using assms by (simp add: verify_services_def)
  have known: "run env (GetVerifyCode_rpc email) s =
      (Inr \<lparr>gvr_error = 0, gvr_email = email, gvr_code = c\<rparr>, s\<lparr>mc_queue := mc_queue s @ code_mails email c\<rparr>)"
    if "vw_keys s email = Some c" for s c
    using that by (simp add: GetVerifyCode_rpc_def get_verify_code_def run_bind run_redis_get [OF keeps] run_code_reply)
  show ?thesis
  proof (cases "vw_keys s email")
    case (Some c)
    let ?t = "s\<lparr>mc_queue := mc_queue s @ code_mails email c\<rparr>"
    from known [OF Some] known [of ?t c] Some show ?thesis
      by (intro exI [of _ c] exI [of _ ?t]) (simp add: fun_upd_idem)
  next
    case None
    obtain c t1 where u: "on_uuid env s = (c, t1)" by force
    then have t1: "vw_keys t1 = vw_keys s" "mc_queue t1 = mc_queue s"
      using assms by (simp_all add: verify_services_def) (metis snd_conv)+
    obtain t2 where t2: "run env (redis_set_expired email c 600) t1 = (Inr True, t2)"
      "vw_keys t2 = (vw_keys t1)(email \<mapsto> c)"
      using run_redis_set_expired [OF keeps] by blast
    then have q: "mc_queue t2 = mc_queue t1"
      using assms by (auto simp: redis_set_expired_def verify_services_def split: prod.splits) (metis snd_conv)
    let ?t = "t2\<lparr>mc_queue := mc_queue t2 @ code_mails email c\<rparr>"
    have "run env (GetVerifyCode_rpc email) s =
        (Inr \<lparr>gvr_error = 0, gvr_email = email, gvr_code = c\<rparr>, ?t)"
      using None u t2(1) by (simp add: GetVerifyCode_rpc_def get_verify_code_def run_bind run_redis_get [OF keeps] run_code_reply)
    with known [of ?t c] None t1 t2(2) q u show ?thesis
      by (intro exI [of _ c] exI [of _ ?t]) simp
  qed
qed

lemma code_stored:
  "verify_services env \<Longrightarrow> \<exists>code t. run env (GetVerifyCode_rpc email) s =
    (Inr \<lparr>gvr_error = 0, gvr_email = email, gvr_code = code\<rparr>, t) \<and> vw_keys t = (vw_keys s)(email \<mapsto> code)"
  using code_requested [of env email s] by blast

text \<open>C36: the first request for an address stores a new code under it and later ones get the same code, as
  long as Redis keeps it; each request queues the same two mails with the code and answers with it.\<close>

theorem verify_code_is_reused:
  assumes "verify_services env"
  shows "\<exists>code t. run env (GetVerifyCode_rpc email) s =
      (Inr \<lparr>gvr_error = 0, gvr_email = email, gvr_code = code\<rparr>, t) \<and>
    (case vw_keys s email of Some c \<Rightarrow> code = c | None \<Rightarrow> code = fst (on_uuid env s)) \<and>
    vw_keys t = (vw_keys s)(email \<mapsto> code) \<and> mc_queue t = mc_queue s @ code_mails email code \<and>
    (\<exists>t'. run env (GetVerifyCode_rpc email) t =
      (Inr \<lparr>gvr_error = 0, gvr_email = email, gvr_code = code\<rparr>, t') \<and> vw_keys t' = vw_keys t)"
  by (rule code_requested [OF assms])

definition sample_verify_env :: "verify_world environment" where
  "sample_verify_env = \<lparr>
     on_redis = (\<lambda>q s. case q of
         R_GET k \<Rightarrow> (R_Value (case vw_keys s k of None \<Rightarrow> R_Nil | Some v \<Rightarrow> R_Str v), s)
       | R_SET k v \<Rightarrow> (R_Value (R_Str ''OK''), s\<lparr>vw_keys := (vw_keys s)(k \<mapsto> v)\<rparr>)
       | R_SETEX k t v \<Rightarrow> (R_Value (R_Str ''OK''), s\<lparr>vw_keys := (vw_keys s)(k \<mapsto> v)\<rparr>)
       | _ \<Rightarrow> (R_Value R_Nil, s)),
     on_sql = (\<lambda>q s. (SqlOk [], s)),
     on_rpc = (\<lambda>q s. (RpcFailed ''unavailable'', s)),
     on_uuid = (\<lambda>s. (''6f0d'', s))\<rparr>"

lemma sample_verify_services: "verify_services sample_verify_env"
  by (auto simp: verify_services_def keeps_keys_def sample_verify_env_def split: redis_cmd.split)

definition sample_verify_world :: verify_world where
  "sample_verify_world = \<lparr>mc_queue = [], mc_stop = False, mc_worker = WorkerWaiting,
     vw_keys = [UserTokenKey 1 \<mapsto> ''t1'']\<rparr>"

theorem verify_code_is_reused_witness:
  "\<exists>t. run sample_verify_env (GetVerifyCode_rpc ''a@x'') sample_verify_world =
     (Inr \<lparr>gvr_error = 0, gvr_email = ''a@x'', gvr_code = ''6f0d''\<rparr>, t) \<and> length (mc_queue t) = 2"
  using verify_code_is_reused [OF sample_verify_services, of "''a@x''" sample_verify_world]
  by (auto simp: sample_verify_world_def code_mails_def sample_verify_env_def UserTokenKey_def UserTokenPrefix_def)

text \<open>The codes share the key space of the login tokens.\<close>

lemma verify_code_disclosed:
  assumes "keeps_keys vw_keys env" "vw_keys s (UserTokenKey uid) = Some token"
  shows "\<exists>t. run env (GetVerifyCode_rpc (UserTokenKey uid)) s =
    (Inr \<lparr>gvr_error = 0, gvr_email = UserTokenKey uid, gvr_code = token\<rparr>, t)"
  using assms
  by (simp add: GetVerifyCode_rpc_def get_verify_code_def run_bind run_redis_get [OF assms(1)] run_code_reply)

section \<open>Mail\<close>

lemma worker_empties:
  "mc_worker c = WorkerWaiting \<Longrightarrow> length (mc_queue c) = n \<Longrightarrow>
   (worker_step ^^ (2 * n)) (c, out) =
     (c\<lparr>mc_queue := []\<rparr>, out @ map popen_input (mc_queue c))"
proof (induction n arbitrary: c out)
  case (Suc n)
  then obtain t ts where q: "mc_queue c = t # ts" by (cases "mc_queue c") auto
  have eq: "2 * Suc n = Suc (Suc (2 * n))" by simp
  have "(worker_step ^^ (2 * Suc n)) (c, out) =
      (worker_step ^^ (2 * n)) (c\<lparr>mc_queue := ts, mc_worker := WorkerWaiting\<rparr>, out @ [popen_input t])"
    using Suc.prems(1) q unfolding eq funpow_Suc_right o_apply
    by (simp add: worker_wakes_def worker_round_def)
  also have "\<dots> = (c\<lparr>mc_queue := []\<rparr>, out @ map popen_input (mc_queue c))"
    using Suc q by simp
  finally show ?case .
qed simp

text \<open>However callers, the worker and the end of the process are interleaved, what has been handed to the
  mail command is a prefix of the mails that were sent, in order, each once and none lost: the mails still to
  come are the one in the worker's hands and those in the queue.\<close>

lemma mails_are_sent_in_order:
  assumes "mail_reach sent p"
  shows "map popen_input sent = snd p @ map popen_input (in_hand (fst p) @ mc_queue (fst p))"
  using mail_conservation [OF assms] by simp

text \<open>C34: every mail is handed to the mail command in the end: from every reachable state in which the worker
  has not returned, twice as many of its steps as there are mails waiting, and one more, deliver all that were sent.\<close>

theorem mails_are_delivered:
  assumes "mail_reach sent (c, out)" "mc_worker c \<noteq> WorkerReturned"
  shows "snd ((worker_step ^^ (2 * length (mc_queue c) + 1)) (c, out)) = map popen_input sent"
proof (cases "mc_worker c")
  case WorkerWaiting
  have "snd (worker_step (c\<lparr>mc_queue := []\<rparr>, x)) = x" for x
    using WorkerWaiting by (simp add: worker_wakes_def worker_round_def)
  with WorkerWaiting show ?thesis
    using worker_empties [OF WorkerWaiting refl] mail_conservation [OF assms(1)] by (simp add: in_hand_def)
next
  case (WorkerDelivering t)
  have "(worker_step ^^ (2 * length (mc_queue c) + 1)) (c, out) =
      (worker_step ^^ (2 * length (mc_queue c))) (c\<lparr>mc_worker := WorkerWaiting\<rparr>, out @ [popen_input t])"
    unfolding Suc_eq_plus1 [symmetric] funpow_Suc_right o_apply by (simp add: WorkerDelivering)
  then show ?thesis
    using worker_empties [of "c\<lparr>mc_worker := WorkerWaiting\<rparr>"] mail_conservation [OF assms(1)]
    by (simp add: in_hand_def WorkerDelivering)
qed (use assms(2) in simp)

definition sample_mail :: mail_task where
  "sample_mail = \<lparr>mt_to = ''a@x'', mt_subject = ''verify code'', mt_body = ''hi''\<rparr>"

definition one_mail :: mail_client where
  "one_mail = send_mail ''a@x'' ''verify code'' ''hi'' new_mail_client"

lemma one_mail_reach: "mail_reach [sample_mail] (one_mail, [])"
  using mail_enqueue [OF mail_init, of "''a@x''" "''verify code''" "''hi''"]
  by (simp add: one_mail_def sample_mail_def)

theorem mails_are_sent_in_order_witness:
  "map popen_input [sample_mail] = [] @ map popen_input (in_hand one_mail @ mc_queue one_mail)"
  using mails_are_sent_in_order [OF one_mail_reach] by simp

theorem mails_are_delivered_witness:
  "snd ((worker_step ^^ 3) (one_mail, [])) = [popen_input sample_mail]"
  using mails_are_delivered [OF one_mail_reach]
  by (simp add: one_mail_def send_mail_def new_mail_client_def eval_nat_numeral del: worker_step.simps)

text \<open>When the process ends, the destructor's wait for the worker is finite: after two steps for every mail
  in the queue and one more the worker has returned, with the queue empty and every mail delivered.\<close>

lemma worker_returns:
  assumes "mc_stop c" "mc_worker c = WorkerWaiting"
  shows "(worker_step ^^ (2 * length (mc_queue c) + 1)) (c, out) =
    (c\<lparr>mc_queue := [], mc_worker := WorkerReturned\<rparr>, out @ map popen_input (mc_queue c))"
  by (rule worker_drains [OF assms refl])

theorem worker_returns_witness:
  "mc_worker (fst ((worker_step ^^ 3) (request_stop one_mail, []))) = WorkerReturned"
  using worker_returns [of "request_stop one_mail" "[]"]
  by (simp add: one_mail_def request_stop_def send_mail_def new_mail_client_def eval_nat_numeral del: worker_step.simps)

text \<open>C40: a shell reads the mail command as it is meant, for every subject and recipient without a NUL byte:
  the words after the option are exactly the subject and the recipient, whatever quotes, blanks or shell
  characters they contain.\<close>

theorem mail_command_words:
  assumes "CHR 0x00 \<notin> set (mt_subject t)" "CHR 0x00 \<notin> set (mt_to t)"
  shows "\<exists>words redirect. fst (popen_input t) = ''/usr/bin/mail -s '' @ words \<and>
    sh_plain words = Some (mt_subject t, CHR '' '' # redirect) \<and>
    sh_plain redirect = Some (mt_to t, '' 2>/dev/null'')"
proof -
  let ?redirect = "shell_quote (mt_to t) @ '' 2>/dev/null''"
  let ?words = "shell_quote (mt_subject t) @ CHR '' '' # ?redirect"
  have z: "CHR 0x00 \<notin> set (shell_quote s)" if "CHR 0x00 \<notin> set s" for s
    using that by (auto simp: shell_quote_def)
  have "CHR 0x00 \<notin> set (mail_command t)"
    using z [OF assms(1)] z [OF assms(2)] by (simp add: mail_command_def)
  then have "fst (popen_input t) = ''/usr/bin/mail -s '' @ ?words"
    by (simp add: popen_input_def takeWhile_all) (simp add: mail_command_def)
  moreover have "sh_plain ?words = Some (mt_subject t, CHR '' '' # ?redirect)"
    by (rule sh_shell_quote) simp
  moreover have "sh_plain ?redirect = Some (mt_to t, '' 2>/dev/null'')"
    by (rule sh_shell_quote) simp
  ultimately show ?thesis by blast
qed

theorem mail_command_words_witness:
  "\<exists>words redirect. sh_plain words = Some (''x; rm'', CHR '' '' # redirect) \<and> sh_plain redirect = Some (''a@x'', '' 2>/dev/null'')"
  using mail_command_words [of "\<lparr>mt_to = ''a@x'', mt_subject = ''x; rm'', mt_body = ''hi''\<rparr>"] by auto

end
