(* ===== verification/Gate.thy ===== *)
theory Gate
  imports Repos RedisClient
begin

text \<open>
  The HTTP gate: \<^verbatim>\<open>gate_server/error.hpp\<close>, \<^verbatim>\<open>gate_server/error.cpp\<close>, \<^verbatim>\<open>gate_server/user_repo.hpp\<close>,
  \<^verbatim>\<open>gate_server/verify_service.hpp\<close> and the handlers and dispatch of \<^verbatim>\<open>gate_server/dispatcher.cpp\<close>.
\<close>

section \<open>\<^verbatim>\<open>error.hpp\<close>\<close>

datatype service_error =
    SUCCESS | NOT_FOUND | INVALID_JSON | RPC_FAILED | RPC_RETURN_ERROR | INVALID_VERIFY_CODE
  | USER_OR_EMAIL_EXIST | USER_OR_EMAIL_INVALID | USER_OR_PASSWORD_INVALID

fun service_code :: "service_error \<Rightarrow> u8" where
  "service_code SUCCESS = 0"
| "service_code NOT_FOUND = 1"
| "service_code INVALID_JSON = 3"
| "service_code RPC_FAILED = 4"
| "service_code RPC_RETURN_ERROR = 5"
| "service_code INVALID_VERIFY_CODE = 6"
| "service_code USER_OR_EMAIL_EXIST = 7"
| "service_code USER_OR_EMAIL_INVALID = 8"
| "service_code USER_OR_PASSWORD_INVALID = 9"

fun ServiceError2String :: "service_error \<Rightarrow> string" where
  "ServiceError2String SUCCESS = ''Ok''"
| "ServiceError2String NOT_FOUND = ''Not found''"
| "ServiceError2String INVALID_JSON = ''Invalid json''"
| "ServiceError2String RPC_FAILED = ''Internal server error''"
| "ServiceError2String RPC_RETURN_ERROR = ''Internal server error''"
| "ServiceError2String INVALID_VERIFY_CODE = ''Invalid verify code''"
| "ServiceError2String USER_OR_EMAIL_EXIST = ''User or email exist''"
| "ServiceError2String USER_OR_EMAIL_INVALID = ''User or email invalid''"
| "ServiceError2String USER_OR_PASSWORD_INVALID = ''User or password invalid''"

text \<open>\<^verbatim>\<open>ErrorCode\<close>: an \<^verbatim>\<open>error_code\<close> is a value and whether its category is the service's.\<close>

definition ERR_NOT_FOUND :: int where "ERR_NOT_FOUND = 0"
definition ERR_USER_OR_EMAIL_EXIST :: int where "ERR_USER_OR_EMAIL_EXIST = 1"

definition error_to_string :: "int \<Rightarrow> string" where
  "error_to_string v =
     (if v mod 256 = ERR_NOT_FOUND then ''not_found''
      else if v mod 256 = ERR_USER_OR_EMAIL_EXIST then ''user_or_email_exist''
      else ''<unknown ErrorCode>'')"

section \<open>HTTP\<close>

datatype verb = VerbGet | VerbPost | VerbOther string

record http_request =
  rq_method :: verb
  rq_target :: string
  rq_content_type :: "string option"
  rq_body :: string

record http_response =
  hr_status :: nat
  hr_content_type :: "string option"
  hr_body :: string

definition http_error_response :: "nat \<Rightarrow> string \<Rightarrow> http_response" where
  "http_error_response code msg = \<lparr>hr_status = code, hr_content_type = None, hr_body = msg\<rparr>"

definition bad_request :: "string \<Rightarrow> http_response" where
  "bad_request body = http_error_response 400 body"

definition internal_server_error :: http_response where
  "internal_server_error = http_error_response 500 ''Internal server error''"

definition json_text_response :: "string \<Rightarrow> http_response" where
  "json_text_response t = \<lparr>hr_status = 200, hr_content_type = Some ''application/json'', hr_body = t\<rparr>"

definition response_from_db_error :: "bool \<Rightarrow> int \<Rightarrow> http_response" where
  "response_from_db_error service_category v =
     (if service_category
      then (if v mod 256 = ERR_NOT_FOUND then http_error_response 404 ''user does not exist''
            else if v mod 256 = ERR_USER_OR_EMAIL_EXIST then http_error_response 409 ''user or email conflict''
            else internal_server_error)
      else internal_server_error)"

text \<open>
  The libraries of the gate: nlohmann, Boost.URL's origin form (path and query parameters), and
  Boost.JSON on the two structs of the verify endpoint.
\<close>

record gate_libs =
  gl_json :: json_lib
  url_parse :: "string \<Rightarrow> (string \<times> (string \<times> string) list) option"
  bj_parse_email :: "string \<Rightarrow> string option"
  bj_serialize_verify :: "string \<Rightarrow> string \<Rightarrow> string"

definition nlohmann_json_response :: "gate_libs \<Rightarrow> json \<Rightarrow> ('s, http_response) cor" where
  "nlohmann_json_response G j =
     (case dump (gl_json G) j of None \<Rightarrow> Throw StdException | Some t \<Rightarrow> Done (json_text_response t))"

definition gate_payload :: "json option \<Rightarrow> service_error \<Rightarrow> string \<Rightarrow> json" where
  "gate_payload body err msg =
     (let j = json_set ''message'' (JStr (if msg = [] then ServiceError2String err else msg))
                (json_set ''status'' (JUInt (unat (service_code err))) JNull)
      in case body of Some b \<Rightarrow> json_set ''data'' b j | None \<Rightarrow> j)"

abbreviation payload_empty :: "service_error \<Rightarrow> json" where
  "payload_empty err \<equiv> gate_payload None err []"

section \<open>\<^verbatim>\<open>user_repo.hpp\<close>\<close>

record user_register_request =
  urr_user :: string
  urr_email :: string
  urr_passwd :: string
  urr_confirm_passwd :: string
  urr_verify_code :: string

record user_register_response =
  ure_id :: i64
  ure_user :: string
  ure_email :: string
  ure_passwd :: string

record user_reset_request =
  urq_user :: string
  urq_email :: string
  urq_passwd :: string
  urq_verify_code :: string

record gate_login_request =
  glr_user :: string
  glr_passwd :: string

definition user_register_request_from_json :: "json_lib \<Rightarrow> json \<Rightarrow> user_register_request option" where
  "user_register_request_from_json J j =
     Option.bind (field_string J ''user'' j) (\<lambda>u. Option.bind (field_string J ''email'' j) (\<lambda>e.
     Option.bind (field_string J ''passwd'' j) (\<lambda>p. Option.bind (field_string J ''confirm_passwd'' j) (\<lambda>c.
     Option.bind (field_string J ''verify_code'' j) (\<lambda>v.
       Some \<lparr>urr_user = u, urr_email = e, urr_passwd = p, urr_confirm_passwd = c, urr_verify_code = v\<rparr>)))))"

definition user_register_response_to_json :: "user_register_response \<Rightarrow> json" where
  "user_register_response_to_json r =
     json_set ''passwd'' (JStr (ure_passwd r)) (json_set ''email'' (JStr (ure_email r))
     (json_set ''user'' (JStr (ure_user r)) (json_set ''id'' (of_i64 (ure_id r)) JNull)))"

definition user_reset_request_from_json :: "json_lib \<Rightarrow> json \<Rightarrow> user_reset_request option" where
  "user_reset_request_from_json J j =
     Option.bind (field_string J ''user'' j) (\<lambda>u. Option.bind (field_string J ''email'' j) (\<lambda>e.
     Option.bind (field_string J ''passwd'' j) (\<lambda>p. Option.bind (field_string J ''verify_code'' j) (\<lambda>v.
       Some \<lparr>urq_user = u, urq_email = e, urq_passwd = p, urq_verify_code = v\<rparr>))))"

definition gate_login_request_from_json :: "json_lib \<Rightarrow> json \<Rightarrow> gate_login_request option" where
  "gate_login_request_from_json J j =
     Option.bind (field_string J ''user'' j) (\<lambda>u. Option.bind (field_string J ''passwd'' j) (\<lambda>p.
       Some \<lparr>glr_user = u, glr_passwd = p\<rparr>))"

definition create_user ::
    "user_register_request \<Rightarrow> ('s, service_error + user_register_response) cor" where
  "create_user req =
     catch
       (bind sql_connect (\<lambda>_.
        bind (sql_run PrepareInsertUser 0) (\<lambda>_.
        bind (sql_run (Execute (InsertUser (urr_user req) (urr_email req) (urr_passwd req))) 1) (\<lambda>result.
        Done (Inr \<lparr>ure_id = res_last_id (hd result), ure_user = urr_user req,
          ure_email = urr_email req, ure_passwd = urr_passwd req\<rparr>)))))
       (\<lambda>e. case e of
          MysqlError c \<Rightarrow> if c = 1062 then Done (Inl USER_OR_EMAIL_EXIST) else Throw e
        | StdException \<Rightarrow> Throw e)"

definition repo_reset_password :: "user_reset_request \<Rightarrow> ('s, bool) cor" where
  "repo_reset_password req =
     bind sql_connect (\<lambda>_.
     bind (sql_run (Execute (UpdatePassword (urq_passwd req) (urq_user req) (urq_email req))) 1) (\<lambda>result.
     Done (res_affected (hd result) \<noteq> 0)))"

definition id_of_row :: "sql_row \<Rightarrow> i64 option" where
  "id_of_row r = map_option word_of_int (field_int r ''id'')"

definition check_password :: "gate_login_request \<Rightarrow> ('s, service_error + i64) cor" where
  "check_password req =
     bind (sql_select (SelectIdByPassword (glr_user req) (glr_passwd req)) id_of_row) (\<lambda>rows.
     case rows of
       [] \<Rightarrow> Done (Inl USER_OR_PASSWORD_INVALID)
     | i # _ \<Rightarrow> Done (Inr i))"

section \<open>\<^verbatim>\<open>verify_service.hpp\<close>\<close>

definition verify_client_get_code :: "string \<Rightarrow> ('s, string + pb_verify_rsp) cor" where
  "verify_client_get_code email = RpcC (CallGetVerifyCode email) (\<lambda>r. Done (case r of
       RspVerify rsp \<Rightarrow> Inr rsp
     | RpcFailed e \<Rightarrow> Inl e
     | _ \<Rightarrow> Inl []))"

definition status_client_get_chat_server :: "i64 \<Rightarrow> ('s, service_error + pb_chat_server_rsp) cor" where
  "status_client_get_chat_server uid = RpcC (CallGetChatServer (narrow_i32 uid)) (\<lambda>r. Done (case r of
       RspChatServer rsp \<Rightarrow> Inr rsp
     | _ \<Rightarrow> Inl RPC_FAILED))"

section \<open>Handlers\<close>

type_synonym 's http_handler = "gate_libs \<Rightarrow> http_request \<Rightarrow> ('s, http_response) cor"

definition get_test :: "'s http_handler" where
  "get_test G request =
     (let params = (case url_parse G (rq_target request) of Some (_, ps) \<Rightarrow> ps | None \<Rightarrow> [])
      in Done \<lparr>hr_status = 200, hr_content_type = Some ''text/plain'',
        hr_body = ''receive get_test req'' @ [CHR 0x0A] @
          concat (map (\<lambda>(k, v). k @ '' = '' @ v @ [CHR 0x0A]) params)\<rparr>)"

definition gate_get_verify_code :: "'s http_handler" where
  "gate_get_verify_code G request =
     (if rq_content_type request \<noteq> Some ''application/json''
      then Done (bad_request (''Invalid Content-Type: expected '' @ [CHR 0x27] @ ''application/json'' @ [CHR 0x27]))
      else (case bj_parse_email G (rq_body request) of
        None \<Rightarrow> Done (bad_request ''Invalid JSON body'')
      | Some email \<Rightarrow>
          bind (verify_client_get_code email) (\<lambda>rpc_result.
          case rpc_result of
            Inl _ \<Rightarrow> Done internal_server_error
          | Inr rsp \<Rightarrow>
              if gvr_error rsp \<noteq> 0 then Done internal_server_error
              else Done (json_text_response (bj_serialize_verify G email (gvr_code rsp))))))"

text \<open>\<^verbatim>\<open>async_exec\<close> without an error code throws; so does \<^verbatim>\<open>value()\<close> of a reply that is an error.\<close>

definition verify_code_of :: "string \<Rightarrow> ('s, string option) cor" where
  "verify_code_of email = RedisC (R_GET email) (\<lambda>reply. case reply of
       R_Value R_Nil \<Rightarrow> Done None
     | R_Value (R_Str s) \<Rightarrow> Done (Some s)
     | _ \<Rightarrow> Throw StdException)"

definition user_register :: "'s http_handler" where
  "user_register G request =
     (case nlohmann_parse_json (gl_json G) (user_register_request_from_json (gl_json G)) (rq_body request) of
        None \<Rightarrow> Done (bad_request ''Invalid JSON body'')
      | Some req \<Rightarrow>
          bind (verify_code_of (urr_email req)) (\<lambda>result.
          if result \<noteq> Some (urr_verify_code req)
          then nlohmann_json_response G (payload_empty INVALID_VERIFY_CODE)
          else bind (create_user req) (\<lambda>user_info.
            case user_info of
              Inl e \<Rightarrow>
                if e = USER_OR_EMAIL_EXIST
                then nlohmann_json_response G (payload_empty USER_OR_EMAIL_EXIST)
                else Throw StdException
            | Inr u \<Rightarrow> nlohmann_json_response G
                (gate_payload (Some (user_register_response_to_json u)) SUCCESS []))))"

definition reset_password :: "'s http_handler" where
  "reset_password G request =
     (case nlohmann_parse_json (gl_json G) (user_reset_request_from_json (gl_json G)) (rq_body request) of
        None \<Rightarrow> Done (bad_request ''Invalid JSON body'')
      | Some req \<Rightarrow>
          bind (verify_code_of (urq_email req)) (\<lambda>result.
          if result \<noteq> Some (urq_verify_code req)
          then nlohmann_json_response G (payload_empty INVALID_VERIFY_CODE)
          else bind (repo_reset_password req) (\<lambda>success.
            if \<not> success then nlohmann_json_response G (payload_empty USER_OR_EMAIL_INVALID)
            else nlohmann_json_response G (payload_empty SUCCESS))))"

definition gate_login_response_to_json :: "i64 \<Rightarrow> string \<Rightarrow> pb_chat_server_rsp \<Rightarrow> json" where
  "gate_login_response_to_json uid user rsp =
     json_set ''port'' (of_i32 (gcs_port rsp)) (json_set ''host'' (JStr (gcs_host rsp))
     (json_set ''token'' (JStr (gcs_token rsp)) (json_set ''user'' (JStr user)
     (json_set ''id'' (of_i64 uid) JNull))))"

definition user_login :: "'s http_handler" where
  "user_login G request =
     (case nlohmann_parse_json (gl_json G) (gate_login_request_from_json (gl_json G)) (rq_body request) of
        None \<Rightarrow> Done (bad_request ''Invalid JSON body'')
      | Some req \<Rightarrow>
          bind (check_password req) (\<lambda>result.
          case result of
            Inl e \<Rightarrow> nlohmann_json_response G (payload_empty e)
          | Inr uid \<Rightarrow>
              bind (status_client_get_chat_server uid) (\<lambda>response.
              case response of
                Inl _ \<Rightarrow> Done internal_server_error
              | Inr rsp \<Rightarrow>
                  if gcs_error rsp \<noteq> 0
                  then nlohmann_json_response G (payload_empty RPC_RETURN_ERROR)
                  else nlohmann_json_response G (gate_payload
                    (Some (gate_login_response_to_json uid (glr_user req) rsp)) SUCCESS []))))"

section \<open>Dispatch\<close>

text \<open>\<^verbatim>\<open>std::unordered_multimap<std::string_view, HttpHandler>\<close>\<close>

type_synonym 's route_table = "(string \<times> verb \<times> 's http_handler) list"

definition gate_handlers_init :: "'s route_table" where
  "gate_handlers_init =
     [(''/get_test'', VerbGet, get_test),
      (''/get_verify_code'', VerbPost, gate_get_verify_code),
      (''/user_register'', VerbPost, user_register),
      (''/reset_password'', VerbPost, reset_password),
      (''/user_login'', VerbPost, user_login)]"

definition register_get_handler :: "string \<Rightarrow> 's http_handler \<Rightarrow> 's route_table \<Rightarrow> 's route_table" where
  "register_get_handler path handler table = table @ [(path, VerbGet, handler)]"

definition register_post_handler :: "string \<Rightarrow> 's http_handler \<Rightarrow> 's route_table \<Rightarrow> 's route_table" where
  "register_post_handler path handler table = table @ [(path, VerbPost, handler)]"

definition handle_request :: "'s route_table \<Rightarrow> 's http_handler" where
  "handle_request table G request =
     (case url_parse G (rq_target request) of
        None \<Rightarrow> Done (bad_request ''Invalid request target'')
      | Some (path, params) \<Rightarrow>
          (let range = filter (\<lambda>h. fst h = path) table in
           if range = [] then Done (http_error_response 404 ''The requested endpoint does not exist'')
           else (case List.find (\<lambda>h. fst (snd h) = rq_method request) range of
               None \<Rightarrow> Done (http_error_response 405 ''Unsupported HTTP method'')
             | Some (_, _, handler) \<Rightarrow>
                 catch (handler G request) (\<lambda>err. case err of
                     MysqlError _ \<Rightarrow> Done internal_server_error
                   | StdException \<Rightarrow> Done internal_server_error))))"

end
