(* ===== verification/GateBehaviour.thy ===== *)
theory GateBehaviour
  imports Gate World
begin

text \<open>
  What the gate answers and stores: the outcome of dispatch for every request, and the effect of
  registration, password reset and login on the tables.
\<close>

section \<open>Dispatch\<close>

text \<open>Which of the four outcomes a request has, by its target and method alone.\<close>

datatype dispatch = BadTarget | NoEndpoint | BadMethod | Handled string

definition dispatch_of :: "'s route_table \<Rightarrow> gate_libs \<Rightarrow> http_request \<Rightarrow> dispatch" where
  "dispatch_of table G rq =
     (case url_parse G (rq_target rq) of
        None \<Rightarrow> BadTarget
      | Some (path, _) \<Rightarrow>
          if path \<notin> fst ` set table then NoEndpoint
          else if (path, rq_method rq) \<notin> (\<lambda>h. (fst h, fst (snd h))) ` set table then BadMethod
          else Handled path)"

lemma range_empty: "filter (\<lambda>h. fst h = path) table = [] \<longleftrightarrow> path \<notin> fst ` set table"
  by (auto simp: filter_empty_conv)

lemma find_range_None:
  "List.find (\<lambda>h. fst (snd h) = m) (filter (\<lambda>h. fst h = path) table) = None \<longleftrightarrow>
   (path, m) \<notin> (\<lambda>h. (fst h, fst (snd h))) ` set table"
  by (force simp: find_None_iff)

lemma run_handle_request_total: "\<exists>r t. run env (handle_request table G rq) s = (Inr r, t)"
  by (auto simp: handle_request_def Let_def cor_simps split: option.split sum.split prod.split exn.split)

lemma run_dispatch:
  "dispatch_of table G rq = BadTarget \<Longrightarrow> run env (handle_request table G rq) s =
     (Inr (bad_request ''Invalid request target''), s)"
  "dispatch_of table G rq = NoEndpoint \<Longrightarrow> run env (handle_request table G rq) s =
     (Inr (http_error_response 404 ''The requested endpoint does not exist''), s)"
  "dispatch_of table G rq = BadMethod \<Longrightarrow> run env (handle_request table G rq) s =
     (Inr (http_error_response 405 ''Unsupported HTTP method''), s)"
  by (auto simp: dispatch_of_def handle_request_def Let_def simp flip: range_empty find_range_None
      simp del: filter_empty_conv split: option.splits if_splits)

text \<open>The initial table has one handler for each path.\<close>

lemma gate_table_paths: "distinct (map fst gate_handlers_init)"
  by (simp add: gate_handlers_init_def)

section \<open>The user table\<close>

definition find_user :: "dialect \<Rightarrow> db \<Rightarrow> string \<Rightarrow> string \<Rightarrow> db_user option" where
  "find_user D d name pwd =
     List.find (\<lambda>u. same_text D (u_name u) name \<and> same_text D (u_pwd u) pwd) (db_users d)"

lemma find_unique:
  assumes "a \<in> set xs" "Q a" "\<forall>x\<in>set xs. Q x \<longrightarrow> x = a"
  shows "List.find Q xs = Some a"
  using assms(1,3)
proof (induction xs)
  case (Cons x xs)
  show ?case
  proof (cases "Q x")
    case True
    then have "x = a" using Cons.prems(2) by (meson list.set_intros(1))
    then show ?thesis using assms(2) by simp
  next
    case False
    then have "a \<in> set xs" using Cons.prems(1) assms(2) by (metis set_ConsD)
    then have "List.find Q xs = Some a" using Cons.IH Cons.prems(2) by (meson list.set_intros(2))
    then show ?thesis using False by simp
  qed
qed simp

lemma dialect_okD:
  assumes "dialect_ok D"
  shows "same_text D s s" "same_text D s t \<Longrightarrow> same_text D t s"
    "same_text D s t \<Longrightarrow> same_text D t u \<Longrightarrow> same_text D s u"
  using assms unfolding dialect_ok_def by blast+

text \<open>A user who has been inserted is found with that password, under the id the server gave out.\<close>

lemma find_user_inserted:
  assumes "dialect_ok D" "insert_user D n e p d = (Inr r, d')"
  shows "find_user D d' n p = Some \<lparr>u_id = db_next_user d, u_name = n, u_email = e, u_pwd = p\<rparr>"
    and "res_last_id r = word_of_int (db_next_user d)"
proof -
  from assms(2) have none: "\<forall>u\<in>set (db_users d). \<not> same_text D (u_name u) n"
    and d': "db_users d' = db_users d @ [\<lparr>u_id = db_next_user d, u_name = n, u_email = e, u_pwd = p\<rparr>]"
    and r: "r = no_rows 1 (word_of_int (db_next_user d))"
    by (auto simp: insert_user_def split: if_splits)
  have "List.find (\<lambda>u. same_text D (u_name u) n \<and> same_text D (u_pwd u) p) (db_users d) = None"
    using none by (auto simp: find_None_iff)
  then show "find_user D d' n p = Some \<lparr>u_id = db_next_user d, u_name = n, u_email = e, u_pwd = p\<rparr>"
    using dialect_okD(1) [OF assms(1)] by (simp add: find_user_def d' find_append)
  show "res_last_id r = word_of_int (db_next_user d)" by (simp add: r no_rows_def)
qed

text \<open>Names are unique, so the password of a user who is reset is the new one and no other.\<close>

lemma same_name_same_user:
  assumes "dialect_ok D" "db_ok D d" "u \<in> set (db_users d)" "v \<in> set (db_users d)"
    and "same_text D (u_name u) n" "same_text D (u_name v) n"
  shows "u = v"
proof (rule ccontr)
  assume "u \<noteq> v"
  have "sorted_wrt P xs \<Longrightarrow> u \<in> set xs \<Longrightarrow> v \<in> set xs \<Longrightarrow> P u v \<or> P v u" for P and xs :: "db_user list"
    using \<open>u \<noteq> v\<close> by (induction xs) auto
  with assms(2-4) have "\<not> same_text D (u_name u) (u_name v) \<or> \<not> same_text D (u_name v) (u_name u)"
    unfolding db_ok_def by blast
  with dialect_okD(2,3) [OF assms(1)] assms(5,6) show False by meson
qed

abbreviation named :: "dialect \<Rightarrow> string \<Rightarrow> string \<Rightarrow> db_user \<Rightarrow> bool" where
  "named D n e u \<equiv> same_text D (u_name u) n \<and> same_text D (u_email u) e"

lemma update_password_users:
  "update_password D p n e d = (Inr r, d') \<Longrightarrow>
   db_users d' = map (\<lambda>u. if named D n e u then u\<lparr>u_pwd := p\<rparr> else u) (db_users d)"
  by (clarsimp simp: update_password_def Let_def split: if_split_asm)

lemma update_password_affected:
  "update_password D p n e d = (Inr r, d') \<Longrightarrow>
   res_affected r = length (if counts_found D then filter (named D n e) (db_users d)
      else filter (\<lambda>u. u_pwd u \<noteq> p) (filter (named D n e) (db_users d)))"
  by (clarsimp simp: update_password_def Let_def no_rows_def split: if_split_asm)

lemma sorted_wrt_distinct: "sorted_wrt P xs \<Longrightarrow> \<forall>x\<in>set xs. \<not> P x x \<Longrightarrow> distinct xs"
  by (induction xs) auto

lemma db_ok_distinct: "db_ok D d \<Longrightarrow> distinct (db_users d)"
  unfolding db_ok_def by (elim conjE, erule sorted_wrt_distinct) blast

lemma distinct_singleton_set: "distinct xs \<Longrightarrow> set xs = {x} \<Longrightarrow> xs = [x]"
proof (cases xs)
  case (Cons y ys)
  assume "distinct xs" "set xs = {x}"
  with Cons show ?thesis by (cases ys) auto
qed simp

lemma named_is_unique:
  assumes "dialect_ok D" "db_ok D d" "u \<in> set (db_users d)" "named D n e u"
  shows "filter (named D n e) (db_users d) = [u]"
proof (rule distinct_singleton_set)
  show "distinct (filter (named D n e) (db_users d))"
    by (rule distinct_filter [OF db_ok_distinct [OF assms(2)]])
  have only: "v = u" if "v \<in> set (db_users d)" "named D n e v" for v
    using same_name_same_user [OF assms(1,2) that(1) assms(3), of n] that(2) assms(4) by simp
  show "set (filter (named D n e) (db_users d)) = {u}"
  proof (rule equalityI)
    show "set (filter (named D n e) (db_users d)) \<subseteq> {u}"
      by (rule subsetI) (simp only: set_filter mem_Collect_eq singleton_iff, rule only, simp_all)
  qed (use assms(3,4) in simp)
qed

lemma find_user_reset:
  assumes "dialect_ok D" "db_ok D d" "u \<in> set (db_users d)" "named D n e u"
    and "update_password D p n e d = (Inr r, d')"
  shows "find_user D d' n q = (if same_text D p q then Some (u\<lparr>u_pwd := p\<rparr>) else None)"
proof -
  let ?g = "\<lambda>u. if named D n e u then u\<lparr>u_pwd := p\<rparr> else u"
  let ?Q = "\<lambda>u. same_text D (u_name u) n \<and> same_text D (u_pwd u) q"
  have d': "db_users d' = map ?g (db_users d)" by (rule update_password_users [OF assms(5)])
  have gu: "?g u = u\<lparr>u_pwd := p\<rparr>" using assms(4) by simp
  have only: "?g v = ?g u" if "v \<in> set (db_users d)" "?Q (?g v)" for v
  proof -
    have "same_text D (u_name v) n" using that(2) by (simp split: if_splits)
    then have "v = u"
      by (rule same_name_same_user [OF assms(1,2) that(1) assms(3)]) (use assms(4) in simp)
    then show ?thesis by simp
  qed
  show ?thesis
  proof (cases "same_text D p q")
    case True
    have "List.find ?Q (map ?g (db_users d)) = Some (?g u)"
    proof (rule find_unique)
      show "?g u \<in> set (map ?g (db_users d))" unfolding set_map by (rule imageI [OF assms(3)])
      show "?Q (?g u)" unfolding gu using True assms(4) by simp
      show "\<forall>x\<in>set (map ?g (db_users d)). ?Q x \<longrightarrow> x = ?g u"
        unfolding set_map by (intro ballI impI, erule imageE, hypsubst, rule only)
    qed
    with True show ?thesis by (simp only: find_user_def d' gu if_True)
  next
    case False
    have "\<not> ?Q (?g v)" if "v \<in> set (db_users d)" for v
    proof
      assume Q: "?Q (?g v)"
      from only [OF that this] have "u_pwd (?g v) = p" unfolding gu by simp
      with Q False show False by simp
    qed
    then have "List.find ?Q (map ?g (db_users d)) = None"
      unfolding find_None_iff set_map by blast
    with False show ?thesis by (simp only: find_user_def d' if_False)
  qed
qed

lemma run_check_password:
  assumes "services D env"
  shows "run env (check_password req) s =
    (Inr (case find_user D (w_db s) (glr_user req) (glr_passwd req) of
        None \<Rightarrow> Inl USER_OR_PASSWORD_INVALID
      | Some u \<Rightarrow> Inr (word_of_int (u_id u))), s)"
proof -
  let ?st = "SelectIdByPassword (glr_user req) (glr_passwd req)"
  let ?us = "filter (\<lambda>u. same_text D (u_name u) (glr_user req) \<and> same_text D (u_pwd u) (glr_passwd req))
    (db_users (w_db s))"
  have "run env (sql_select ?st id_of_row) s = (Inr (map (\<lambda>u. word_of_int (u_id u)) ?us), s)"
    by (rule run_typed_rows [OF assms, where rs = "map (\<lambda>u. [(''id'', F_Int (u_id u))]) ?us"])
      (simp_all add: id_of_row_def comp_def all_some_map_Some [where g = "\<lambda>u. word_of_int (u_id u)"])
  moreover have "List.find P us = (case filter P us of [] \<Rightarrow> None | u # _ \<Rightarrow> Some u)"
    for P and us :: "db_user list"
    by (induction us) auto
  ultimately show ?thesis
    by (simp add: check_password_def cor_simps find_user_def split: list.split)
qed

lemma run_create_user:
  assumes "services D env"
  shows "run env (create_user req) s =
    (case insert_user D (urr_user req) (urr_email req) (urr_passwd req) (w_db s) of
       (Inl e, d) \<Rightarrow> (if e = 1062 then Inr (Inl USER_OR_EMAIL_EXIST) else Inl (MysqlError e), s)
     | (Inr r, d) \<Rightarrow> (Inr (Inr \<lparr>ure_id = res_last_id r, ure_user = urr_user req,
         ure_email = urr_email req, ure_passwd = urr_passwd req\<rparr>), s\<lparr>w_db := d\<rparr>))"
proof -
  have "run env (sql_run PrepareInsertUser 0) s = (Inr [], s)"
    using servicesD(2) [OF assms] by (simp add: sql_run_def serves_tables_def)
  then show ?thesis
    using run_sql_execute [OF servicesD(2) [OF assms]] run_sql_connect [OF servicesD(2) [OF assms]]
    by (cases "insert_user D (urr_user req) (urr_email req) (urr_passwd req) (w_db s)")
      (auto simp: create_user_def cor_simps split: sum.split)
qed

lemma run_repo_reset_password:
  assumes "services D env"
  shows "run env (repo_reset_password req) s =
    (case update_password D (urq_passwd req) (urq_user req) (urq_email req) (w_db s) of
       (Inl e, d) \<Rightarrow> (Inl (MysqlError e), s)
     | (Inr r, d) \<Rightarrow> (Inr (res_affected r \<noteq> 0), s\<lparr>w_db := d\<rparr>))"
  using run_sql_execute [OF servicesD(2) [OF assms]] run_sql_connect [OF servicesD(2) [OF assms]]
  by (cases "update_password D (urq_passwd req) (urq_user req) (urq_email req) (w_db s)")
    (auto simp: repo_reset_password_def cor_simps split: sum.split)

lemma run_verify_code:
  "services D env \<Longrightarrow> run env (verify_code_of e) s = (Inr (w_keys s e), s)"
  using servicesD(1) [of D env]
  by (simp add: verify_code_of_def keeps_keys_def split: option.split)

section \<open>Registration, reset and login\<close>

text \<open>The reply as the client reads it: the text of this payload with status 200.\<close>

definition answers_with :: "gate_libs \<Rightarrow> (exn + http_response) \<Rightarrow> json \<Rightarrow> bool" where
  "answers_with G r j \<longleftrightarrow> (\<exists>t. dump (gl_json G) j = Some t \<and> r = Inr (json_text_response t))"

lemma run_json_response:
  "dump (gl_json G) j = Some t \<Longrightarrow> run env (nlohmann_json_response G j) s = (Inr (json_text_response t), s)"
  by (simp add: nlohmann_json_response_def)

lemma ascii_service [simp]: "ascii (ServiceError2String e)"
  by (cases e) (simp_all add: ascii_def)

lemma payload_empty_dumps:
  "json_lib_ok (gl_json G) \<Longrightarrow> \<exists>t. dump (gl_json G) (payload_empty e) = Some t"
  using ascii_service [of e] by (intro json_lib_okD(3)) (simp_all add: gate_payload_def ascii_def)

lemma run_payload_empty:
  assumes "json_lib_ok (gl_json G)"
  shows "snd (run env (nlohmann_json_response G (payload_empty e)) s) = s"
    "answers_with G (fst (run env (nlohmann_json_response G (payload_empty e)) s)) (payload_empty e)"
  using payload_empty_dumps [OF assms, of e] by (auto simp: answers_with_def nlohmann_json_response_def)

lemma run_user_register_bad_code:
  assumes "services D env" "json_lib_ok (gl_json G)"
    and "nlohmann_parse_json (gl_json G) (user_register_request_from_json (gl_json G)) (rq_body rq) = Some req"
    and "w_keys s (urr_email req) \<noteq> Some (urr_verify_code req)"
  shows "snd (run env (user_register G rq) s) = s \<and>
    answers_with G (fst (run env (user_register G rq) s)) (payload_empty INVALID_VERIFY_CODE)"
  using assms run_payload_empty [OF assms(2), of env INVALID_VERIFY_CODE s]
  by (simp add: user_register_def cor_simps run_verify_code)

lemma run_user_register:
  assumes "services D env"
    and "nlohmann_parse_json (gl_json G) (user_register_request_from_json (gl_json G)) (rq_body rq) = Some req"
    and "w_keys s (urr_email req) = Some (urr_verify_code req)"
  shows "run env (user_register G rq) s =
    (case insert_user D (urr_user req) (urr_email req) (urr_passwd req) (w_db s) of
       (Inl e, d) \<Rightarrow> if e = 1062 then run env (nlohmann_json_response G (payload_empty USER_OR_EMAIL_EXIST)) s
         else (Inl (MysqlError e), s)
     | (Inr r, d) \<Rightarrow> run env (nlohmann_json_response G (gate_payload (Some (user_register_response_to_json
         \<lparr>ure_id = res_last_id r, ure_user = urr_user req, ure_email = urr_email req,
          ure_passwd = urr_passwd req\<rparr>)) SUCCESS [])) (s\<lparr>w_db := d\<rparr>))"
  using assms by (simp add: user_register_def cor_simps run_verify_code run_create_user [OF assms(1)]
      split: sum.split prod.split)

lemma run_reset_password:
  assumes "services D env"
    and "nlohmann_parse_json (gl_json G) (user_reset_request_from_json (gl_json G)) (rq_body rq) = Some req"
  shows "run env (reset_password G rq) s =
    (if w_keys s (urq_email req) \<noteq> Some (urq_verify_code req)
     then run env (nlohmann_json_response G (payload_empty INVALID_VERIFY_CODE)) s
     else (case update_password D (urq_passwd req) (urq_user req) (urq_email req) (w_db s) of
       (Inl e, d) \<Rightarrow> (Inl (MysqlError e), s)
     | (Inr r, d) \<Rightarrow> run env (nlohmann_json_response G (payload_empty
         (if res_affected r \<noteq> 0 then SUCCESS else USER_OR_EMAIL_INVALID))) (s\<lparr>w_db := d\<rparr>)))"
  using assms by (simp add: reset_password_def cor_simps run_verify_code run_repo_reset_password [OF assms(1)]
      split: sum.split prod.split)

lemma run_user_login:
  assumes "services D env"
    and "nlohmann_parse_json (gl_json G) (gate_login_request_from_json (gl_json G)) (rq_body rq) = Some req"
  shows "run env (user_login G rq) s =
    (case find_user D (w_db s) (glr_user req) (glr_passwd req) of
       None \<Rightarrow> run env (nlohmann_json_response G (payload_empty USER_OR_PASSWORD_INVALID)) s
     | Some u \<Rightarrow>
        (case on_rpc env (CallGetChatServer (narrow_i32 (word_of_int (u_id u)))) s of
           (RspChatServer rsp, t) \<Rightarrow>
             if gcs_error rsp \<noteq> 0 then run env (nlohmann_json_response G (payload_empty RPC_RETURN_ERROR)) t
             else run env (nlohmann_json_response G (gate_payload
               (Some (gate_login_response_to_json (word_of_int (u_id u)) (glr_user req) rsp)) SUCCESS [])) t
         | (_, t) \<Rightarrow> (Inr internal_server_error, t)))"
  using assms by (simp add: user_login_def cor_simps run_check_password status_client_get_chat_server_def
      split: option.split rpc_reply.split prod.split)

end
