(* ===== verification/Startup.thy ===== *)
theory Startup
  imports Config Gate GateServer ChatSession
begin

text \<open>
  How the four programs start: \<^verbatim>\<open>main\<close> of \<^verbatim>\<open>chat_server\<close>, \<^verbatim>\<open>gate_server\<close>, \<^verbatim>\<open>status_server\<close> and
  \<^verbatim>\<open>verify_server\<close> from the arguments to the point where they serve or return, with the initialisation
  of the two dispatch tables, the gRPC channels and the connection pools. Theory
  Shutdown has what follows.
\<close>

section \<open>The machine\<close>

text \<open>
  Files, and the calls that can fail: \<^verbatim>\<open>make_address\<close> and the constructor of an acceptor throw,
  \<^verbatim>\<open>CreateChannel\<close> and \<^verbatim>\<open>BuildAndStart\<close> return a null pointer, \<^verbatim>\<open>toml::parse_file\<close> throws.
\<close>

record machine =
  su_file :: "string \<Rightarrow> string option"
  su_toml :: "string \<Rightarrow> toml option"
  su_address :: "string \<Rightarrow> string option"
  su_bind :: "string \<Rightarrow> u16 \<Rightarrow> bool"
  su_channel :: "string \<Rightarrow> bool"
  su_grpc :: "string \<Rightarrow> bool"

text \<open>
  \<open>Exits\<close> is the value of \<^verbatim>\<open>main\<close>. The server \<^verbatim>\<open>BuildAndStart\<close> returns is used without a check, in a thread
  of its own: \<open>NullServer\<close> is the call of a member of a null pointer.
\<close>

datatype 'a outcome = Exits int | NullServer | Serves 'a

definition host_port :: "'a server_config_scheme \<Rightarrow> string" where
  "host_port c = sc_host c @ '':'' @ to_string (sint (sc_port c))"

definition named_host_port :: "chat_server_config \<Rightarrow> string" where
  "named_host_port c = csc_host c @ '':'' @ to_string (sint (csc_port c))"

section \<open>Connection pools\<close>

record mysql_params =
  mp_host :: string
  mp_port :: u16
  mp_user :: string
  mp_pass :: string
  mp_database :: string
  mp_multi_queries :: bool
  mp_thread_safe :: bool

text \<open>\<^verbatim>\<open>MysqlConnPool::init\<close>, and the same parameters in \<^verbatim>\<open>main\<close> of the chat server.\<close>

definition mysql_pool_init :: "mysql_config \<Rightarrow> mysql_params" where
  "mysql_pool_init c = \<lparr>mp_host = sc_host c, mp_port = ucast (sc_port c), mp_user = rc_user c, mp_pass = rc_pass c,
     mp_database = mc_database c, mp_multi_queries = True, mp_thread_safe = True\<rparr>"

section \<open>The chat server\<close>

definition chat_config_init :: "json_lib \<Rightarrow> string option \<Rightarrow> chat_config \<Rightarrow> int \<times> chat_config" where
  "chat_config_init J = json_config_init J (chat_config_from_json J)"

text \<open>\<^verbatim>\<open>MessageHandler\<close>: the channels by their targets, and the handlers.\<close>

record 'w handler_state =
  mh_status :: "string option"
  mh_peer :: "string option"
  mh_handlers :: "(message_id \<times> 'w handler) list"

definition new_message_handler :: "'w handler_state" where
  "new_message_handler = \<lparr>mh_status = None, mh_peer = None, mh_handlers = []\<rparr>"

definition message_handler_init :: "machine \<Rightarrow> chat_config \<Rightarrow> 'w handler_state \<Rightarrow> int \<times> 'w handler_state" where
  "message_handler_init M config h =
     (let status_target = host_port (cc_status config) in
      if \<not> su_channel M status_target then (-1, h)
      else
        let h = h\<lparr>mh_status := Some status_target\<rparr>;
            peer_target = host_port (cc_peer config) in
        if \<not> su_channel M peer_target then (-1, h)
        else (0, h\<lparr>mh_peer := Some peer_target, mh_handlers := handlers_init\<rparr>))"

record 'w chat_started =
  cst_name :: string
  cst_endpoint :: "string \<times> u16"
  cst_grpc :: string
  cst_mysql :: mysql_params
  cst_redis :: redis_connection_config
  cst_handler :: "'w handler_state"

definition chat_main :: "json_lib \<Rightarrow> machine \<Rightarrow> chat_config \<Rightarrow> string list \<Rightarrow> 'w chat_started outcome" where
  "chat_main J M memory args =
     (case args of
        [path] \<Rightarrow>
          (case chat_config_init J (su_file M path) memory of (r, config) \<Rightarrow>
           if r \<noteq> 0 then Exits (-1)
           else (case message_handler_init M config new_message_handler of (r, handler) \<Rightarrow>
           if r \<noteq> 0 then Exits (-1)
           else (case su_address M (csc_host (cc_server config)) of
                None \<Rightarrow> Exits 0
              | Some address \<Rightarrow>
                  (let port = ucast (csc_port (cc_server config)) in
                   if \<not> su_bind M address port then Exits 0
                   else if \<not> su_grpc M (host_port (cc_grpc config)) then NullServer
                   else Serves
                     \<lparr>cst_name = csc_name (cc_server config), cst_endpoint = (address, port),
                      cst_grpc = host_port (cc_grpc config), cst_mysql = mysql_pool_init (cc_mysql config),
                      cst_redis = redis_config_init (cc_redis config), cst_handler = handler\<rparr>))))
      | _ \<Rightarrow> Exits (-1))"

section \<open>The gate\<close>

record 's dispatcher =
  dp_verify :: "string option"
  dp_status :: "string option"
  dp_redis :: "redis_connection_config option"
  dp_mysql :: "mysql_params option"
  dp_handlers :: "'s route_table"

definition new_dispatcher :: "'s dispatcher" where
  "new_dispatcher = \<lparr>dp_verify = None, dp_status = None, dp_redis = None, dp_mysql = None, dp_handlers = []\<rparr>"

definition dispatcher_init :: "machine \<Rightarrow> gate_config \<Rightarrow> 's dispatcher \<Rightarrow> int \<times> 's dispatcher" where
  "dispatcher_init M config d =
     (let target = host_port (gc_verify config) in
      if \<not> su_channel M target then (-1, d)
      else
        let d = d\<lparr>dp_verify := Some target\<rparr>;
            status_target = host_port (gc_status config) in
        if \<not> su_channel M status_target then (-1, d)
        else (0, d\<lparr>dp_status := Some status_target, dp_redis := Some (gate_redis_config_init (gc_redis config)),
          dp_mysql := Some (mysql_pool_init (gc_mysql config)), dp_handlers := gate_handlers_init\<rparr>))"

record 's gate_started =
  gst_endpoint :: "string \<times> u16"
  gst_server :: gate_server
  gst_dispatcher :: "'s dispatcher"

definition gate_main :: "machine \<Rightarrow> string list \<Rightarrow> 's gate_started outcome" where
  "gate_main M args =
     (case args of
        [path] \<Rightarrow>
          (case su_toml M path of
             None \<Rightarrow> Exits 0
           | Some t \<Rightarrow>
               (case read_config t of
                  None \<Rightarrow> Exits (-1)
                | Some config \<Rightarrow>
                    (case su_address M (sc_host (gc_server config)) of
                       None \<Rightarrow> Exits 0
                     | Some address \<Rightarrow>
                         (let port = ucast (sc_port (gc_server config)) in
                          if \<not> su_bind M address port then Exits 0
                          else (case dispatcher_init M config new_dispatcher of (r, d) \<Rightarrow>
                                case gate_server_init (r = 0) new_gate_server of (r, s) \<Rightarrow>
                                if r < 0 then Exits (-1)
                                else Serves \<lparr>gst_endpoint = (address, port), gst_server = s, gst_dispatcher = d\<rparr>)))))
      | _ \<Rightarrow> Exits (-1))"

section \<open>The status and the verify server\<close>

record grpc_started =
  gsd_address :: string
  gsd_redis :: redis_connection_config
  gsd_chat_servers :: "chat_server_config list"

definition status_main :: "json_lib \<Rightarrow> machine \<Rightarrow> status_config \<Rightarrow> string list \<Rightarrow> grpc_started outcome" where
  "status_main J M memory args =
     (case args of
        [path] \<Rightarrow>
          (case json_config_init J (status_config_from_json J) (su_file M path) memory of (r, config) \<Rightarrow>
           if r \<noteq> 0 then Exits (-1)
           else if \<not> su_grpc M (named_host_port (stc_server config)) then NullServer
           else Serves \<lparr>gsd_address = named_host_port (stc_server config),
             gsd_redis = redis_config_init (stc_redis config), gsd_chat_servers = stc_chat_servers config\<rparr>)
      | _ \<Rightarrow> Exits (-1))"

definition verify_config_init :: "json_lib \<Rightarrow> string option \<Rightarrow> verify_config \<Rightarrow> int \<times> verify_config" where
  "verify_config_init J = json_config_init J (verify_config_from_json J)"

definition verify_main :: "json_lib \<Rightarrow> machine \<Rightarrow> verify_config \<Rightarrow> string list \<Rightarrow> grpc_started outcome" where
  "verify_main J M memory args =
     (case args of
        [path] \<Rightarrow>
          (case verify_config_init J (su_file M path) memory of (r, config) \<Rightarrow>
           if r \<noteq> 0 then Exits (-1)
           else if \<not> su_grpc M (host_port (vc_server config)) then NullServer
           else Serves \<lparr>gsd_address = host_port (vc_server config),
             gsd_redis = redis_config_init (vc_redis config), gsd_chat_servers = []\<rparr>)
      | _ \<Rightarrow> Exits (-1))"

section \<open>The Redis connection and the first jobs of the main context\<close>

text \<open>\<^verbatim>\<open>conn_\<close> is a null pointer until \<^verbatim>\<open>RedisClient::run\<close> has been resumed for the first time.\<close>

record redis_client =
  rd_conn :: "redis_connection_config option"

definition new_redis_client :: redis_client where
  "new_redis_client = \<lparr>rd_conn = None\<rparr>"

definition redis_client_run :: "'a redis_config_scheme \<Rightarrow> redis_client \<Rightarrow> redis_client" where
  "redis_client_run c r = r\<lparr>rd_conn := Some (redis_config_init c)\<rparr>"

text \<open>
  What is queued on the \<^verbatim>\<open>io_context\<close> when \<^verbatim>\<open>main\<close> comes to \<^verbatim>\<open>ioc->run()\<close>: the coroutine of \<^verbatim>\<open>RedisClient::run\<close>, and
  the coroutines of requests, whose first step is a Redis command. \<open>None\<close> is a command on the null pointer.
\<close>

datatype main_job = RunRedis redis_config | RedisRequest

fun run_jobs :: "redis_client \<Rightarrow> main_job list \<Rightarrow> redis_client option" where
  "run_jobs r [] = Some r"
| "run_jobs r (RunRedis c # js) = run_jobs (redis_client_run c r) js"
| "run_jobs r (RedisRequest # js) = (if rd_conn r = None then None else run_jobs r js)"

text \<open>
  The status and the verify server accept gRPC requests before they queue \<^verbatim>\<open>run\<close>: \<open>early\<close> requests arrive in
  between. The chat server queues \<^verbatim>\<open>run\<close> before anything can be accepted.
\<close>

definition status_jobs :: "redis_config \<Rightarrow> nat \<Rightarrow> nat \<Rightarrow> main_job list" where
  "status_jobs c early late = replicate early RedisRequest @ RunRedis c # replicate late RedisRequest"

definition chat_jobs :: "redis_config \<Rightarrow> nat \<Rightarrow> main_job list" where
  "chat_jobs c late = RunRedis c # replicate late RedisRequest"

lemma run_jobs_connected: "rd_conn r \<noteq> None \<Longrightarrow> run_jobs r (replicate n RedisRequest) = Some r"
  by (induction n) auto

lemma early_request_hits_null: "run_jobs new_redis_client (status_jobs c early late) = None \<longleftrightarrow> early \<noteq> 0"
  by (cases early) (simp_all add: status_jobs_def new_redis_client_def redis_client_run_def run_jobs_connected)

lemma chat_requests_find_redis:
  "run_jobs new_redis_client (chat_jobs c late) = Some \<lparr>rd_conn = Some (redis_config_init c)\<rparr>"
  by (simp add: chat_jobs_def new_redis_client_def redis_client_run_def run_jobs_connected)

section \<open>What a started program has\<close>

lemma json_config_loaded:
  "json_config_init J f file old = (0, c) \<longleftrightarrow> (\<exists>text. file = Some text \<and> nlohmann_parse_json J f text = Some c)"
  by (auto simp: json_config_init_def split: option.split)

lemma message_handler_ready:
  "message_handler_init M c h = (0, h') \<longleftrightarrow>
   su_channel M (host_port (cc_status c)) \<and> su_channel M (host_port (cc_peer c)) \<and>
   h' = h\<lparr>mh_status := Some (host_port (cc_status c)), mh_peer := Some (host_port (cc_peer c)),
     mh_handlers := handlers_init\<rparr>"
  by (auto simp: message_handler_init_def Let_def)

lemma dispatcher_ready:
  "dispatcher_init M c d = (0, d') \<longleftrightarrow>
   su_channel M (host_port (gc_verify c)) \<and> su_channel M (host_port (gc_status c)) \<and>
   d' = d\<lparr>dp_verify := Some (host_port (gc_verify c)), dp_status := Some (host_port (gc_status c)),
     dp_redis := Some (redis_config_init (gc_redis c)), dp_mysql := Some (mysql_pool_init (gc_mysql c)),
     dp_handlers := gate_handlers_init\<rparr>"
  by (auto simp: dispatcher_init_def Let_def)

lemma gate_server_ready:
  assumes "gate_server_init ok new_gate_server = (r, s)"
  shows "r < 0 \<longleftrightarrow> \<not> ok" "gs_running s" "gs_sessions s = []"
    "map ct_running (cp_threads (gs_pool s)) = [True, True, True, True]"
proof -
  have s: "s = new_gate_server\<lparr>gs_running := True, gs_pool := context_pool_run (new_context_pool 4)\<rparr>"
    and r: "r = (if ok then 0 else -1)"
    using assms by (simp_all add: gate_server_init_def new_gate_server_def Let_def)
  show "r < 0 \<longleftrightarrow> \<not> ok" by (simp add: r)
  show "gs_running s" "gs_sessions s = []" "map ct_running (cp_threads (gs_pool s)) = [True, True, True, True]"
    by (simp_all add: s new_gate_server_def context_pool_run_def new_context_pool_def context_thread_run_def
        new_context_thread_def numeral_eq_Suc)
qed

lemma chat_main_serves:
  assumes "chat_main J M memory args = Serves st"
  shows "\<exists>path file c. args = [path] \<and> su_file M path = Some file \<and>
     nlohmann_parse_json J (chat_config_from_json J) file = Some c \<and>
     cst_name st = csc_name (cc_server c) \<and> snd (cst_endpoint st) = ucast (csc_port (cc_server c)) \<and>
     cst_grpc st = host_port (cc_grpc c) \<and> mh_peer (cst_handler st) = Some (host_port (cc_peer c)) \<and>
     mh_handlers (cst_handler st) = handlers_init"
  using assms
  by (auto simp: chat_main_def chat_config_init_def message_handler_init_def json_config_init_def Let_def
      split: list.splits prod.splits if_splits option.splits)

text \<open>The JSON configurations are not validated: the chat server listens on its port modulo \<open>2 ^ 16\<close>.\<close>

lemma chat_port_wraps: "uint (ucast (p :: i32) :: u16) = sint p mod 2 ^ 16"
proof -
  have "uint (ucast p :: u16) = take_bit 16 (sint p)"
    by (simp add: unsigned_ucast_eq sint_uint take_bit_signed_take_bit)
  then show ?thesis by (simp only: take_bit_eq_mod)
qed

lemma gate_main_serves:
  assumes "gate_main M args = Serves st"
  shows "\<exists>path t c. args = [path] \<and> su_toml M path = Some t \<and> read_config t = Some c \<and>
     snd (gst_endpoint st) = ucast (sc_port (gc_server c)) \<and>
     dispatcher_init M c new_dispatcher = (0, gst_dispatcher st) \<and>
     (\<exists>r. gate_server_init True new_gate_server = (r, gst_server st))"
  using assms
  by (auto simp: gate_main_def Let_def gate_server_init_def dispatcher_init_def
      split: list.splits prod.splits if_splits option.splits)

end
