(* ===== verification/GateProperties.thy ===== *)
theory GateProperties
  imports GateBehaviour Startup SampleRun
begin

text \<open>
  What holds of the gate: its answers, the accounts it creates and changes, its connections, its
  threads and its configuration.
\<close>

section \<open>A sample gate\<close>

definition sample_gate :: gate_libs where
  "sample_gate = \<lparr>gl_json = sample_json,
     url_parse = (\<lambda>t. case t of [] \<Rightarrow> None | c # _ \<Rightarrow> if c = CHR ''/'' then Some (takeWhile (\<lambda>c. c \<noteq> CHR ''?'') t, []) else None),
     bj_parse_email = (\<lambda>s. Some s), bj_serialize_verify = (\<lambda>e c. e @ c)\<rparr>"

definition sample_post :: "string \<Rightarrow> json \<Rightarrow> http_request" where
  "sample_post target j = \<lparr>rq_method = VerbPost, rq_target = target,
     rq_content_type = Some ''application/json'', rq_body = print_json j\<rparr>"

lemma sample_gate_json [simp]: "gl_json sample_gate = sample_json" "json_lib_ok sample_json"
  by (simp_all add: sample_gate_def sample_json_ok)

lemma sample_post_parse:
  "json_ok j \<Longrightarrow> nlohmann_parse_json sample_json f (rq_body (sample_post t j)) = f (json_norm j)"
  using json_lib_okD(1) [OF sample_json_ok, of j "print_json j"]
  by (simp add: nlohmann_parse_json_def sample_post_def) (simp add: sample_json_def)

definition carol_json :: json where
  "carol_json = json_set ''user'' (JStr ''carol'') (json_set ''email'' (JStr ''c@x'')
     (json_set ''passwd'' (JStr ''p3'') (json_set ''confirm_passwd'' (JStr ''p4'')
     (json_set ''verify_code'' (JStr ''1234'') JNull))))"

definition carol :: user_register_request where
  "carol = \<lparr>urr_user = ''carol'', urr_email = ''c@x'', urr_passwd = ''p3'', urr_confirm_passwd = ''p4'',
     urr_verify_code = ''1234''\<rparr>"

lemma carol_parse:
  "nlohmann_parse_json sample_json (user_register_request_from_json sample_json)
     (rq_body (sample_post t carol_json)) = Some carol"
  by (simp add: sample_post_parse carol_json_def carol_def user_register_request_from_json_def field_string_def json_at_norm)

definition coded_world :: world where
  "coded_world = sample_world\<lparr>w_keys := [''c@x'' \<mapsto> ''1234'']\<rparr>"

lemma coded_world_simps [simp]:
  "w_keys coded_world = [''c@x'' \<mapsto> ''1234'']" "w_db coded_world = w_db sample_world"
  by (simp_all add: coded_world_def)

section \<open>Dispatch\<close>

definition handler_for :: "'s route_table \<Rightarrow> string \<Rightarrow> verb \<Rightarrow> 's http_handler option" where
  "handler_for table path m = map_option (\<lambda>h. snd (snd h)) (List.find (\<lambda>h. fst h = path \<and> fst (snd h) = m) table)"

lemma find_filter: "List.find Q (filter P xs) = List.find (\<lambda>x. P x \<and> Q x) xs"
  by (induction xs) auto

lemma run_handled:
  assumes "dispatch_of table G rq = Handled path"
  shows "\<exists>h. handler_for table path (rq_method rq) = Some h \<and>
    run env (handle_request table G rq) s =
      (case run env (h G rq) s of (Inl e, t) \<Rightarrow> (Inr internal_server_error, t) | (Inr r, t) \<Rightarrow> (Inr r, t))"
proof -
  from assms obtain ps where u: "url_parse G (rq_target rq) = Some (path, ps)"
    and p: "filter (\<lambda>h. fst h = path) table \<noteq> []"
    and m: "List.find (\<lambda>h. fst (snd h) = rq_method rq) (filter (\<lambda>h. fst h = path) table) \<noteq> None"
    unfolding range_empty find_range_None
    by (auto simp: dispatch_of_def split: option.splits if_splits)
  from m obtain k v h where f: "List.find (\<lambda>h. fst (snd h) = rq_method rq) (filter (\<lambda>h. fst h = path) table) = Some (k, v, h)"
    by (metis option.exhaust prod_cases3)
  then have "handler_for table path (rq_method rq) = Some h"
    by (simp add: handler_for_def find_filter)
  moreover have "run env (handle_request table G rq) s =
      (case run env (h G rq) s of (Inl e, t) \<Rightarrow> (Inr internal_server_error, t) | (Inr r, t) \<Rightarrow> (Inr r, t))"
    using u p f by (auto simp: handle_request_def Let_def run_catch simp del: filter_empty_conv
        split: sum.split prod.split exn.split)
  ultimately show ?thesis by blast
qed

text \<open>C32: every request is answered, whatever the services and the handlers do: a target that is no URL with
  400, an unknown path with 404 and an unknown method with 405, all without touching the state, and otherwise
  the handler registered for this path and method decides, its exceptions becoming a plain 500.\<close>

theorem gate_answers_every_request:
  shows "case dispatch_of table G rq of
      BadTarget \<Rightarrow> run env (handle_request table G rq) s = (Inr (bad_request ''Invalid request target''), s)
    | NoEndpoint \<Rightarrow> run env (handle_request table G rq) s =
        (Inr (http_error_response 404 ''The requested endpoint does not exist''), s)
    | BadMethod \<Rightarrow> run env (handle_request table G rq) s =
        (Inr (http_error_response 405 ''Unsupported HTTP method''), s)
    | Handled path \<Rightarrow> (\<exists>h. handler_for table path (rq_method rq) = Some h \<and>
        run env (handle_request table G rq) s =
          (case run env (h G rq) s of (Inl e, t) \<Rightarrow> (Inr internal_server_error, t) | (Inr r, t) \<Rightarrow> (Inr r, t)))"
  using run_dispatch [of table G rq env s] run_handled [of table G rq] by (simp split: dispatch.split)

section \<open>Accounts\<close>

text \<open>C30: registering with the right code creates the account, and logging in with the same name and
  password then finds it, under the id the registration answered with.\<close>

theorem register_then_login:
  assumes "services D env" "dialect_ok D"
    and "nlohmann_parse_json (gl_json G) (user_register_request_from_json (gl_json G)) (rq_body rq) = Some req"
    and "w_keys s (urr_email req) = Some (urr_verify_code req)"
    and "insert_user D (urr_user req) (urr_email req) (urr_passwd req) (w_db s) = (Inr r, d)"
    and "dump (gl_json G) (gate_payload (Some (user_register_response_to_json \<lparr>ure_id = res_last_id r,
      ure_user = urr_user req, ure_email = urr_email req, ure_passwd = urr_passwd req\<rparr>)) SUCCESS []) = Some reply"
  shows "run env (user_register G rq) s = (Inr (json_text_response reply), s\<lparr>w_db := d\<rparr>) \<and>
    run env (check_password \<lparr>glr_user = urr_user req, glr_passwd = urr_passwd req\<rparr>) (s\<lparr>w_db := d\<rparr>) =
      (Inr (Inr (res_last_id r)), s\<lparr>w_db := d\<rparr>)"
  using run_user_register [OF assms(1,3,4)] assms(5) run_json_response [OF assms(6)]
    run_check_password [OF assms(1)] find_user_inserted [OF assms(2,5)] by simp

lemma carol_inserted:
  "\<exists>d. insert_user sample_dialect ''carol'' ''c@x'' ''p3'' (w_db sample_world) = (Inr (no_rows 1 3), d)"
  by (simp add: insert_user_def sample_dialect_def sample_world_def)

theorem register_then_login_witness:
  "\<exists>reply d. run sample_env (user_register sample_gate (sample_post ''/user_register'' carol_json)) coded_world =
      (Inr (json_text_response reply), coded_world\<lparr>w_db := d\<rparr>) \<and>
    run sample_env (check_password \<lparr>glr_user = ''carol'', glr_passwd = ''p3''\<rparr>) (coded_world\<lparr>w_db := d\<rparr>) =
      (Inr (Inr 3), coded_world\<lparr>w_db := d\<rparr>)"
proof -
  obtain d where d: "insert_user sample_dialect ''carol'' ''c@x'' ''p3'' (w_db sample_world) = (Inr (no_rows 1 3), d)"
    using carol_inserted by blast
  obtain reply where t: "dump sample_json (gate_payload (Some (user_register_response_to_json \<lparr>ure_id = 3,
      ure_user = ''carol'', ure_email = ''c@x'', ure_passwd = ''p3''\<rparr>)) SUCCESS []) = Some reply"
    by (simp add: sample_json_def)
  show ?thesis
    using register_then_login [OF sample_services sample_dialect_ok, of sample_gate
        "sample_post ''/user_register'' carol_json" carol coded_world "no_rows 1 3" d reply] d t
    by (auto simp: carol_parse) (auto simp: carol_def no_rows_def)
qed

text \<open>A registration with a name or an email that is taken is refused with that error, and nothing is stored.\<close>

lemma taken_account_is_refused:
  assumes "services D env" "json_lib_ok (gl_json G)"
    and "nlohmann_parse_json (gl_json G) (user_register_request_from_json (gl_json G)) (rq_body rq) = Some req"
    and "w_keys s (urr_email req) = Some (urr_verify_code req)"
    and "fits_varchar D (urr_user req)" "fits_varchar D (urr_email req)" "fits_varchar D (urr_passwd req)"
    and "u \<in> set (db_users (w_db s))" "same_text D (u_name u) (urr_user req) \<or> same_text D (u_email u) (urr_email req)"
  shows "snd (run env (user_register G rq) s) = s \<and>
    answers_with G (fst (run env (user_register G rq) s)) (payload_empty USER_OR_EMAIL_EXIST)"
proof -
  have "insert_user D (urr_user req) (urr_email req) (urr_passwd req) (w_db s) = (Inl 1062, w_db s)"
    using assms(5-9) by (auto simp: insert_user_def)
  then have "run env (user_register G rq) s = run env (nlohmann_json_response G (payload_empty USER_OR_EMAIL_EXIST)) s"
    using run_user_register [OF assms(1,3,4)] by simp
  then show ?thesis by (simp add: run_payload_empty [OF assms(2)])
qed

definition second_alice :: user_register_request where
  "second_alice = carol\<lparr>urr_user := ''alice''\<rparr>"

definition second_alice_json :: json where
  "second_alice_json = json_set ''user'' (JStr ''alice'') carol_json"

theorem taken_account_is_refused_witness:
  "snd (run sample_env (user_register sample_gate (sample_post ''/user_register'' second_alice_json)) coded_world) = coded_world"
proof -
  have "nlohmann_parse_json (gl_json sample_gate) (user_register_request_from_json (gl_json sample_gate))
      (rq_body (sample_post ''/user_register'' second_alice_json)) = Some second_alice"
    by (simp add: sample_post_parse second_alice_json_def second_alice_def carol_json_def carol_def
        user_register_request_from_json_def field_string_def json_at_norm)
  from taken_account_is_refused [OF sample_services _ this, of coded_world
      "\<lparr>u_id = 1, u_name = ''alice'', u_email = ''a@x'', u_pwd = ''p1''\<rparr>"]
  show ?thesis by (simp add: second_alice_def carol_def sample_dialect_def sample_world_def)
qed

text \<open>Without the code that is stored for the address, neither registration nor password reset does anything:
  the answer says that the code is invalid, and keys and tables are as before.\<close>

lemma wrong_code_changes_nothing:
  assumes "services D env" "json_lib_ok (gl_json G)"
    and "nlohmann_parse_json (gl_json G) (user_register_request_from_json (gl_json G)) (rq_body rq) = Some req"
    and "w_keys s (urr_email req) \<noteq> Some (urr_verify_code req)"
    and "nlohmann_parse_json (gl_json G) (user_reset_request_from_json (gl_json G)) (rq_body rq') = Some req'"
    and "w_keys s (urq_email req') \<noteq> Some (urq_verify_code req')"
  shows "snd (run env (user_register G rq) s) = s \<and> snd (run env (reset_password G rq') s) = s \<and>
    answers_with G (fst (run env (user_register G rq) s)) (payload_empty INVALID_VERIFY_CODE) \<and>
    answers_with G (fst (run env (reset_password G rq') s)) (payload_empty INVALID_VERIFY_CODE)"
  using run_user_register_bad_code [OF assms(1-4)] run_reset_password [OF assms(1,5), of s] assms(6)
  by (simp add: run_payload_empty [OF assms(2)])

definition carol_reset :: user_reset_request where
  "carol_reset = \<lparr>urq_user = ''alice'', urq_email = ''a@x'', urq_passwd = ''p9'', urq_verify_code = ''1234''\<rparr>"

definition reset_json :: json where
  "reset_json = json_set ''user'' (JStr ''alice'') (json_set ''email'' (JStr ''a@x'')
     (json_set ''passwd'' (JStr ''p9'') (json_set ''verify_code'' (JStr ''1234'') JNull)))"

lemma reset_parse:
  "nlohmann_parse_json sample_json (user_reset_request_from_json sample_json)
     (rq_body (sample_post t reset_json)) = Some carol_reset"
  by (simp add: sample_post_parse reset_json_def carol_reset_def user_reset_request_from_json_def field_string_def json_at_norm)

theorem wrong_code_changes_nothing_witness:
  "snd (run sample_env (reset_password sample_gate (sample_post ''/reset_password'' reset_json))
     (sample_world\<lparr>w_keys := Map.empty\<rparr>)) = sample_world\<lparr>w_keys := Map.empty\<rparr>"
  using wrong_code_changes_nothing [OF sample_services, of sample_gate "sample_post ''/user_register'' carol_json" carol
      "sample_world\<lparr>w_keys := Map.empty\<rparr>" "sample_post ''/reset_password'' reset_json" carol_reset]
  by (simp add: carol_parse reset_parse)

text \<open>C31: with the right code, resetting the password of an existing user makes the new password the only one
  that user can log in with, and leaves keys, sessions and all other users as they were.\<close>

theorem reset_replaces_password:
  assumes "services D env" "dialect_ok D" "db_ok D (w_db s)"
    and "nlohmann_parse_json (gl_json G) (user_reset_request_from_json (gl_json G)) (rq_body rq) = Some req"
    and "w_keys s (urq_email req) = Some (urq_verify_code req)" "fits_varchar D (urq_passwd req)"
    and "u \<in> set (db_users (w_db s))" "same_text D (u_name u) (urq_user req)" "same_text D (u_email u) (urq_email req)"
  shows "\<exists>d. snd (run env (reset_password G rq) s) = s\<lparr>w_db := d\<rparr> \<and>
    (\<forall>pwd. fst (run env (check_password \<lparr>glr_user = urq_user req, glr_passwd = pwd\<rparr>) (s\<lparr>w_db := d\<rparr>)) =
       Inr (if same_text D (urq_passwd req) pwd then Inr (word_of_int (u_id u)) else Inl USER_OR_PASSWORD_INVALID)) \<and>
    filter (\<lambda>v. u_id v \<noteq> u_id u) (db_users d) = filter (\<lambda>v. u_id v \<noteq> u_id u) (db_users (w_db s))"
proof -
  let ?n = "urq_user req" and ?e = "urq_email req" and ?p = "urq_passwd req"
  have hit: "named D ?n ?e u" using assms(8,9) by simp
  obtain r d where upd: "update_password D ?p ?n ?e (w_db s) = (Inr r, d)"
    using assms(6) by (simp add: update_password_def Let_def)
  have "snd (run env (nlohmann_json_response G j) t) = t" for j t
    by (simp add: nlohmann_json_response_def split: option.split)
  then have "snd (run env (reset_password G rq) s) = s\<lparr>w_db := d\<rparr>"
    using run_reset_password [OF assms(1,4)] assms(5) upd by simp
  moreover have "fst (run env (check_password \<lparr>glr_user = ?n, glr_passwd = pwd\<rparr>) (s\<lparr>w_db := d\<rparr>)) =
      Inr (if same_text D ?p pwd then Inr (word_of_int (u_id u)) else Inl USER_OR_PASSWORD_INVALID)" for pwd
    using find_user_reset [OF assms(2,3,7) hit upd, of pwd] by (simp add: run_check_password [OF assms(1)])
  moreover have "filter (\<lambda>v. u_id v \<noteq> u_id u) (db_users d) = filter (\<lambda>v. u_id v \<noteq> u_id u) (db_users (w_db s))"
  proof -
    have "(if named D ?n ?e v then v\<lparr>u_pwd := ?p\<rparr> else v) = v" if "v \<in> set (db_users (w_db s))" "u_id v \<noteq> u_id u" for v
      using same_name_same_user [OF assms(2,3) that(1) assms(7), of ?n] that(2) assms(8) by auto
    then have "filter (\<lambda>v. u_id v \<noteq> u_id u) (map (\<lambda>v. if named D ?n ?e v then v\<lparr>u_pwd := ?p\<rparr> else v) us) =
        filter (\<lambda>v. u_id v \<noteq> u_id u) us" if "set us \<subseteq> set (db_users (w_db s))" for us
      using that by (induction us) auto
    then show ?thesis by (simp only: update_password_users [OF upd] subset_refl)
  qed
  ultimately show ?thesis by blast
qed

lemma sample_db_ok: "db_ok sample_dialect (w_db sample_world)"
  by (simp add: db_ok_def sample_dialect_def sample_world_def)

definition reset_world :: world where
  "reset_world = sample_world\<lparr>w_keys := [''a@x'' \<mapsto> ''1234'']\<rparr>"

theorem reset_replaces_password_witness:
  "\<exists>t. fst (run sample_env (check_password \<lparr>glr_user = ''alice'', glr_passwd = ''p9''\<rparr>) t) = Inr (Inr 1) \<and>
     t = snd (run sample_env (reset_password sample_gate (sample_post ''/reset_password'' reset_json)) reset_world)"
proof -
  have "w_db reset_world = w_db sample_world" by (simp add: reset_world_def)
  then show ?thesis
    using reset_replaces_password [OF sample_services sample_dialect_ok, of reset_world sample_gate
        "sample_post ''/reset_password'' reset_json" carol_reset "\<lparr>u_id = 1, u_name = ''alice'', u_email = ''a@x'', u_pwd = ''p1''\<rparr>"]
      sample_db_ok
    by (auto simp: reset_parse) (auto simp: carol_reset_def sample_dialect_def sample_world_def reset_world_def)
qed

text \<open>When MySQL counts the rows an update changed, which is what the client asks for, resetting a password
  to what it already is reports that user or email are invalid, although they are right.\<close>

lemma same_password_reported_invalid:
  assumes "services D env" "json_lib_ok (gl_json G)" "dialect_ok D" "db_ok D (w_db s)" "\<not> counts_found D"
    and "nlohmann_parse_json (gl_json G) (user_reset_request_from_json (gl_json G)) (rq_body rq) = Some req"
    and "w_keys s (urq_email req) = Some (urq_verify_code req)" "fits_varchar D (urq_passwd req)"
    and "u \<in> set (db_users (w_db s))" "same_text D (u_name u) (urq_user req)" "same_text D (u_email u) (urq_email req)"
    and "u_pwd u = urq_passwd req"
  shows "answers_with G (fst (run env (reset_password G rq) s)) (payload_empty USER_OR_EMAIL_INVALID)"
proof -
  obtain r d where upd: "update_password D (urq_passwd req) (urq_user req) (urq_email req) (w_db s) = (Inr r, d)"
    using assms(8) by (simp add: update_password_def Let_def)
  have "res_affected r = 0"
    using update_password_affected [OF upd] named_is_unique [OF assms(3,4,9)] assms(5,10-12) by simp
  then have "run env (reset_password G rq) s =
      run env (nlohmann_json_response G (payload_empty USER_OR_EMAIL_INVALID)) (s\<lparr>w_db := d\<rparr>)"
    using run_reset_password [OF assms(1,6), of s] assms(7) upd by simp
  then show ?thesis by (simp add: run_payload_empty [OF assms(2)])
qed

definition changed_rows :: dialect where
  "changed_rows = sample_dialect\<lparr>counts_found := False\<rparr>"

text \<open>\<open>sample_env\<close> with this way of counting.\<close>

definition changed_env :: "world environment" where
  "changed_env = sample_env\<lparr>on_sql := (\<lambda>q s. case q of
         Execute st \<Rightarrow> (case exec_stmt changed_rows st (w_db s) of
             (Inl e, d) \<Rightarrow> (SqlError e, s)
           | (Inr rs, d) \<Rightarrow> (SqlOk rs, s\<lparr>w_db := d\<rparr>))
       | _ \<Rightarrow> (SqlOk [], s))\<rparr>"

lemma changed_services: "services changed_rows changed_env"
  using sample_services unfolding services_def keeps_keys_def
  by (simp add: changed_env_def) (simp add: serves_tables_def)

definition same_reset :: user_reset_request where
  "same_reset = \<lparr>urq_user = ''alice'', urq_email = ''a@x'', urq_passwd = ''p1'', urq_verify_code = ''1234''\<rparr>"

definition same_reset_json :: json where
  "same_reset_json = json_set ''user'' (JStr ''alice'') (json_set ''email'' (JStr ''a@x'')
     (json_set ''passwd'' (JStr ''p1'') (json_set ''verify_code'' (JStr ''1234'') JNull)))"

lemma same_reset_parse:
  "nlohmann_parse_json (gl_json sample_gate) (user_reset_request_from_json (gl_json sample_gate))
     (rq_body (sample_post t same_reset_json)) = Some same_reset"
  by (simp add: sample_post_parse same_reset_json_def same_reset_def user_reset_request_from_json_def field_string_def json_at_norm)

lemma same_password_reported_invalid_witness:
  "answers_with sample_gate (fst (run changed_env (reset_password sample_gate
     (sample_post ''/reset_password'' same_reset_json)) reset_world)) (payload_empty USER_OR_EMAIL_INVALID)"
proof (rule same_password_reported_invalid [OF changed_services _ _ _ _ same_reset_parse])
  show "dialect_ok changed_rows" by (auto simp: dialect_ok_def changed_rows_def sample_dialect_def)
  show "db_ok changed_rows (w_db reset_world)"
    by (simp add: db_ok_def changed_rows_def sample_dialect_def reset_world_def sample_world_def)
  show "\<lparr>u_id = 1, u_name = ''alice'', u_email = ''a@x'', u_pwd = ''p1''\<rparr> \<in> set (db_users (w_db reset_world))"
    by (simp add: reset_world_def sample_world_def)
qed (simp_all add: changed_rows_def sample_dialect_def same_reset_def reset_world_def)

text \<open>The confirmation of the password is never looked at: requests that differ in nothing else are
  handled the same.\<close>

lemma confirmation_is_ignored:
  assumes "nlohmann_parse_json (gl_json G) (user_register_request_from_json (gl_json G)) (rq_body rq) = Some req"
    and "nlohmann_parse_json (gl_json G) (user_register_request_from_json (gl_json G)) (rq_body rq') =
      Some (req\<lparr>urr_confirm_passwd := other\<rparr>)"
  shows "user_register G rq = user_register G rq'"
  using assms by (simp add: user_register_def create_user_def cong: if_cong)

theorem confirmation_is_ignored_witness:
  "user_register sample_gate (sample_post ''/user_register'' carol_json) =
   user_register sample_gate (sample_post ''/user_register'' (json_set ''confirm_passwd'' (JStr ''p3'') carol_json))"
proof (rule confirmation_is_ignored)
  show "nlohmann_parse_json (gl_json sample_gate) (user_register_request_from_json (gl_json sample_gate))
      (rq_body (sample_post ''/user_register'' carol_json)) = Some carol"
    by (simp add: carol_parse)
  show "nlohmann_parse_json (gl_json sample_gate) (user_register_request_from_json (gl_json sample_gate))
      (rq_body (sample_post ''/user_register'' (json_set ''confirm_passwd'' (JStr ''p3'') carol_json))) =
      Some (carol\<lparr>urr_confirm_passwd := ''p3''\<rparr>)"
    by (simp add: sample_post_parse carol_json_def carol_def user_register_request_from_json_def field_string_def json_at_norm)
qed

section \<open>Connections and threads\<close>

text \<open>C38: in every reachable state the session table of the gate holds each connection at most once, under its
  own uuid, and no connection that has ended normally.\<close>

theorem session_table_is_consistent:
  assumes "gate_reachable p" "smap_find (gs_sessions (gp_server p)) u = Some c"
  shows "c \<in> gp_started p \<and> u = gp_uuid p c \<and> gp_conn p c \<noteq> ConnClosed \<and>
    (\<forall>v. smap_find (gs_sessions (gp_server p)) v = Some c \<longrightarrow> v = u)"
  using gate_reachable_inv [OF assms(1)] assms(2) unfolding gate_inv_def by metis

definition gate_start :: gate_process where
  "gate_start = \<lparr>gp_server = new_gate_server\<lparr>gs_running := True\<rparr>, gp_uuid = (\<lambda>_. []), gp_conn = (\<lambda>_. ConnClosed), gp_started = {}\<rparr>"

lemma gate_accepted: "gate_reachable (accept_conn 0 ''u0'' gate_start)"
  by (rule gate_next [OF gate_init conn_accept]) (simp_all add: gate_initial_def gate_start_def new_gate_server_def)

lemma gate_accepted_simps [simp]:
  "smap_find (gs_sessions (gp_server (accept_conn 0 ''u0'' gate_start))) ''u0'' = Some 0"
  "gp_conn (accept_conn 0 ''u0'' gate_start) 0 = ConnReading" "gp_uuid (accept_conn 0 ''u0'' gate_start) 0 = ''u0''"
  by (simp_all add: accept_conn_def set_conn_def add_session_def gate_start_def new_gate_server_def)

theorem session_table_is_consistent_witness:
  "0 \<in> gp_started (accept_conn 0 ''u0'' gate_start) \<and> gp_conn (accept_conn 0 ''u0'' gate_start) 0 \<noteq> ConnClosed"
  using session_table_is_consistent [OF gate_accepted gate_accepted_simps(1)] by simp


lemma timed_out_reachable:
  "gate_reachable (set_conn 0 ConnThrown (set_conn 0 (ConnHandling True) (accept_conn 0 ''u0'' gate_start)))"
  by (rule gate_next [OF gate_next [OF gate_accepted conn_read] conn_cancelled]) (simp_all add: set_conn_def)


text \<open>The pool hands out its contexts in turn: the k-th request, counted from a fresh pool, gets context k
  modulo the number of threads, so over any run of requests no thread is asked more than once before every
  other has been.\<close>

lemma contexts_in_turn:
  assumes "0 < n"
  shows "fst (take_contexts k (new_context_pool n)) = map (\<lambda>i. i mod n) [0..<k]"
  using take_contexts_mod [of "new_context_pool n" k] assms by (simp add: new_context_pool_def)

theorem contexts_in_turn_witness:
  "fst (take_contexts 6 (gs_pool new_gate_server)) = [0, 1, 2, 3, 0, 1]"
  using contexts_in_turn [of 4 6] by (simp add: new_gate_server_def upt_rec)

section \<open>Configuration\<close>

lemma config_valid_port:
  assumes "config_valid x"
  shows "sc_host x \<noteq> []" "1 \<le> sint (sc_port x)" "uint (ucast (sc_port x) :: u16) = sint (sc_port x)"
proof -
  from assms show b: "sc_host x \<noteq> []" "1 \<le> sint (sc_port x)" by (simp_all add: config_valid_def)
  have "uint (ucast (sc_port x) :: u16) = take_bit 16 (sint (sc_port x))"
    by (simp add: unsigned_ucast_eq sint_uint take_bit_signed_take_bit)
  also have "\<dots> = sint (sc_port x)"
    using assms by (simp add: config_valid_def take_bit_int_eq_self)
  finally show "uint (ucast (sc_port x) :: u16) = sint (sc_port x)" .
qed

text \<open>A configuration the gate accepts names a host and a port between 1 and 65535 for each of its five
  services, so that the port fits the 16 bits it is cut to when it is used.\<close>

lemma accepted_config_has_ports:
  assumes "read_config t = Some c"
  shows "\<forall>(host, port)\<in>{(sc_host (gc_server c), sc_port (gc_server c)), (sc_host (gc_verify c), sc_port (gc_verify c)),
      (sc_host (gc_status c), sc_port (gc_status c)), (sc_host (gc_redis c), sc_port (gc_redis c)),
      (sc_host (gc_mysql c), sc_port (gc_mysql c))}.
    host \<noteq> [] \<and> 1 \<le> sint port \<and> uint (ucast port :: u16) = sint port"
  using read_config_valid [OF assms] by (simp add: config_valid_port)

text \<open>A gate that starts has a valid configuration: it listens on exactly the port of its file, no port is
  cut on the way to MySQL either, both gRPC channels exist, its four threads run, no session is in the
  table, and a request to any of the five paths finds a handler.\<close>

lemma gate_starts_as_configured:
  assumes "gate_main M args = Serves st"
  shows "\<exists>path t c. args = [path] \<and> su_toml M path = Some t \<and> read_config t = Some c \<and>
     uint (snd (gst_endpoint st)) = sint (sc_port (gc_server c)) \<and>
     (\<exists>p. dp_mysql (gst_dispatcher st) = Some p \<and> uint (mp_port p) = sint (sc_port (gc_mysql c))) \<and>
     dp_verify (gst_dispatcher st) = Some (host_port (gc_verify c)) \<and>
     dp_status (gst_dispatcher st) = Some (host_port (gc_status c)) \<and>
     map fst (dp_handlers (gst_dispatcher st)) =
       [''/get_test'', ''/get_verify_code'', ''/user_register'', ''/reset_password'', ''/user_login''] \<and>
     gs_running (gst_server st) \<and> gs_sessions (gst_server st) = [] \<and>
     map ct_running (cp_threads (gs_pool (gst_server st))) = [True, True, True, True]"
proof -
  obtain path t c r where c: "args = [path]" "su_toml M path = Some t" "read_config t = Some c"
    "snd (gst_endpoint st) = ucast (sc_port (gc_server c))"
    "dispatcher_init M c new_dispatcher = (0, gst_dispatcher st)"
    "gate_server_init True new_gate_server = (r, gst_server st)"
    using gate_main_serves [OF assms] by blast
  have ports: "uint (ucast (sc_port (gc_server c)) :: u16) = sint (sc_port (gc_server c))"
    "uint (ucast (sc_port (gc_mysql c)) :: u16) = sint (sc_port (gc_mysql c))"
    using accepted_config_has_ports [OF c(3)] by simp_all
  from gate_server_ready(2-4) [OF c(6)] show ?thesis
    using c(1-5) ports unfolding dispatcher_ready by (auto simp: mysql_pool_init_def gate_handlers_init_def)
qed

definition sample_toml :: toml where
  "sample_toml = \<lparr>toml_string = (\<lambda>s k. Some ''localhost''), toml_int = (\<lambda>s k. Some 8080)\<rparr>"

definition sample_machine :: machine where
  "sample_machine = \<lparr>su_file = (\<lambda>_. None), su_toml = (\<lambda>_. Some sample_toml), su_address = Some,
     su_bind = (\<lambda>_ _. True), su_channel = (\<lambda>_. True), su_grpc = (\<lambda>_. True)\<rparr>"

theorem gate_starts_as_configured_witness:
  "\<exists>st :: world gate_started. gate_main sample_machine [''config.toml''] = Serves st \<and> uint (snd (gst_endpoint st)) = 8080"
proof -
  obtain c where c: "read_config sample_toml = Some c" "sc_port (gc_server c) = 8080"
    by (simp add: read_config_def sample_toml_def valid_or_none_def config_valid_def server_config_from_toml_def
        redis_config_from_toml_def mysql_config_from_toml_def)
  then obtain st :: "world gate_started" where st: "gate_main sample_machine [''config.toml''] = Serves st"
    by (simp add: gate_main_def sample_machine_def dispatcher_init_def gate_server_init_def new_gate_server_def Let_def)
  from gate_starts_as_configured [OF st] c st show ?thesis by (auto simp: sample_machine_def)
qed

end
