(* ===== verification/SystemProperties.thy ===== *)
theory SystemProperties
  imports WireSafety FrameProperties ServiceProperties GateProperties "HOL-Library.AList"
begin

text \<open>
  What holds of two programs together: the client prints what the chat server sends, the status server
  sees the load the chat servers report, and a code of the verify server opens a session of a chat server.
\<close>

section \<open>Chat server and client\<close>

text \<open>What a server sends are frames.\<close>

lemma sent_valid:
  assumes "reachable L p" "platform_ok (lb_platform L)"
    and "\<forall>m\<in>set (pr_sent p i). 0 \<le> sint (mn_body_length (cm_msg m))"
  shows "\<forall>n\<in>set (map cm_msg (pr_sent p i)). valid_node n"
proof -
  have "expected L (pr_read p i) m" if "m \<in> set (pr_sent p i)" for m
    using reachable_wire [OF assms(1)] that by (simp add: wire_inv_def server_wire_def)
  then have "built L m" if "m \<in> set (pr_sent p i)" for m
    using that by (auto simp: expected_def notification_def reply_to_def)
  then show ?thesis
    using assms(3) valid_built [OF assms(2)] by (fastforce simp: built_def)
qed

text \<open>C20: the client prints what the server wrote, in that order and byte for byte, one message for each line it
  sends: the exchange of any client with a session of any reachable server prints the first messages of
  the stream, as many as lines were sent, or one less when the stream ended before the last answer. It
  does not look for the answer to its request: the next frame is printed, be it a notification.\<close>

theorem client_prints_server_messages:
  assumes "reachable L p" "platform_ok (lb_platform L)"
    and "\<forall>m\<in>set (pr_sent p i). 0 \<le> sint (mn_body_length (cm_msg m))"
    and "client_exchange (lb_platform L) interactive lines writes
      (concat (map (\<lambda>m. wire (cm_msg m)) (pr_sent p i))) = (sent, printed)"
  shows "printed = map (\<lambda>m. printed_text (cm_msg m)) (take (length printed) (pr_sent p i)) \<and>
    length printed \<le> length sent \<and> length sent \<le> Suc (length printed)"
  using exchange_prints_stream [OF assms(2) sent_valid [OF assms(1-3)], of interactive lines writes sent printed]
    assms(4) by (simp add: comp_def take_map)

theorem client_prints_server_messages_witness:
  "\<exists>(p :: chat_process) m. pr_sent p 0 = [m] \<and>
     snd (client_exchange sample_platform False [''1007|{}'', ''1007|{}''] [True, True] (wire (cm_msg m))) =
       [printed_text (cm_msg m)]"
proof -
  obtain p m where p: "reachable sample_libs p" "pr_sent p 0 = [m]" "0 \<le> sint (mn_body_length (cm_msg m))"
    using refusal_is_written by blast
  have plat: "lb_platform sample_libs = sample_platform" "platform_ok sample_platform"
    using libs_okD(3) [OF sample_libs_ok] by (simp_all add: sample_libs_def)
  let ?line = "''1007|{}''"
  obtain sent printed where e: "client_exchange sample_platform False [?line, ?line] [True, True]
      (wire (cm_msg m)) = (sent, printed)" by force
  have line: "parse_line ?line = Some (1007, ''{}'')"
    using parse_line_dec [of 1007 "''{}''"] by (simp add: dec_nat.simps digit_def char_of_def bit_0)
  have send: "send_message sample_platform 1007 ''{}'' = Some (wire (frame_node 1007 ''{}''))"
    by (rule send_message_frame [OF plat(2)]) (simp add: MAX_LENGTH_def)
  have "valid_node (cm_msg m)"
    using sent_valid [OF p(1), of 0] plat p(2,3) by simp
  then have recv: "recv_and_print sample_platform (wire (cm_msg m)) = Some (printed_text (cm_msg m), [])"
    using recv_valid [OF plat(2), of "cm_msg m" "[]"] by simp
  have "length printed = 1"
    using e by (auto simp: line send recv recv_nothing)
  with client_prints_server_messages [OF p(1), of 0 False "[?line, ?line]" "[True, True]" sent printed]
    plat p(2,3) e have "printed = [printed_text (cm_msg m)]" by (cases printed) (auto simp del: client_exchange.simps)
  with e p(2) show ?thesis by (intro exI [of _ p] exI [of _ m]) (simp del: client_exchange.simps)
qed

section \<open>Chat server and status server\<close>

text \<open>
  Redis's documented behaviour for the hash of the login counts: HSET replaces the fields it names, HGETALL
  returns all fields. \<open>counts\<close> is the hash.
\<close>

definition keeps_counts :: "('s \<Rightarrow> string \<Rightarrow> i64 option) \<Rightarrow> 's environment \<Rightarrow> bool" where
  "keeps_counts counts env \<longleftrightarrow>
     (\<forall>m s. (\<exists>n. fst (on_redis env (R_HSET LoginCountKey m) s) = R_Value (R_Int n) \<and> 0 \<le> n) \<and>
        counts (snd (on_redis env (R_HSET LoginCountKey m) s)) = counts s ++ map_of m) \<and>
     (\<forall>s. \<exists>m. fst (on_redis env (R_HGETALL LoginCountKey) s) = R_Value (R_Map m) \<and>
        distinct (map fst m) \<and> map_of m = counts s)"

text \<open>The load of a server: its count, or none.\<close>

definition load :: "(string \<Rightarrow> i64 option) \<Rightarrow> string \<Rightarrow> i64" where
  "load counts name = (case counts name of Some c \<Rightarrow> c | None \<Rightarrow> 0)"

lemma login_counts_kept:
  "keeps_counts counts env \<Longrightarrow> count_of (login_counts env s) name = load (counts s) name"
proof -
  assume "keeps_counts counts env"
  then obtain m where "fst (on_redis env (R_HGETALL LoginCountKey) s) = R_Value (R_Map m)"
    "distinct (map fst m)" "map_of m = counts s" unfolding keeps_counts_def by blast
  moreover from this(2) have "map_of (rev m) = map_of m"
    by (simp add: map_of_inject_set rev_map [symmetric])
  ultimately show ?thesis by (simp add: login_counts_def count_of_def load_def)
qed

lemma run_count_published:
  assumes "keeps_counts counts env"
  shows "\<exists>t. run env update_login_count s = (Inr True, t) \<and>
    counts t = (counts s)(srv_name s \<mapsto> ucast (participant_count s))"
proof -
  let ?m = "[(srv_name s, ucast (participant_count s))]"
  obtain r t where q: "on_redis env (R_HSET LoginCountKey ?m) s = (r, t)" by force
  from assms have "(\<exists>n. fst (on_redis env (R_HSET LoginCountKey ?m) s) = R_Value (R_Int n) \<and> 0 \<le> n) \<and>
      counts (snd (on_redis env (R_HSET LoginCountKey ?m) s)) = counts s ++ map_of ?m"
    unfolding keeps_counts_def by blast
  then show ?thesis
    by (intro exI [of _ t]) (auto simp: q update_login_count_def redis_hset_def)
qed

lemma participant_count_sint:
  "length (srv_participants s) < 2 ^ 32 \<Longrightarrow>
   sint (ucast (participant_count s) :: i64) = int (length (srv_participants s))"
  by (simp add: participant_count_def unsigned_of_nat signed_of_nat take_bit_nat_eq_self
      signed_take_bit_int_eq_self unsigned_ucast_eq)

text \<open>C23: the load a chat server reports at a login is what the status server goes by: after the report its count is
  the number of its participants, those that have not logged in included, and the chat server named next
  has no more logins than any other, so a server with more participants than another has logins is not chosen.\<close>

theorem reported_load_decides:
  assumes "keeps_counts counts env" "keeps_keys store env" "servers \<noteq> []"
    and "length (srv_participants s) < 2 ^ 32"
  shows "\<exists>t rsp t' srv. run env update_login_count s = (Inr True, t) \<and>
    sint (load (counts t) (srv_name s)) = int (length (srv_participants s)) \<and>
    (\<forall>name. name \<noteq> srv_name s \<longrightarrow> counts t name = counts s name) \<and>
    run env (GetChatServer_rpc servers uid) t = (Inr (Some rsp), t') \<and>
    srv \<in> set servers \<and> gcs_host rsp = csc_host srv \<and> gcs_port rsp = csc_port srv \<and>
    (\<forall>other\<in>set servers. csc_name srv = srv_name s \<longrightarrow> csc_name other \<noteq> srv_name s \<longrightarrow>
      int (length (srv_participants s)) \<le> sint (load (counts s) (csc_name other)))"
proof -
  obtain t where t: "run env update_login_count s = (Inr True, t)"
    "counts t = (counts s)(srv_name s \<mapsto> ucast (participant_count s))"
    using run_count_published [OF assms(1)] by blast
  obtain rsp t' srv where c: "run env (GetChatServer_rpc servers uid) t = (Inr (Some rsp), t')"
    "gcs_host rsp = csc_host srv" "gcs_port rsp = csc_port srv" "fewest_logins (login_counts env t) servers srv"
    using chat_server_chosen [OF assms(2,3), of uid t] by blast
  have load: "sint (load (counts t) (srv_name s)) = int (length (srv_participants s))"
    using participant_count_sint [OF assms(4)] by (simp add: t(2) load_def)
  moreover have "int (length (srv_participants s)) \<le> sint (load (counts s) (csc_name other))"
    if "other \<in> set servers" "csc_name srv = srv_name s" "csc_name other \<noteq> srv_name s" for other
  proof -
    have "load (counts t) (csc_name srv) \<le>s load (counts t) (csc_name other)"
      using c(4) that(1) login_counts_kept [OF assms(1)] by (simp add: fewest_logins_def)
    moreover have "load (counts t) (csc_name other) = load (counts s) (csc_name other)"
      using that(3) by (simp add: t(2) load_def)
    ultimately show ?thesis using load that(2) by (simp add: word_sle_eq)
  qed
  moreover have "srv \<in> set servers" using c(4) by (simp add: fewest_logins_def)
  ultimately show ?thesis using t c(1-3) by (intro exI [of _ t] exI [of _ rsp] exI [of _ t'] exI [of _ srv]) auto
qed

record counted_world = world +
  cw_counts :: "(string \<times> i64) list"

text \<open>A Redis with keys and one hash.\<close>

definition counted_env :: "counted_world environment" where
  "counted_env = \<lparr>
     on_redis = (\<lambda>q s. case q of
         R_GET k \<Rightarrow> (R_Value (case w_keys s k of None \<Rightarrow> R_Nil | Some v \<Rightarrow> R_Str v), s)
       | R_SET k v \<Rightarrow> (R_Value (R_Str ''OK''), s\<lparr>w_keys := (w_keys s)(k \<mapsto> v)\<rparr>)
       | R_SETEX k t v \<Rightarrow> (R_Value (R_Str ''OK''), s\<lparr>w_keys := (w_keys s)(k \<mapsto> v)\<rparr>)
       | R_HSET k m \<Rightarrow> (R_Value (R_Int 1), s\<lparr>cw_counts := AList.merge (cw_counts s) m\<rparr>)
       | R_HGETALL k \<Rightarrow> (R_Value (R_Map (AList.clearjunk (cw_counts s))), s)),
     on_sql = (\<lambda>q s. (SqlOk [], s)),
     on_rpc = (\<lambda>q s. (RpcFailed ''unavailable'', s)),
     on_uuid = (\<lambda>s. (''6f0d'', s))\<rparr>"

lemma counted_env_keeps:
  "keeps_counts (\<lambda>s. map_of (cw_counts s)) counted_env" "keeps_keys w_keys counted_env"
  by (simp_all add: keeps_counts_def keeps_keys_def counted_env_def merge_conv' map_of_clearjunk)

definition counted_start :: counted_world where
  "counted_start = world.extend sample_world \<lparr>cw_counts = [(''chat1'', 0), (''chat2'', 1)]\<rparr>"

theorem reported_load_decides_witness:
  "\<exists>t rsp t'. run counted_env update_login_count counted_start = (Inr True, t) \<and>
     run counted_env (GetChatServer_rpc sample_servers 1) t = (Inr (Some rsp), t') \<and> gcs_host rsp = ''10.0.0.2''"
proof -
  have "srv_name counted_start = ''chat1''" "length (srv_participants counted_start) = 2"
    by (simp_all add: counted_start_def world.defs sample_world_def)
  then show ?thesis
    using reported_load_decides [OF counted_env_keeps, of sample_servers counted_start 1]
    by (auto simp: sample_servers_def load_def counted_start_def world.defs)
qed

section \<open>Verify server and chat server\<close>

lemma user_by_id_found:
  assumes "u \<in> set (db_users d)" "u_id u = sint uid"
  shows "\<exists>info. user_by_id d uid = Some info"
proof -
  have "List.find (\<lambda>v. u_id v = sint uid) (db_users d) \<noteq> None"
    using assms by (auto simp: find_None_iff)
  then show ?thesis by (auto simp: user_by_id_def)
qed

lemma cached_user_found:
  "stored = Some u \<Longrightarrow> \<exists>info. fst (cached_user L key stored s) = Some info"
  by (auto simp: cached_user_def split: option.split)

text \<open>Whoever knows the token of an existing user is logged in as that user.\<close>

lemma login_with_token:
  assumes "services D env"
    and "nlohmann_parse_json (lb_json L) (user_login_request_from_json (lb_json L)) (node_body msg) =
      Some \<lparr>ulr_uid = uid, ulr_token = token\<rparr>"
    and "w_keys s (UserTokenKey uid) = Some token" "user_by_id (w_db s) uid = Some info"
  shows "cs_authenticated (srv_sessions (snd (run env (login L me msg) s)) me) \<and>
    cs_uid (srv_sessions (snd (run env (login L me msg) s)) me) = uid"
proof -
  obtain info' where "fst (cached_user L (UserUidInfoPrefix @ to_string (sint uid)) (user_by_id (w_db s) uid) s) = Some info'"
    using cached_user_found [OF assms(4)] by blast
  then show ?thesis
    using run_login_success [OF assms(1,2), of s info'] assms(3)
    by (simp add: logged_in_def Let_def) (simp add: become_def set_uid_def mark_authenticated_def)
qed

text \<open>The verify server answers the gate, on the same Redis as the chat servers; \<open>venv\<close> is what it runs in.\<close>

definition verify_behind :: "verify_world environment \<Rightarrow> world environment \<Rightarrow> bool" where
  "verify_behind venv env \<longleftrightarrow>
     (\<forall>email s. \<exists>vs. vw_keys vs = w_keys s \<and> on_rpc env (CallGetVerifyCode email) s =
        (case run venv (GetVerifyCode_rpc email) vs of
           (Inr rsp, vt) \<Rightarrow> (RspVerify rsp, s\<lparr>w_keys := vw_keys vt\<rparr>)
         | (Inl e, vt) \<Rightarrow> (RpcFailed [], s\<lparr>w_keys := vw_keys vt\<rparr>)))"

lemma run_code_request:
  assumes "verify_services venv" "verify_behind venv env"
  shows "\<exists>code. on_rpc env (CallGetVerifyCode email) s =
      (RspVerify \<lparr>gvr_error = 0, gvr_email = email, gvr_code = code\<rparr>, s\<lparr>w_keys := (w_keys s)(email \<mapsto> code)\<rparr>)"
proof -
  obtain vs where vs: "vw_keys vs = w_keys s" "on_rpc env (CallGetVerifyCode email) s =
        (case run venv (GetVerifyCode_rpc email) vs of
           (Inr rsp, vt) \<Rightarrow> (RspVerify rsp, s\<lparr>w_keys := vw_keys vt\<rparr>)
         | (Inl e, vt) \<Rightarrow> (RpcFailed [], s\<lparr>w_keys := vw_keys vt\<rparr>))"
    using assms(2) unfolding verify_behind_def by blast
  then show ?thesis using code_stored [OF assms(1), of email vs] by auto
qed

text \<open>C18: any account can be opened through the gate: asked for the verification code of the address \<open>user_token_\<close>
  followed by a user's id, the gate answers with a code that is from then on the login token of that user:
  with it the login at a chat server succeeds, whether or not the user had a token before.\<close>

theorem verification_code_opens_account:
  assumes "services D env" "verify_services venv" "verify_behind venv env"
    and "rq_content_type rq = Some ''application/json''" "bj_parse_email G (rq_body rq) = Some (UserTokenKey uid)"
    and "u \<in> set (db_users (w_db s))" "u_id u = sint uid"
  shows "\<exists>code t. run env (gate_get_verify_code G rq) s =
      (Inr (json_text_response (bj_serialize_verify G (UserTokenKey uid) code)), t) \<and>
    (\<forall>L me msg. nlohmann_parse_json (lb_json L) (user_login_request_from_json (lb_json L)) (node_body msg) =
        Some \<lparr>ulr_uid = uid, ulr_token = code\<rparr> \<longrightarrow>
      cs_authenticated (srv_sessions (snd (run env (login L me msg) t)) me) \<and>
      cs_uid (srv_sessions (snd (run env (login L me msg) t)) me) = uid)"
proof -
  obtain code where c: "on_rpc env (CallGetVerifyCode (UserTokenKey uid)) s =
      (RspVerify \<lparr>gvr_error = 0, gvr_email = UserTokenKey uid, gvr_code = code\<rparr>,
       s\<lparr>w_keys := (w_keys s)(UserTokenKey uid \<mapsto> code)\<rparr>)" (is "_ = (_, ?t)")
    using run_code_request [OF assms(2,3)] by blast
  have "run env (gate_get_verify_code G rq) s =
      (Inr (json_text_response (bj_serialize_verify G (UserTokenKey uid) code)), ?t)"
    using assms(4,5) c by (simp add: gate_get_verify_code_def run_bind verify_client_get_code_def)
  moreover obtain info where "user_by_id (w_db ?t) uid = Some info"
    using user_by_id_found [OF assms(6,7)] by auto
  then have "cs_authenticated (srv_sessions (snd (run env (login L me msg) ?t)) me) \<and>
      cs_uid (srv_sessions (snd (run env (login L me msg) ?t)) me) = uid"
    if "nlohmann_parse_json (lb_json L) (user_login_request_from_json (lb_json L)) (node_body msg) =
        Some \<lparr>ulr_uid = uid, ulr_token = code\<rparr>" for L me msg
    by (intro login_with_token [OF assms(1) that]) simp_all
  ultimately show ?thesis by blast
qed

definition verify_env :: "world environment" where
  "verify_env = sample_env\<lparr>on_rpc := (\<lambda>q s. case q of
       CallGetVerifyCode email \<Rightarrow>
         (case run sample_verify_env (GetVerifyCode_rpc email) (sample_verify_world\<lparr>vw_keys := w_keys s\<rparr>) of
           (Inr rsp, vt) \<Rightarrow> (RspVerify rsp, s\<lparr>w_keys := vw_keys vt\<rparr>)
         | (Inl e, vt) \<Rightarrow> (RpcFailed [], s\<lparr>w_keys := vw_keys vt\<rparr>))
     | _ \<Rightarrow> (RpcFailed ''unavailable'', s))\<rparr>"

lemma sample_env_rpc:
  "(\<And>q s. peer_call q \<Longrightarrow> snd (rpc q s) = s) \<Longrightarrow> services sample_dialect (sample_env\<lparr>on_rpc := rpc\<rparr>)"
  using sample_services unfolding services_def keeps_keys_def serves_tables_def by simp

lemma verify_env_services: "services sample_dialect verify_env"
  unfolding verify_env_def
  apply (rule sample_env_rpc)
  subgoal for q s by (cases q) simp_all
  done

theorem verification_code_opens_account_witness:
  "\<exists>code t. run verify_env (gate_get_verify_code sample_gate \<lparr>rq_method = VerbPost, rq_target = ''/get_verify_code'',
        rq_content_type = Some ''application/json'', rq_body = UserTokenKey 2\<rparr>) sample_world =
      (Inr (json_text_response (UserTokenKey 2 @ code)), t)"
proof -
  have "verify_behind sample_verify_env verify_env"
    unfolding verify_behind_def
    by (intro allI exI [of _ "sample_verify_world\<lparr>vw_keys := w_keys s\<rparr>" for s]) (simp add: verify_env_def)
  moreover have "\<lparr>u_id = 2, u_name = ''bob'', u_email = ''b@x'', u_pwd = ''p2''\<rparr> \<in> set (db_users (w_db sample_world))"
    by (simp add: sample_world_def)
  ultimately show ?thesis
    using verification_code_opens_account [OF verify_env_services sample_verify_services,
        of "\<lparr>rq_method = VerbPost, rq_target = ''/get_verify_code'',
        rq_content_type = Some ''application/json'', rq_body = UserTokenKey 2\<rparr>" sample_gate 2
        "\<lparr>u_id = 2, u_name = ''bob'', u_email = ''b@x'', u_pwd = ''p2''\<rparr>" sample_world]
    by (simp add: sample_gate_def) blast
qed

end
