(* ===== verification/ChatProperties.thy ===== *)
theory ChatProperties
  imports SampleRun
begin

text \<open>
  What the chat server does with a message: authentication, the effect and the reply of every
  handler, the way a message takes to its receiver, and the places where the program does not do
  what it means to.
\<close>

section \<open>Authentication\<close>

text \<open>C2: whatever Redis, MySQL and the peer answer and whatever other coroutines do in between,
  handling a message changes the server in three ways only: nothing, a notification delivered to the
  participant found for a uid, or the session itself taking a uid for which this message carried the
  token that Redis returned.\<close>

theorem handling_is_confined: "guar (handler_step L me msg) {} (handle_message L me msg)"
  by (rule guar_handle_message)

text \<open>C25: a session that has not logged in gets exactly one answer to anything but a login request:
  a frame with the request's own id that carries NotAuthenticated and closes the connection. No
  service is called and no state changes, whatever the 32-bit id is.\<close>

theorem unauthenticated_rejected:
  assumes "libs_ok L" "\<not> cs_authenticated (srv_sessions s me)" "mn_id msg \<noteq> wire_id LoginRequest"
  shows "\<exists>m. settle (handle_message L me msg) s = (s, Done m) \<and>
    carries L m (mn_id msg) (error_json L NotAuthenticated JNull) \<and> cm_close_after_send m"
  by (rule settle_unauthenticated [OF assms])

theorem unauthenticated_rejected_witness:
  "\<exists>m. settle (handle_message sample_libs 5 (sample_msg TextChatMsgReq JNull)) sample_world = (sample_world, Done m) \<and>
    carries sample_libs m (mn_id (sample_msg TextChatMsgReq JNull)) (error_json sample_libs NotAuthenticated JNull) \<and>
    cm_close_after_send m"
  by (rule unauthenticated_rejected [OF sample_libs_ok])
    (simp_all add: sample_world_def sample_msg_def fresh_session_def)

text \<open>A login whose token is not the one Redis holds for the uid is answered with TokenInvalid in
  a frame that closes the connection, and leaves the whole world as it was.\<close>

lemma login_wrong_token_refused:
  assumes "libs_ok L" "services D env"
    and "nlohmann_parse_json (lb_json L) (user_login_request_from_json (lb_json L)) (node_body msg) = Some req"
    and "w_keys s (UserTokenKey (ulr_uid req)) \<noteq> Some (ulr_token req)"
  shows "\<exists>m. run env (login L me msg) s = (Inr m, s) \<and>
    carries L m (wire_id LoginResponse) (error_json L TokenInvalid JNull) \<and> cm_close_after_send m"
  using error_and_close_carries [OF assms(1), of "wire_id LoginResponse" TokenInvalid]
    run_login_wrong_token [OF assms(2-4)] by auto

theorem login_wrong_token_refused_witness:
  "\<exists>m. run sample_env (login sample_libs 2 (sample_msg LoginRequest login_json)) (sample_world\<lparr>w_keys := Map.empty\<rparr>) =
      (Inr m, sample_world\<lparr>w_keys := Map.empty\<rparr>) \<and>
    carries sample_libs m (wire_id LoginResponse) (error_json sample_libs TokenInvalid JNull) \<and> cm_close_after_send m"
  by (rule login_wrong_token_refused [OF sample_libs_ok sample_services]) (simp_all add: parse_login)



text \<open>No exception of a handler escapes the dispatch: for all services and all messages
  \<^verbatim>\<open>handle_message\<close> produces a reply.\<close>

lemma handle_message_replies:
  assumes "libs_ok L"
  shows "\<exists>m t. run env (handle_message L me msg) s = (Inr m, t)"
  by (rule run_handle_message_total [OF assms])

lemma handle_message_replies_witness:
  "\<exists>m t. run sample_env (handle_message sample_libs 0 (sample_msg TextChatMsgReq JNull)) sample_world = (Inr m, t)"
  by (rule handle_message_replies [OF sample_libs_ok])

text \<open>C24: a friend or chat request made in another user's name, or addressed to oneself, is answered
  with UserUidInvalid before any service is called, and changes nothing.\<close>

theorem forged_sender_refused:
  assumes "libs_ok L"
    and "nlohmann_parse_json (lb_json L) (text_chat_msg_from_json (lb_json L)) (node_body msg) = Some t"
    and "tcm_fromuid t \<noteq> cs_uid (srv_sessions s me) \<or> tcm_fromuid t = tcm_touid t"
    and "nlohmann_parse_json (lb_json L) (add_friend_request_from_json (lb_json L)) (node_body msg') = Some a"
    and "adr_uid a \<noteq> cs_uid (srv_sessions s me) \<or> adr_uid a = adr_touid a"
    and "nlohmann_parse_json (lb_json L) (auth_friend_request_from_json (lb_json L)) (node_body msg'') = Some b"
    and "ahr_fromuid b \<noteq> cs_uid (srv_sessions s me) \<or> ahr_fromuid b = ahr_touid b"
  shows "(\<exists>m. settle (text_chat_msg L me msg) s = (s, Done m) \<and>
      carries L m (wire_id TextChatMsgRsp) (error_json L UserUidInvalid JNull)) \<and>
    (\<exists>m. settle (add_friend L me msg') s = (s, Done m) \<and>
      carries L m (wire_id AddFriendResponse) (error_json L UserUidInvalid JNull)) \<and>
    (\<exists>m. settle (auth_friend L me msg'') s = (s, Done m) \<and>
      carries L m (wire_id AuthFriendResponse) (error_json L UserUidInvalid JNull))"
  using settle_text_chat_forged [OF assms(1-3)] settle_add_friend_forged [OF assms(1,4,5)]
    settle_auth_friend_forged [OF assms(1,6,7)] by blast

theorem forged_sender_refused_witness:
  "\<exists>m. settle (text_chat_msg sample_libs 1 (sample_msg TextChatMsgReq (text_chat_msg_to_json hello_msg))) sample_world =
    (sample_world, Done m)"
  using forged_sender_refused [OF sample_libs_ok, where s = sample_world and me = 1
      and msg = "sample_msg TextChatMsgReq (text_chat_msg_to_json hello_msg)" and t = hello_msg
      and msg' = "sample_msg AddFriendRequest (pair_json ''uid'' 2 2)" and a = "\<lparr>adr_uid = 2, adr_touid = 2\<rparr>"
      and msg'' = "sample_msg AuthFriendRequest (pair_json ''fromuid'' 1 2)" and b = "\<lparr>ahr_fromuid = 1, ahr_touid = 2\<rparr>"]
  by (simp add: parse_text_chat parse_add_friend parse_auth_friend hello_msg_def) blast

section \<open>Friends and chat\<close>

text \<open>C8: with documented services, a chat message follows the route: it is refused, dropped with
  Success when the target is offline or its session is gone, delivered to the local session, or
  passed to the peer, whose failure becomes RPCFailed under the id of the request.\<close>

theorem text_chat_follows_route:
  assumes "services D env"
    and "nlohmann_parse_json (lb_json L) (text_chat_msg_from_json (lb_json L)) (node_body msg) = Some req"
  shows "run env (text_chat_msg L me msg) s =
    (let rid = wire_id TextChatMsgRsp; q = CallNotifyTextChatMsg (pb_of_text_chat req) in
     case route_of me (tcm_fromuid req) (tcm_touid req) s of
       Refused \<Rightarrow> (error_response L rid UserUidInvalid, s)
     | Offline \<Rightarrow> (error_response L rid Success, s)
     | Disconnected \<Rightarrow> (error_response L rid Success, s)
     | Local i \<Rightarrow> deliver_reply L rid i
         (node_of_json L (wire_id NotifyTextChatMsg) (text_chat_msg_to_json req)) s
     | Remote srv \<Rightarrow> (peer_reply L (mn_id msg) rid q (fst (on_rpc env q s)), s))"
  by (rule run_text_chat_msg [OF assms])

lemma sample_route [simp]: "route_of 0 1 2 sample_world = Local 1"
  by (simp add: route_of_def)

theorem text_chat_follows_route_witness:
  "run sample_env (text_chat_msg sample_libs 0 (sample_msg TextChatMsgReq (text_chat_msg_to_json hello_msg))) sample_world =
    deliver_reply sample_libs (wire_id TextChatMsgRsp) 1
      (node_of_json sample_libs (wire_id NotifyTextChatMsg) (text_chat_msg_to_json hello_msg)) sample_world"
  using text_chat_follows_route [OF sample_services, where L = sample_libs and req = hello_msg and me = 0
      and msg = "sample_msg TextChatMsgReq (text_chat_msg_to_json hello_msg)" and s = sample_world]
  by (simp add: parse_text_chat) (simp add: hello_msg_def)

text \<open>A chat message to a user on the same server arrives complete: the sender gets Success, and
  the last message in the receiver's channel is a frame from whose body the receiver reads back
  exactly the sender, the receiver and the texts of the request.\<close>

lemma text_chat_arrives:
  assumes "libs_ok L" "services D env"
    and "nlohmann_parse_json (lb_json L) (text_chat_msg_from_json (lb_json L)) (node_body msg) = Some req"
    and "route_of me (tcm_fromuid req) (tcm_touid req) s = Local i"
    and "dump (lb_json L) (text_chat_msg_to_json req) = Some b" "length b \<le> MAX_LENGTH"
    and "length (cs_channel (srv_sessions s i)) < channel_room (srv_sessions s i)"
  shows "\<exists>reply t n. run env (text_chat_msg L me msg) s = (Inr reply, t) \<and>
    carries L reply (wire_id TextChatMsgRsp) (error_json L Success JNull) \<and>
    cs_channel (srv_sessions t i) = cs_channel (srv_sessions s i) @ [channel_of n] \<and>
    mn_id n = wire_id NotifyTextChatMsg \<and>
    nlohmann_parse_json (lb_json L) (text_chat_msg_from_json (lb_json L)) (node_body n) = Some req"
proof -
  obtain n where n: "node_of_json L (wire_id NotifyTextChatMsg) (text_chat_msg_to_json req) = Inr n"
    "carries L \<lparr>cm_msg = n, cm_close_after_send = False\<rparr> (wire_id NotifyTextChatMsg) (text_chat_msg_to_json req)"
    using node_of_json_carries [OF assms(1) _ assms(5,6)] by auto
  obtain reply where reply: "message_response L (wire_id TextChatMsgRsp) = Inr reply"
    "carries L reply (wire_id TextChatMsgRsp) (error_json L Success JNull)"
    using error_response_carries [OF assms(1)] message_response_eq by metis
  have "run env (text_chat_msg L me msg) s = (Inr reply, deliver i (channel_of n) s)"
    using run_text_chat_msg [OF assms(2,3), of me s] assms(4) n(1) reply(1)
    by (simp add: deliver_reply_def)
  moreover have "cs_channel (srv_sessions (deliver i (channel_of n) s) i) = cs_channel (srv_sessions s i) @ [channel_of n]"
    using assms(7) by (simp add: deliver_def try_send_def)
  moreover have "nlohmann_parse_json (lb_json L) (text_chat_msg_from_json (lb_json L)) (node_body n) = Some req"
    using n(2) text_chat_msg_roundtrip [OF libs_okD(1) [OF assms(1)]]
    by (auto simp: carries_def nlohmann_parse_json_def)
  ultimately show ?thesis using reply(2) node_of_json_id [OF n(1)] by blast
qed

lemma hello_dump: "length (print_json (text_chat_msg_to_json hello_msg)) \<le> MAX_LENGTH"
  using length_print_json [of "text_chat_msg_to_json hello_msg"]
  by (simp add: MAX_LENGTH_def)
    (simp add: hello_msg_def text_chat_msg_to_json_def text_chat_data_to_json_def json_set.simps of_i64_def)

lemma text_chat_arrives_witness:
  "\<exists>t n. snd (run sample_env (text_chat_msg sample_libs 0
      (sample_msg TextChatMsgReq (text_chat_msg_to_json hello_msg))) sample_world) = t \<and>
    cs_channel (srv_sessions t 1) = [channel_of n] \<and> mn_id n = wire_id NotifyTextChatMsg"
  using text_chat_arrives [OF sample_libs_ok sample_services, where req = hello_msg and me = 0 and i = 1
      and msg = "sample_msg TextChatMsgReq (text_chat_msg_to_json hello_msg)" and s = sample_world
      and b = "print_json (text_chat_msg_to_json hello_msg)"] hello_dump
  by (simp add: parse_text_chat channel_room_def channel_size_def)
    (auto simp: hello_msg_def sample_json_def)

text \<open>
  What the notification service does is what a handler does for a session of its own server, up to the ids,
  which cross in 32 bits.
\<close>

abbreviation notify_locally ::
    "'w server environment \<Rightarrow> libs \<Rightarrow> json \<Rightarrow> i64 \<Rightarrow> message_id \<Rightarrow> 'w server \<Rightarrow> (exn + unit) \<times> 'w server" where
  "notify_locally env L j uid k s \<equiv> run env (notify_participant uid (node_of_json L (wire_id k) j) (Done ()) (Done ())) s"

lemma notify_session_local: "notify_session L j uid k s = notify_locally env L j uid k s"
  by (auto simp: notify_session_def notify_participant_def split: option.split sum.split)

lemma notice_of_pb:
  "fits_i32 f \<Longrightarrow> notify_add_friend_of_pb (pb_of_add_friend f name t) = \<lparr>naf_applyuid = f, naf_name = name\<rparr>"
  "fits_i32 f \<Longrightarrow> fits_i32 t \<Longrightarrow> notify_auth_friend_of_pb (pb_of_auth_friend f t) = \<lparr>nau_fromuid = f, nau_touid = t\<rparr>"
  by (simp_all add: notify_add_friend_of_pb_def pb_of_add_friend_def notify_auth_friend_of_pb_def pb_of_auth_friend_def)

lemma text_chat_of_pb:
  assumes "fits_i32 (tcm_fromuid m)" "fits_i32 (tcm_touid m)" "\<forall>d\<in>set (tcm_text_array m). fits_i32 (tcd_msgid d)"
  shows "notify_text_chat_of_pb (pb_of_text_chat m) = m"
proof -
  have "map (\<lambda>d. \<lparr>tcd_msgid = widen_i64 (narrow_i32 (tcd_msgid d)), tcd_content = tcd_content d\<rparr>)
      (tcm_text_array m) = tcm_text_array m"
    using assms(3) by (intro map_idI) simp
  then show ?thesis
    using assms(1,2) by (simp add: notify_text_chat_of_pb_def pb_of_text_chat_def comp_def)
qed

lemma peer_delivers:
  assumes "fits_i32 (tcm_fromuid m)" "fits_i32 (tcm_touid m)"
    and "\<forall>d\<in>set (tcm_text_array m). fits_i32 (tcd_msgid d)"
    and "get_participant (tcm_touid m) peer = Some i"
    and "node_of_json L (wire_id NotifyTextChatMsg) (text_chat_msg_to_json m) = Inr n"
  shows "\<exists>rsp. chat_service L (CallNotifyTextChatMsg (pb_of_text_chat m)) peer =
      (Some (RspTextChat rsp), deliver i (channel_of n) peer) \<and> tcs_error rsp = 0"
  using assms text_chat_of_pb [OF assms(1-3)]
  by (simp add: NotifyTextChatMsg_rpc_def notify_session_def) (simp add: pb_of_text_chat_def)

text \<open>C11: a notification through the peer is the local one: for ids that fit the protocol's 32-bit fields, each
  of the three calls does to the peer's server, whatever its state, what a handler running there would do to notify
  the same user of the same event, the case of a user who is not there and of a text that cannot be serialised
  included; the answer reports no error, also for a user who is not there.\<close>

theorem peer_notifies_like_local:
  assumes "fits_i32 f" "fits_i32 t"
    and "fits_i32 (tcm_fromuid m)" "fits_i32 (tcm_touid m)" "\<forall>d\<in>set (tcm_text_array m). fits_i32 (tcd_msgid d)"
  shows "chat_service L (CallNotifyAddFriend (pb_of_add_friend f name t)) s =
      (case notify_locally env L (notify_add_friend_msg_to_json \<lparr>naf_applyuid = f, naf_name = name\<rparr>) t NotifyAddFriend s of
        (Inl _, s') \<Rightarrow> (None, s')
      | (Inr _, s') \<Rightarrow> (Some (RspAddFriend
          \<lparr>afs_error = 0, afs_applyuid = narrow_i32 f, afs_touid = narrow_i32 t\<rparr>), s')) \<and>
    chat_service L (CallNotifyAuthFriend (pb_of_auth_friend f t)) s =
      (case notify_locally env L (notify_auth_friend_msg_to_json \<lparr>nau_fromuid = f, nau_touid = t\<rparr>) t NotifyAuthFriend s of
        (Inl _, s') \<Rightarrow> (None, s')
      | (Inr _, s') \<Rightarrow> (Some (RspAuthFriend
          \<lparr>aus_error = 0, aus_fromuid = narrow_i32 f, aus_touid = narrow_i32 t\<rparr>), s')) \<and>
    chat_service L (CallNotifyTextChatMsg (pb_of_text_chat m)) s =
      (case notify_locally env L (text_chat_msg_to_json m) (tcm_touid m) NotifyTextChatMsg s of
        (Inl _, s') \<Rightarrow> (None, s')
      | (Inr _, s') \<Rightarrow> (Some (RspTextChat
          \<lparr>tcs_error = 0, tcs_fromuid = 0, tcs_touid = 0, tcs_textmsgs = []\<rparr>), s'))"
proof (intro conjI)
  have add: "widen_i64 (afr_touid (pb_of_add_friend f name t)) = t" "afr_applyuid (pb_of_add_friend f name t) = narrow_i32 f"
      "afr_touid (pb_of_add_friend f name t) = narrow_i32 t"
    and auth: "widen_i64 (aur_touid (pb_of_auth_friend f t)) = t" "aur_fromuid (pb_of_auth_friend f t) = narrow_i32 f"
      "aur_touid (pb_of_auth_friend f t) = narrow_i32 t"
    and text_chat: "widen_i64 (tcr_touid (pb_of_text_chat m)) = tcm_touid m"
    using assms by (simp_all add: pb_of_add_friend_def pb_of_auth_friend_def pb_of_text_chat_def)
  note unfold = notify_session_local [of _ _ _ _ _ env]
  show "chat_service L (CallNotifyAddFriend (pb_of_add_friend f name t)) s =
      (case notify_locally env L (notify_add_friend_msg_to_json \<lparr>naf_applyuid = f, naf_name = name\<rparr>) t NotifyAddFriend s of
        (Inl _, s') \<Rightarrow> (None, s')
      | (Inr _, s') \<Rightarrow> (Some (RspAddFriend
          \<lparr>afs_error = 0, afs_applyuid = narrow_i32 f, afs_touid = narrow_i32 t\<rparr>), s'))"
    using assms(2) by (simp add: NotifyAddFriend_rpc_def add notice_of_pb(1) [OF assms(1)] unfold split: prod.split sum.split)
  show "chat_service L (CallNotifyAuthFriend (pb_of_auth_friend f t)) s =
      (case notify_locally env L (notify_auth_friend_msg_to_json \<lparr>nau_fromuid = f, nau_touid = t\<rparr>) t NotifyAuthFriend s of
        (Inl _, s') \<Rightarrow> (None, s')
      | (Inr _, s') \<Rightarrow> (Some (RspAuthFriend
          \<lparr>aus_error = 0, aus_fromuid = narrow_i32 f, aus_touid = narrow_i32 t\<rparr>), s'))"
    using assms(2) by (simp add: NotifyAuthFriend_rpc_def auth notice_of_pb(2) [OF assms(1,2)] unfold split: prod.split sum.split)
  show "chat_service L (CallNotifyTextChatMsg (pb_of_text_chat m)) s =
      (case notify_locally env L (text_chat_msg_to_json m) (tcm_touid m) NotifyTextChatMsg s of
        (Inl _, s') \<Rightarrow> (None, s')
      | (Inr _, s') \<Rightarrow> (Some (RspTextChat
          \<lparr>tcs_error = 0, tcs_fromuid = 0, tcs_touid = 0, tcs_textmsgs = []\<rparr>), s'))"
    by (simp add: NotifyTextChatMsg_rpc_def text_chat text_chat_of_pb [OF assms(3-5)] unfold split: prod.split sum.split)
qed

theorem peer_notifies_like_local_witness:
  "\<exists>n. chat_service sample_libs (CallNotifyTextChatMsg (pb_of_text_chat hello_msg)) sample_world =
      (Some (RspTextChat \<lparr>tcs_error = 0, tcs_fromuid = 0, tcs_touid = 0, tcs_textmsgs = []\<rparr>),
       deliver 1 (channel_of n) sample_world)"
proof -
  obtain n where n: "node_of_json sample_libs (wire_id NotifyTextChatMsg) (text_chat_msg_to_json hello_msg) = Inr n"
    by (simp add: node_of_json_def dump_text_def sample_json_def)
  have "fits_i32 7" "fits_i32 1" "fits_i32 2" by (simp_all add: fits_i32_def)
  then have "chat_service sample_libs (CallNotifyTextChatMsg (pb_of_text_chat hello_msg)) sample_world =
      (case notify_locally sample_env sample_libs (text_chat_msg_to_json hello_msg) (tcm_touid hello_msg) NotifyTextChatMsg
         sample_world of
        (Inl _, s') \<Rightarrow> (None, s')
      | (Inr _, s') \<Rightarrow> (Some (RspTextChat
          \<lparr>tcs_error = 0, tcs_fromuid = 0, tcs_touid = 0, tcs_textmsgs = []\<rparr>), s'))"
    by (intro conjunct2 [OF conjunct2 [OF peer_notifies_like_local [of 1 2 hello_msg]]]) (simp_all add: hello_msg_def)
  then show ?thesis by (simp add: notify_participant_def n) (auto simp: hello_msg_def)
qed

text \<open>An id that does not fit is silently truncated on the way to the peer: the notification for
  the user with id 2 to the power 32 plus 5 goes to the session of user 5.\<close>

lemma peer_truncates_ids:
  assumes "tcm_touid m = 2 ^ 32 + 5"
  shows "rpc_target (CallNotifyTextChatMsg (pb_of_text_chat m)) = 5"
  using assms by (simp add: pb_of_text_chat_def narrow_i32_def widen_i64_def)

theorem peer_truncates_ids_witness:
  "rpc_target (CallNotifyTextChatMsg (pb_of_text_chat (hello_msg\<lparr>tcm_touid := 2 ^ 32 + 5\<rparr>))) = 5"
  by (rule peer_truncates_ids) simp


lemma sample_apply:
  "insert_friend_apply 1 2 (w_db sample_world) = (Inr (no_rows 1 0),
     (w_db sample_world)\<lparr>db_applies := [\<lparr>a_from_uid = 1, a_to_uid = 2, a_status = 0\<rparr>]\<rparr>)"
  by (simp add: insert_friend_apply_def fits_int_def sample_world_def)




section \<open>Where the program does not do what it means to\<close>

lemma insert_apply_status:
  assumes "fits_int f" "fits_int t" "f \<noteq> t" "apply_status d f t = None" "apply_status d t f = None"
  shows "apply_status (snd (auth_friend_tx t f (snd (insert_friend_apply f t d)))) f t = Some 0"
  using assms by (simp add: auth_friend_tx_effect(1) apply_status_insert)

text \<open>C27: the application that is accepted is never marked as accepted: after user f applied to user
  t and t accepted, both replies sent, the stored application of f to t still has status 0, because
  the update looks for an application of t to f.\<close>

theorem accepted_application_stays_pending:
  assumes "services D env"
    and "nlohmann_parse_json (lb_json L) (add_friend_request_from_json (lb_json L)) (node_body msg) = Some req"
    and "nlohmann_parse_json (lb_json L) (auth_friend_request_from_json (lb_json L)) (node_body msg') = Some req'"
    and "adr_uid req = cs_uid (srv_sessions s me)" "adr_uid req \<noteq> adr_touid req"
    and "ahr_fromuid req' = adr_touid req" "ahr_touid req' = adr_uid req"
    and "fits_i32 (adr_uid req)" "fits_i32 (adr_touid req)"
    and "apply_status (w_db s) (sint (adr_uid req)) (sint (adr_touid req)) = None"
    and "apply_status (w_db s) (sint (adr_touid req)) (sint (adr_uid req)) = None"
    and "snd (run env (add_friend L me msg) s) = s1" "ahr_fromuid req' = cs_uid (srv_sessions s1 you)"
  shows "apply_status (w_db (snd (run env (auth_friend L you msg') s1)))
    (sint (adr_uid req)) (sint (adr_touid req)) = Some 0"
proof -
  let ?f = "sint (adr_uid req)" and ?t = "sint (adr_touid req)"
  have ints: "fits_int ?f" "fits_int ?t" using assms(8,9) by (simp_all add: fits_i32_def fits_int_def)
  have "route_of me (adr_uid req) (adr_touid req) s \<noteq> Refused"
    using assms(4,5) by (simp add: route_of_def split: option.split)
  moreover have "\<exists>r. fst (insert_friend_apply ?f ?t (w_db s)) = Inr r"
    using ints by (simp add: insert_friend_apply_def)
  ultimately have "w_db s1 = snd (insert_friend_apply ?f ?t (w_db s))"
    using run_add_friend [OF assms(1,2), of me s] assms(12)
    by (cases "route_of me (adr_uid req) (adr_touid req) s")
      (auto simp: Let_def deliver_reply_def split: sum.splits option.splits)
  moreover have "w_db (snd (run env (auth_friend L you msg') s1)) = snd (auth_friend_tx ?t ?f (w_db s1))"
  proof -
    have "route_of you (ahr_fromuid req') (ahr_touid req') s1 \<noteq> Refused"
      using assms(5,6,7,13) by (simp add: route_of_def split: option.split)
    then show ?thesis
      using run_auth_friend [OF assms(1,3), of you s1] assms(6,7)
      by (cases "route_of you (ahr_fromuid req') (ahr_touid req') s1")
        (simp_all add: Let_def deliver_reply_def split: sum.split)
  qed
  moreover have "?f \<noteq> ?t" using assms(5) signed_word_eqI by blast
  ultimately show ?thesis using insert_apply_status [OF ints] assms(10,11) by simp
qed

lemma sample_add_friend_uids:
  "cs_uid (srv_sessions (snd (run sample_env (add_friend sample_libs 0
     (sample_msg AddFriendRequest (pair_json ''uid'' 1 2))) sample_world)) 1) = 2"
  using run_add_friend [OF sample_services, where L = sample_libs and me = 0 and s = sample_world
      and msg = "sample_msg AddFriendRequest (pair_json ''uid'' 1 2)" and req = "\<lparr>adr_uid = 1, adr_touid = 2\<rparr>"]
  by (simp add: parse_add_friend sample_apply Let_def deliver_reply_def deliver_def split: sum.split option.split)

theorem accepted_application_stays_pending_witness:
  "apply_status (w_db (snd (run sample_env (auth_friend sample_libs 1
     (sample_msg AuthFriendRequest (pair_json ''fromuid'' 2 1)))
     (snd (run sample_env (add_friend sample_libs 0
       (sample_msg AddFriendRequest (pair_json ''uid'' 1 2))) sample_world))))) 1 2 = Some 0"
  using accepted_application_stays_pending [OF sample_services, where L = sample_libs and s = sample_world
      and me = 0 and you = 1 and msg = "sample_msg AddFriendRequest (pair_json ''uid'' 1 2)"
      and msg' = "sample_msg AuthFriendRequest (pair_json ''fromuid'' 2 1)"
      and req = "\<lparr>adr_uid = 1, adr_touid = 2\<rparr>" and req' = "\<lparr>ahr_fromuid = 2, ahr_touid = 1\<rparr>"]
    sample_add_friend_uids
  by (simp add: parse_add_friend parse_auth_friend fits_i32_def) (simp add: apply_status_def sample_world_def)

text \<open>C28: a reply whose text is longer than the 1024 bytes of a frame is not an error: the client gets
  a frame with the right id and an empty body.\<close>

theorem oversized_reply_is_emptied:
  assumes "libs_ok L" "dump (lb_json L) j = Some b" "MAX_LENGTH < length b" "length b < 2 ^ 31"
  shows "\<exists>n. node_of_json L rid j = Inr n \<and>
    read_frame (lb_platform L) (wire n @ rest) = Frame n rest \<and> mn_id n = rid \<and> node_body n = []"
proof -
  have "CHR 0x00 \<notin> set b" using json_lib_okD(2) [OF libs_okD(1) [OF assms(1)] assms(2)] .
  then have "strlen b = length b" by (simp add: strlen_def takeWhile_all)
  then have n: "node_of_json L rid j = Inr (frame_node rid [])"
    using mk_node_too_long [OF libs_okD(3) [OF assms(1)]] assms(2-4)
    by (simp add: node_of_json_def dump_text_def)
  have "node_body (frame_node rid []) = []" by (rule node_body_frame) simp
  with n show ?thesis
    using read_frame_wire [OF libs_okD(3) [OF assms(1)], of "[]" rid rest] by auto
qed

lemma long_text: "length (print_json (JStr (replicate 2000 (CHR ''x'')))) = 2002"
proof -
  have "escape (CHR ''x'') = ''x''" by (simp add: escape_def quote_def backslash_def)
  then have "concat (map escape (replicate n (CHR ''x''))) = replicate n (CHR ''x'')" for n
    by (induction n) simp_all
  then show ?thesis by (simp add: print_string_def)
qed

theorem oversized_reply_is_emptied_witness:
  "\<exists>n. node_of_json sample_libs (wire_id LoginResponse) (JStr (replicate 2000 (CHR ''x''))) = Inr n \<and>
    read_frame (lb_platform sample_libs) (wire n @ []) = Frame n [] \<and> mn_id n = wire_id LoginResponse \<and> node_body n = []"
  by (rule oversized_reply_is_emptied [OF sample_libs_ok, where b = "print_json (JStr (replicate 2000 (CHR ''x'')))"])
    (simp_all only: long_text MAX_LENGTH_def sample_lib, simp_all add: sample_json_def)

text \<open>Searching a user by name gives the requester the stored record with its password: the body
  of the reply parses back to exactly the row of the user table.\<close>

lemma search_reveals_password:
  assumes "libs_ok L" "services D env"
    and "parse (lb_json L) (node_body msg) = Some j" "number_at j ''uid'' = None"
    and "string_at j ''name'' = Some v" "get_string (lb_json L) v = Some n"
    and "w_keys s (UserNameInfoPrefix @ n) = None"
    and "List.find (\<lambda>u. same_text D (u_name u) n) (db_users (w_db s)) = Some u"
    and "CHR 0x00 \<notin> set (bj_serialize_user L (user_info_of u))"
    and "length (bj_serialize_user L (user_info_of u)) \<le> MAX_LENGTH"
  shows "\<exists>m info. fst (run env (search_user L me msg) s) = Inr m \<and> mn_id (cm_msg m) = wire_id SearchUserResponse \<and>
    bj_parse_user L (node_body (cm_msg m)) = Some info \<and> ui_pwd info = u_pwd u"
proof -
  let ?b = "bj_serialize_user L (user_info_of u)"
  obtain e where e: "error_response L (wire_id SearchUserResponse) UserNotFound = Inr e"
    using error_response_carries [OF assms(1)] by blast
  have "strlen ?b = length ?b" using assms(9) by (simp add: strlen_def takeWhile_all)
  then have node: "mk_node (lb_platform L) (wire_id SearchUserResponse) (Some ?b) = frame_node (wire_id SearchUserResponse) ?b"
    using mk_node_fits [OF libs_okD(3) [OF assms(1)]] assms(9,10) by (simp add: takeWhile_all)
  have "fst (run env (search_user L me msg) s) = Inr (channel_of (frame_node (wire_id SearchUserResponse) ?b))"
    using assms(3-8) e node
    by (simp add: search_user_def Let_def cor_simps run_search_user_by_name [OF assms(2)]
        cached_user_def user_by_name_def)
  moreover have "bj_parse_user L ?b = Some (user_info_of u)" by (rule libs_okD(4) [OF assms(1)])
  ultimately show ?thesis
    using node_body_frame [OF assms(9)] by (auto simp: channel_of_def) (simp add: user_info_of_def)
qed

lemma sample_alice:
  "CHR 0x00 \<notin> set (sample_user_text u)"
  "length (sample_user_text \<lparr>ui_id = 1, ui_name = ''alice'', ui_email = ''a@x'', ui_pwd = ''p1''\<rparr>) \<le> MAX_LENGTH"
proof -
  show "CHR 0x00 \<notin> set (sample_user_text u)" by (simp only: sample_user_text_def print_json_no_zero not_False_eq_True)
  show "length (sample_user_text \<lparr>ui_id = 1, ui_name = ''alice'', ui_email = ''a@x'', ui_pwd = ''p1''\<rparr>) \<le> MAX_LENGTH"
    using length_print_json [of "JArr [of_i64 1, JStr ''alice'', JStr ''a@x'', JStr ''p1'']"]
    by (simp only: sample_user_text_def user_info.simps) (simp add: MAX_LENGTH_def of_i64_def)
qed

definition name_json :: json where
  "name_json = json_set ''name'' (JStr ''alice'') JNull"

theorem search_reveals_password_witness:
  "\<exists>m info. fst (run sample_env (search_user sample_libs 1 (sample_msg SearchUserRequest name_json)) sample_world) = Inr m \<and>
    bj_parse_user sample_libs (node_body (cm_msg m)) = Some info \<and> ui_pwd info = ''p1''"
proof -
  have p: "parse sample_json (node_body (sample_msg SearchUserRequest name_json)) = Some (json_norm name_json)"
    using sample_parse [of name_json Some SearchUserRequest] by (simp add: nlohmann_parse_json_def name_json_def)
  have "user_info_of \<lparr>u_id = 1, u_name = ''alice'', u_email = ''a@x'', u_pwd = ''p1''\<rparr> =
      \<lparr>ui_id = 1, ui_name = ''alice'', ui_email = ''a@x'', ui_pwd = ''p1''\<rparr>"
    by (simp add: user_info_of_def)
  then show ?thesis
    using search_reveals_password [OF sample_libs_ok sample_services, where s = sample_world and me = 1
        and msg = "sample_msg SearchUserRequest name_json" and j = "json_norm name_json"
        and v = "JStr ''alice''" and n = "''alice''"
        and u = "\<lparr>u_id = 1, u_name = ''alice'', u_email = ''a@x'', u_pwd = ''p1''\<rparr>"] p sample_alice
    by (auto simp: name_json_def number_at_def string_at_def json_at_norm sample_libs_def
        sample_world_def sample_dialect_def UserNameInfoPrefix_def UserTokenKey_def UserTokenPrefix_def
        UserLoginServerPrefix_def)
qed

text \<open>The success envelope has an empty message: the reflected range of the error enum starts at
  1001, so the name of the value 0 is not found.\<close>

lemma success_has_no_name:
  assumes "libs_ok L"
  shows "json_at (error_json L Success JNull) ''message'' = Some (JStr [])"
  using libs_okD(2) [OF assms] by (simp add: error_json_def enum_lib_ok_def server_error_min_def)

theorem success_has_no_name_witness:
  "json_at (error_json sample_libs Success JNull) ''message'' = Some (JStr [])"
  by (rule success_has_no_name [OF sample_libs_ok])

section \<open>User search and the tables\<close>

text \<open>Looking a user up fills the cache: whenever a search by uid finds a user, repeating it gives
  the same user and changes nothing, even if the tables have lost or changed the row meanwhile.\<close>

lemma search_is_cached:
  assumes "libs_ok L" "services D env"
    and "run env (search_user_by_uid L uid) s = (Inr (Some u), t)"
  shows "run env (search_user_by_uid L uid) (t\<lparr>w_db := d\<rparr>) = (Inr (Some u), t\<lparr>w_db := d\<rparr>)"
proof -
  let ?k = "UserUidInfoPrefix @ to_string (sint uid)"
  have "Option.bind (w_keys t ?k) (bj_parse_user L) = Some u"
    using assms(3) libs_okD(4) [OF assms(1)]
    by (auto simp: run_search_user_by_uid [OF assms(2)] cached_user_def Let_def split: option.splits)
  then show ?thesis by (simp add: run_search_user_by_uid [OF assms(2)] cached_user_def)
qed

lemma search_is_cached_witness:
  "\<exists>u t. run sample_env (search_user_by_uid sample_libs 1) sample_world = (Inr (Some u), t) \<and>
    run sample_env (search_user_by_uid sample_libs 1) (t\<lparr>w_db := (w_db t)\<lparr>db_users := []\<rparr>\<rparr>) =
      (Inr (Some u), t\<lparr>w_db := (w_db t)\<lparr>db_users := []\<rparr>\<rparr>)"
proof -
  have "fst (cached_user sample_libs (UserUidInfoPrefix @ to_string 1) (user_by_id (w_db sample_world) 1) sample_world) \<noteq> None"
    by (simp add: cached_user_def user_by_id_def) (simp add: sample_world_def)
  then obtain u t where "run sample_env (search_user_by_uid sample_libs 1) sample_world = (Inr (Some u), t)"
    by (auto simp: run_search_user_by_uid [OF sample_services] Let_def)
  with search_is_cached [OF sample_libs_ok sample_services this] show ?thesis by blast
qed



end
