(* ===== verification/EndToEnd.thy ===== *)
theory EndToEnd
  imports SystemProperties ChatProperties
begin

text \<open>
  A message on its whole way: typed into a client, read by the server, handled, delivered to the session of
  the receiver, written and printed by the receiver's client.
\<close>

section \<open>A waiting message is written\<close>

lemma waiting_is_written:
  assumes "pr_blocked p = None" "i \<in> pr_started p" "cs_open (session p i)" "cs_writer (session p i) = WaitReceive"
    and "cs_channel (session p i) = m # ms" "\<not> cm_close_after_send m"
  shows "\<exists>q. (free_step L)\<^sup>*\<^sup>* p q \<and> pr_sent q = (pr_sent p)(i := pr_sent p i @ [m]) \<and>
    srv_sessions (pr_server q) = (srv_sessions (pr_server p))(i := (session p i)\<lparr>cs_channel := ms\<rparr>) \<and>
    pr_blocked q = None \<and> pr_started q = pr_started p \<and> pr_read q = pr_read p \<and> pr_log q = pr_log p"
proof -
  let ?c = "(session p i)\<lparr>cs_channel := ms, cs_writer := Writing m\<rparr>"
  have "channel_receive (session p i) = Some (m, ?c)" by (simp add: channel_receive_def assms(5))
  from write_take [OF assms(1,2,4) this] have a: "session_step L p (with_session i (\<lambda>_. ?c) p)" .
  have b: "session_step L (with_session i (\<lambda>_. ?c) p) (writer_written i m (with_session i (\<lambda>_. ?c) p))"
    by (rule write_done) (simp_all add: with_session_def waiting_simps assms(1,3))
  have "pr_blocked (with_session i (\<lambda>_. ?c) p) = None"
    by (simp add: with_session_def waiting_simps assms(1))
  then have ab: "(free_step L)\<^sup>*\<^sup>* p (writer_written i m (with_session i (\<lambda>_. ?c) p))"
    using a b assms(1) by (simp add: converse_rtranclp_into_rtranclp free_step_def)
  have "(session p i)\<lparr>cs_channel := ms, cs_writer := WaitReceive\<rparr> = (session p i)\<lparr>cs_channel := ms\<rparr>"
    using assms(4) by (cases "session p i") simp
  then show ?thesis
    using assms(1,6)
    by (intro exI [of _ "writer_written i m (with_session i (\<lambda>_. ?c) p)"] conjI ab)
      (simp_all add: writer_written_def with_session_def set_server_def)
qed

section \<open>A chat message is handled\<close>

lemma run_local_chat:
  assumes "libs_ok L" "stateless env" "cs_authenticated (srv_sessions s i)"
    and "fst (on_redis env (R_GET (UserLoginServerPrefix @ to_string (sint (tcm_touid req)))) s) = R_Value (R_Str (srv_name s))"
    and "mn_id msg = wire_id TextChatMsgReq"
    and "nlohmann_parse_json (lb_json L) (text_chat_msg_from_json (lb_json L)) (node_body msg) = Some req"
    and "tcm_fromuid req = cs_uid (srv_sessions s i)" "tcm_fromuid req \<noteq> tcm_touid req"
    and "get_participant (tcm_touid req) s = Some j"
    and "node_of_json L (wire_id NotifyTextChatMsg) (text_chat_msg_to_json req) = Inr n"
    and "message_response L (wire_id TextChatMsgRsp) = Inr reply"
  shows "run env (handle_message L i msg) s = (Inr reply, deliver j (channel_of n) s)"
proof -
  have "on_redis env (R_GET (UserLoginServerPrefix @ to_string (sint (tcm_touid req)))) s = (R_Value (R_Str (srv_name s)), s)"
    using assms(2,4) by (simp add: stateless_def prod_eq_iff)
  then have "run env (text_chat_msg L i msg) s = (Inr reply, deliver j (channel_of n) s)"
    using assms(6-11) by (simp add: text_chat_msg_def Let_def cor_simps get_user_login_server_def redis_get_def run_notify_participant)
  moreover have "cast_message_id (lb_enum L) (ucast (wire_id TextChatMsgReq)) = Some TextChatMsgReq"
    using cast_message_code [OF libs_okD(2) [OF assms(1)], of TextChatMsgReq] by (simp add: wire_id_def)
  ultimately show ?thesis
    using assms(3,5) by (simp add: handle_message_def Let_def handlers_init_def run_catch smap_simps)
qed

section \<open>The whole way\<close>

text \<open>A session whose writer waits for something to write.\<close>

definition ready :: "chat_process \<Rightarrow> nat \<Rightarrow> bool" where
  "ready p i \<longleftrightarrow> i \<in> pr_started p \<and> cs_open (session p i) \<and> cs_writer (session p i) = WaitReceive \<and>
     cs_channel (session p i) = []"

definition everybody_here :: "chat_server environment" where
  "everybody_here = \<lparr>on_redis = (\<lambda>q s. (R_Value (R_Str (srv_name s)), s)), on_sql = (\<lambda>q s. (SqlOk [], s)),
     on_rpc = (\<lambda>q s. (RpcFailed [], s)), on_uuid = (\<lambda>s. ([], s))\<rparr>"

text \<open>From the bytes of a request to the two messages written.\<close>

lemma chat_request_is_served:
  assumes "libs_ok L" "pr_blocked p = None" "ready p i" "ready p j" "i \<noteq> j"
    and "pr_reader p i = ReadHeader" "read_frame (lb_platform L) (pr_inbox p i) = Frame msg rest"
    and "cs_authenticated (session p i)" "mn_id msg = wire_id TextChatMsgReq"
    and "nlohmann_parse_json (lb_json L) (text_chat_msg_from_json (lb_json L)) (node_body msg) = Some req"
    and "tcm_fromuid req = cs_uid (session p i)" "tcm_fromuid req \<noteq> tcm_touid req"
    and "get_participant (tcm_touid req) (pr_server p) = Some j"
    and "node_of_json L (wire_id NotifyTextChatMsg) (text_chat_msg_to_json req) = Inr n"
    and "message_response L (wire_id TextChatMsgRsp) = Inr reply" "\<not> cm_close_after_send reply"
  shows "\<exists>q. (session_step L)\<^sup>*\<^sup>* p q \<and> pr_read q i = pr_read p i @ [msg] \<and>
    pr_sent q j = pr_sent p j @ [channel_of n] \<and> pr_sent q i = pr_sent p i @ [reply]"
proof -
  let ?s = "pr_server p"
  let ?t = "deliver j (channel_of n) ?s"
  have "stateless everybody_here" by (simp add: stateless_def everybody_here_def)
  note run = run_is_steps [OF this run_local_chat [OF assms(1) this assms(8) _ assms(9-15)], of L i msg]
  have p: "i \<in> pr_started p" "j \<in> pr_started p" "cs_open (session p i)" "cs_open (session p j)"
    "cs_writer (session p i) = WaitReceive" "cs_writer (session p j) = WaitReceive"
    "cs_channel (session p i) = []" "cs_channel (session p j) = []"
    using assms(3,4) by (simp_all add: ready_def)
  obtain q where q: "(session_step L)\<^sup>*\<^sup>* p (proceed i msg (settle (handle_message L i msg) ?s) q)"
    "pr_sent q = pr_sent p" "pr_started q = pr_started p" "pr_read q = (pr_read p)(i := pr_read p i @ [msg])"
    using frame_is_read [OF assms(2,6) p(3) assms(7)] free_steps by blast
  obtain g where g: "(session_step L)\<^sup>*\<^sup>* (proceed i msg (settle (handle_message L i msg) ?s) q) (replied i reply ?t g q)"
    using run [of q] by (auto simp: everybody_here_def)
  let ?p2 = "replied i reply ?t g q"
  have p2: "pr_blocked ?p2 = None" "pr_started ?p2 = pr_started p" "pr_sent ?p2 = pr_sent p" "pr_read ?p2 i = pr_read p i @ [msg]"
    by (simp_all add: replied_def set_reader_def set_server_def q)
  have c: "session ?p2 i = (session p i)\<lparr>cs_channel := [reply]\<rparr>" "session ?p2 j = (session p j)\<lparr>cs_channel := [channel_of n]\<rparr>"
    using assms(5) p by (simp_all add: replied_def set_reader_def set_server_def deliver_def try_send_def channel_room_def)
  obtain r where r: "(session_step L)\<^sup>*\<^sup>* ?p2 r" "pr_sent r = (pr_sent p)(j := pr_sent p j @ [channel_of n])"
    "srv_sessions (pr_server r) = (srv_sessions (pr_server ?p2))(j := (session ?p2 j)\<lparr>cs_channel := []\<rparr>)"
    "pr_blocked r = None" "pr_started r = pr_started p" "pr_read r = pr_read ?p2"
    using waiting_is_written [OF p2(1), of j "channel_of n" "[]" L] c p p2(2,3) free_steps [of L ?p2] by (auto simp: channel_of_def)
  then have "session r i = (session p i)\<lparr>cs_channel := [reply]\<rparr>" using c assms(5) by simp
  then obtain u where u: "(session_step L)\<^sup>*\<^sup>* r u" "pr_sent u = (pr_sent r)(i := pr_sent r i @ [reply])" "pr_read u = pr_read r"
    using waiting_is_written [OF r(4), of i reply "[]" L] p r(5) assms(16) free_steps [of L r] by auto
  have "(session_step L)\<^sup>*\<^sup>* p u"
    using q(1) g r(1) u(1) by (meson rtranclp_trans)
  then show ?thesis
    using u(2,3) r(2,6) p2(4) assms(5) by (intro exI [of _ u]) simp
qed

text \<open>The two ends: the line that is typed becomes the frame that is read, and the notification is printed.\<close>

abbreviation chat_frame :: "string \<Rightarrow> msg_node" where
  "chat_frame body \<equiv> frame_node (wire_id TextChatMsgReq) body"

lemma typed_request:
  assumes "platform_ok P" "platform_ok P'" "length body \<le> MAX_LENGTH" "CHR 0x00 \<notin> set body"
  shows "client_loop P True [dec_nat 1017 @ CHR ''|'' # body] [(True, True)] = [wire (chat_frame body)]"
    "read_frame P' (wire (chat_frame body)) = Frame (chat_frame body) []"
    "mn_id (chat_frame body) = wire_id TextChatMsgReq" "node_body (chat_frame body) = body"
  using typed_line_is_frame [OF assms(1) _ assms(3), of 1017] node_body_frame [OF assms(4)]
    read_frame_wire [OF assms(2,3), of "wire_id TextChatMsgReq" "[]"]
  by (simp_all add: wire_id_def frame_node_def)

lemma notification_is_printed:
  assumes "libs_ok L" "platform_ok P'" "dump (lb_json L) (text_chat_msg_to_json req) = Some b" "length b \<le> MAX_LENGTH"
  shows "\<exists>n. node_of_json L (wire_id NotifyTextChatMsg) (text_chat_msg_to_json req) = Inr n \<and>
    recv_and_print P' (wire (cm_msg (channel_of n))) = Some ((wire_id NotifyTextChatMsg, node_body n), []) \<and>
    nlohmann_parse_json (lb_json L) (text_chat_msg_from_json (lb_json L)) (node_body n) = Some req"
proof -
  obtain n where n: "node_of_json L (wire_id NotifyTextChatMsg) (text_chat_msg_to_json req) = Inr n"
    "carries L \<lparr>cm_msg = n, cm_close_after_send = False\<rparr> (wire_id NotifyTextChatMsg) (text_chat_msg_to_json req)"
    using node_of_json_carries [OF assms(1) _ assms(3,4)] by auto
  then obtain b' where "n = frame_node (wire_id NotifyTextChatMsg) b'" "length b' \<le> MAX_LENGTH" "node_body n = b'"
    by (auto simp: carries_def)
  then have "recv_and_print P' (wire (cm_msg (channel_of n))) = Some ((wire_id NotifyTextChatMsg, node_body n), [])"
    using recv_frame [OF assms(2), of b' "wire_id NotifyTextChatMsg" "[]"] by (simp add: channel_of_def)
  moreover have "nlohmann_parse_json (lb_json L) (text_chat_msg_from_json (lb_json L)) (node_body n) = Some req"
    using n(2) text_chat_msg_roundtrip [OF libs_okD(1) [OF assms(1)]] by (auto simp: carries_def nlohmann_parse_json_def)
  ultimately show ?thesis using n(1) by blast
qed

lemma success_reply:
  assumes "libs_ok L"
  shows "\<exists>reply. message_response L (wire_id TextChatMsgRsp) = Inr reply \<and>
    carries L reply (wire_id TextChatMsgRsp) (error_json L Success JNull) \<and> \<not> cm_close_after_send reply"
  using error_response_carries [OF assms] message_response_eq by metis


definition two_users :: chat_process where
  "two_users = \<lparr>pr_server = \<lparr>srv_name = ''chat1'', srv_participants = [0, 1],
       srv_sessions = (\<lambda>i. if i = 0 then sample_session 1 else sample_session 2)\<rparr>,
     pr_started = {0, 1}, pr_reader = (\<lambda>_. ReadHeader), pr_inbox = (\<lambda>_. []), pr_sent = (\<lambda>_. []), pr_read = (\<lambda>_. []),
     pr_log = (\<lambda>_. {}), pr_blocked = None\<rparr>"

lemma two_users_ready: "ready two_users 0" "ready two_users 1"
  by (simp_all add: ready_def two_users_def sample_session_def set_uid_def mark_authenticated_def fresh_session_def)


end
