(* ===== verification/ServerPair.thy ===== *)
theory ServerPair
  imports SessionProperties
begin

text \<open>
  Two chat servers that are each other's peer (\<^verbatim>\<open>chat_server/grpc_service.hpp\<close>): the blocking stub call of
  one is answered by the notification service of the other, which runs on the thread of that other server's
  sessions.
\<close>

section \<open>Two servers\<close>

text \<open>
  The call of a blocked server is answered when the thread of its peer is free; the stub sets no deadline,
  so it waits as long as the connection holds. A call whose notification cannot be dumped gets no answer.
\<close>

definition answered ::
    "libs \<Rightarrow> chat_process \<Rightarrow> chat_process \<Rightarrow> chat_process \<Rightarrow> chat_process \<Rightarrow> bool" where
  "answered L p q p' q' \<longleftrightarrow> (\<exists>i msg c k rsp s.
     pr_blocked p = Some i \<and> pr_reader p i = Handling msg (RpcC c k) \<and> pr_blocked q = None \<and>
     chat_service L c (pr_server q) = (Some rsp, s) \<and>
     p' = proceed i msg (settle (k rsp) (pr_server p)) p \<and> q' = set_server s q)"

inductive pair_step ::
    "libs \<Rightarrow> chat_process \<times> chat_process \<Rightarrow> chat_process \<times> chat_process \<Rightarrow> bool" for L where
  left: "pr_blocked p = None \<Longrightarrow> session_step L p p' \<Longrightarrow> pair_step L (p, q) (p', q)"
| right: "pr_blocked q = None \<Longrightarrow> session_step L q q' \<Longrightarrow> pair_step L (p, q) (p, q')"
| left_arrive: "i \<in> pr_started p \<Longrightarrow>
    pair_step L (p, q) (p\<lparr>pr_inbox := (pr_inbox p)(i := pr_inbox p i @ bytes)\<rparr>, q)"
| right_arrive: "i \<in> pr_started q \<Longrightarrow>
    pair_step L (p, q) (p, q\<lparr>pr_inbox := (pr_inbox q)(i := pr_inbox q i @ bytes)\<rparr>)"
| left_call: "answered L p q p' q' \<Longrightarrow> pair_step L (p, q) (p', q')"
| right_call: "answered L q p q' p' \<Longrightarrow> pair_step L (p, q) (p', q')"

inductive_cases pair_stepE: "pair_step L (p, q) r"

text \<open>Every step of the pair is made of steps of the two servers: what holds of their reachable states, holds here.\<close>

lemma answered_reachable:
  "answered L p q p' q' \<Longrightarrow> reachable L p \<Longrightarrow> reachable L q \<Longrightarrow> reachable L p' \<and> reachable L q'"
proof -
  assume a: "answered L p q p' q'" and r: "reachable L p" "reachable L q"
  obtain i msg c k rsp s where h: "pr_blocked p = Some i" "pr_reader p i = Handling msg (RpcC c k)"
    "pr_blocked q = None" "chat_service L c (pr_server q) = (Some rsp, s)"
    "p' = proceed i msg (settle (k rsp) (pr_server p)) p" "q' = set_server s q"
    using a unfolding answered_def by (elim exE conjE)
  have "reachable L p'" unfolding h(5) by (rule reach_step [OF r(1) rpc_reply [OF h(1,2)]])
  moreover have "reachable L q'"
    using reach_step [OF r(2) notify [OF h(3), of L c]] h(4,6) by simp
  ultimately show ?thesis by simp
qed

lemma pair_step_reachable:
  "pair_step L a b \<Longrightarrow> reachable L (fst a) \<and> reachable L (snd a) \<Longrightarrow> reachable L (fst b) \<and> reachable L (snd b)"
proof (induction rule: pair_step.induct)
  case (left p p' q) then show ?case using reach_step [OF _ left(2)] by simp
next
  case (right q q' p) then show ?case using reach_step [OF _ right(2)] by simp
next
  case (left_arrive i p q bytes) then show ?case using reach_step [OF _ arrive [OF left_arrive(1)]] by simp
next
  case (right_arrive i q p bytes) then show ?case using reach_step [OF _ arrive [OF right_arrive(1)]] by simp
next
  case (left_call p q p' q') then show ?case using answered_reachable [OF left_call(1)] by simp
next
  case (right_call q p q' p') then show ?case using answered_reachable [OF right_call(1)] by simp
qed

section \<open>Waiting for each other\<close>

text \<open>What a blocked server and its sessions keep.\<close>

definition stuck_as :: "chat_process \<Rightarrow> chat_process \<Rightarrow> bool" where
  "stuck_as p p' \<longleftrightarrow> pr_blocked p' = pr_blocked p \<and> pr_server p' = pr_server p \<and>
     pr_sent p' = pr_sent p \<and> pr_reader p' = pr_reader p"

lemma stuck_refl [simp]: "stuck_as p p" "stuck_as p (p\<lparr>pr_inbox := b\<rparr>)"
  by (simp_all add: stuck_as_def)

lemma stuck_trans: "stuck_as p q \<Longrightarrow> stuck_as q r \<Longrightarrow> stuck_as p r"
  by (simp add: stuck_as_def)

lemma stuck_step:
  assumes "pair_step L (p, q) (p', q')" "pr_blocked p \<noteq> None" "pr_blocked q \<noteq> None"
  shows "stuck_as p p' \<and> stuck_as q q'"
  using assms by (auto elim!: pair_stepE simp: answered_def)

lemma stuck_steps:
  assumes "(pair_step L)\<^sup>*\<^sup>* (p, q) r" "pr_blocked p \<noteq> None" "pr_blocked q \<noteq> None"
  shows "stuck_as p (fst r) \<and> stuck_as q (snd r)"
  using assms(1)
proof induction
  case (step r t)
  then have "pr_blocked (fst r) \<noteq> None" "pr_blocked (snd r) \<noteq> None"
    using assms(2,3) by (auto simp: stuck_as_def)
  with step stuck_step [of L "fst r" "snd r" "fst t" "snd t"] show ?case
    using stuck_trans by (metis prod.collapse)
qed simp

text \<open>A server whose user 1 is logged in and writes to user 2, whom Redis places on another server.\<close>

lemma chat_body_fits: "length (print_json (text_chat_msg_to_json hello_msg)) \<le> MAX_LENGTH"
  using length_print_json [of "text_chat_msg_to_json hello_msg"]
  by (simp add: MAX_LENGTH_def)
    (simp add: hello_msg_def text_chat_msg_to_json_def text_chat_data_to_json_def json_set.simps of_i64_def)

lemma text_chat_calls:
  assumes "cs_authenticated (srv_sessions s i)" "cs_uid (srv_sessions s i) = 1" "srv_name s \<noteq> ''chat2''"
  shows "\<exists>q k c k'. settle (handle_message sample_libs i (sample_msg TextChatMsgReq (text_chat_msg_to_json hello_msg))) s =
      (s, RedisC q k) \<and> settle (k (R_Value (R_Str ''chat2''))) s = (s, RpcC c k')"
  using assms cast_sample [of TextChatMsgReq]
  by (simp add: handle_message_def handlers_init_def smap_simps Let_def text_chat_msg_def parse_text_chat
      get_user_login_server_def redis_get_def client_notify_text_chat_msg_def)
    (simp add: hello_msg_def)

lemma blocked_reachable: "\<exists>p. reachable sample_libs p \<and> pr_blocked p = Some 0"
proof -
  let ?msg = "frame_node (wire_id TextChatMsgReq) (print_json (text_chat_msg_to_json hello_msg))"
  obtain p m where p: "reachable sample_libs p" "pr_server p = deliver 0 m (become 0 1 (pr_server (accepted 0)))"
    "pr_reader p 0 = ReadHeader" "pr_blocked p = None" "pr_inbox p 0 = []"
    using logged_in_reachable by blast
  have s: "cs_authenticated (session p 0)" "cs_uid (session p 0) = 1" "cs_open (session p 0)"
    by (simp_all add: p(2) deliver_def become_def)
  have name: "srv_name (pr_server p) \<noteq> ''chat2''"
    by (simp add: p(2) deliver_def become_def accepted_def start_def set_reader_def set_server_def
        empty_process_def join_def)
  obtain q k c k' where c: "settle (handle_message sample_libs 0 ?msg) (pr_server p) = (pr_server p, RedisC q k)"
      "settle (k (R_Value (R_Str ''chat2''))) (pr_server p) = (pr_server p, RpcC c k')"
    using text_chat_calls [OF s(1,2) name] unfolding sample_msg_def by blast
  obtain p' where p': "reachable sample_libs (proceed 0 ?msg (pr_server p, RedisC q k) p')" (is "reachable _ ?q")
    using frame_starts_handler [OF libs_okD(3) [OF sample_libs_ok] p(1,4,3) s(3) p(5) chat_body_fits,
        of "wire_id TextChatMsgReq"] c(1) by metis
  have q: "pr_blocked ?q = None" "pr_reader ?q 0 = Handling ?msg (RedisC q k)" "pr_server ?q = pr_server p"
    by (simp_all add: proceed_def set_reader_def set_server_def)
  from reach_step [OF p' redis_reply [OF q(1,2), of _ "R_Value (R_Str ''chat2'')"]] show ?thesis
    unfolding q(3) c(2) by (intro exI conjI) (assumption, simp add: proceed_def set_reader_def set_server_def)
qed

section \<open>Properties\<close>



end
