(* ===== verification/SessionProgress.thy ===== *)
theory SessionProgress
  imports WireSafety ServerPair
begin

text \<open>
  What a session can count on. Every request is answered: a handler in progress never ends in an exception, it
  waits for exactly one call, and whatever its calls are answered, the process can go on to the reply. And no session
  stays anonymous: the login deadline is pending as long as it has not logged in.
\<close>

section \<open>Coroutines that do not throw\<close>

primrec no_throw :: "('s, 'a) cor \<Rightarrow> bool" where
  "no_throw (Done x) = True"
| "no_throw (Throw e) = False"
| "no_throw (RedisC q k) = (\<forall>r. no_throw (k r))"
| "no_throw (SqlC q k) = (\<forall>r. no_throw (k r))"
| "no_throw (RpcC q k) = (\<forall>r. no_throw (k r))"
| "no_throw (UuidC k) = (\<forall>u. no_throw (k u))"
| "no_throw (Get k) = (\<forall>s. no_throw (k s))"
| "no_throw (Upd g k) = (\<forall>s. no_throw (k s))"

lemma no_throw_catch: "(\<And>e. no_throw (h e)) \<Longrightarrow> no_throw (catch m h)"
  by (induction m) auto

lemma no_throw_settle: "no_throw c \<Longrightarrow> settle c s = (s', c') \<Longrightarrow> no_throw c'"
  by (induction c arbitrary: s) auto

lemma no_throw_run: "no_throw c \<Longrightarrow> \<exists>x t. run env c s = (Inr x, t)"
  by (induction c arbitrary: s) (auto split: prod.split)

lemma returns_run: "returns Q c \<Longrightarrow> run env c s = (Inr x, t) \<Longrightarrow> Q x"
  by (induction c arbitrary: s) (auto split: prod.splits)

lemma no_throw_error: "libs_ok L \<Longrightarrow> no_throw (lift (error_response L i e))"
  using error_response_carries [of L i e] by auto

lemma no_throw_error_and_close: "libs_ok L \<Longrightarrow> no_throw (lift (error_response_and_close L i e))"
  using error_and_close_carries [of L i e] by auto

lemma handle_message_no_throw: "libs_ok L \<Longrightarrow> no_throw (handle_message L i msg)"
  unfolding handle_message_def Let_def
  by (auto intro!: no_throw_catch no_throw_error no_throw_error_and_close split: option.split exn.split)

section \<open>Handlers in progress\<close>

text \<open>A coroutine that waits for an answer; the calls to the peer are the ones that block.\<close>

fun waits :: "('s, 'a) cor \<Rightarrow> bool" where
  "waits (RedisC q k) = True"
| "waits (SqlC q k) = True"
| "waits (RpcC q k) = True"
| "waits (UuidC k) = True"
| "waits c = False"

fun waits_for_peer :: "('s, 'a) cor \<Rightarrow> bool" where
  "waits_for_peer (RpcC q k) = True"
| "waits_for_peer c = False"

lemma settle_waits: "settle c s = (s', c') \<Longrightarrow> waits c' \<or> (\<exists>x. c' = Done x) \<or> (\<exists>e. c' = Throw e)"
  by (induction c arbitrary: s) auto

lemma settle_settled: "waits c \<Longrightarrow> settle c s = (s, c)"
  by (cases c) auto

definition in_progress :: "nat \<Rightarrow> nat option \<Rightarrow> reader_state \<Rightarrow> bool" where
  "in_progress i b r \<longleftrightarrow> (\<forall>msg c. r = Handling msg c \<longrightarrow>
     no_throw c \<and> waits c \<and> (waits_for_peer c \<longleftrightarrow> b = Some i))"

definition progress_inv :: "chat_process \<Rightarrow> bool" where
  "progress_inv p \<longleftrightarrow> (\<forall>i. in_progress i (pr_blocked p) (pr_reader p i))"

lemma in_progress_simps [simp]: "in_progress i b ReadHeader" "in_progress i b (ReadBody n)" "in_progress i b ReaderEnded"
  "in_progress i b (Handling msg c) \<longleftrightarrow> no_throw c \<and> waits c \<and> (waits_for_peer c \<longleftrightarrow> b = Some i)"
  by (simp_all add: in_progress_def)

lemma in_progress_unblocked: "in_progress i None r \<Longrightarrow> j \<noteq> i \<Longrightarrow> in_progress i (Some j) r"
  by (auto simp: in_progress_def)

lemma in_progress_free: "in_progress i (Some j) r \<Longrightarrow> j \<noteq> i \<Longrightarrow> in_progress i None r"
  by (auto simp: in_progress_def)

text \<open>The slice of handler \<open>i\<close>, when no other session blocks the thread.\<close>

lemma proceed_progress:
  assumes "progress_inv p" "pr_blocked p = None \<or> pr_blocked p = Some i" "no_throw c"
  shows "progress_inv (proceed i msg (settle c s) p)"
proof -
  obtain s' c' where r: "settle c s = (s', c')" by force
  have c': "no_throw c'" "waits c' \<or> (\<exists>x. c' = Done x) \<or> (\<exists>e. c' = Throw e)"
    using no_throw_settle [OF assms(3) r] settle_waits [OF r] by simp_all
  have "in_progress j None (pr_reader p j)" "in_progress j (Some i) (pr_reader p j)" if "j \<noteq> i" for j
    using assms(1,2) that unfolding progress_inv_def
    by (metis in_progress_free in_progress_unblocked)+
  with c' show ?thesis
    by (cases c') (auto simp: r proceed_def progress_inv_def process_defs)
qed

lemma progress_reader:
  "progress_inv p \<Longrightarrow> (\<forall>msg c. r \<noteq> Handling msg c) \<Longrightarrow> progress_inv (set_reader i r p)"
  by (auto simp: progress_inv_def in_progress_def set_reader_def)

lemma progress_same [simp]:
  "progress_inv (set_server s p) = progress_inv p" "progress_inv (with_session i f p) = progress_inv p"
  "progress_inv (p\<lparr>pr_inbox := b\<rparr>) = progress_inv p" "progress_inv (p\<lparr>pr_sent := w\<rparr>) = progress_inv p"
  "progress_inv (p\<lparr>pr_read := R\<rparr>) = progress_inv p" "progress_inv (p\<lparr>pr_log := g\<rparr>) = progress_inv p"
  "progress_inv (p\<lparr>pr_inbox := b, pr_read := R\<rparr>) = progress_inv p"
  by (simp_all add: progress_inv_def process_defs)

lemma progress_handling:
  "progress_inv p \<Longrightarrow> pr_reader p i = Handling msg c \<Longrightarrow> no_throw c \<and> waits c \<and> (waits_for_peer c \<longleftrightarrow> pr_blocked p = Some i)"
  unfolding progress_inv_def by (metis in_progress_simps(4))

lemma step_progress:
  assumes "libs_ok L" "progress_inv p" "session_step L p q"
  shows "progress_inv q"
  using assms(3)
proof cases
  case (accept i memory)
  then show ?thesis
    using assms(2) by (simp add: start_def progress_inv_def process_defs)
next
  case (read_head i)
  then show ?thesis
    using assms(2) by (auto simp: reader_head_def Let_def intro!: progress_reader split: prod.split)
next
  case (read_body i n)
  then show ?thesis
    using assms(1,2) by (auto simp: reader_body_def Let_def intro!: proceed_progress handle_message_no_throw)
next
  case (read_error i n)
  then show ?thesis using assms(2) by (auto simp: reader_failed_def intro!: progress_reader)
next
  case (redis_reply i msg c k r)
  then show ?thesis
    using progress_handling [OF assms(2) redis_reply(3)] assms(2) by (simp add: proceed_progress)
next
  case (sql_reply i msg st k rs)
  then show ?thesis
    using progress_handling [OF assms(2) sql_reply(3)] assms(2) by (simp add: proceed_progress)
next
  case (rpc_reply i msg c k rr)
  then show ?thesis
    using progress_handling [OF assms(2) rpc_reply(3)] assms(2) by (simp add: proceed_progress)
next
  case (uuid_reply i msg k u)
  then show ?thesis
    using progress_handling [OF assms(2) uuid_reply(3)] assms(2) by (simp add: proceed_progress)
qed (use assms(2) in \<open>simp_all add: writer_written_def writer_failed_def check_login_deadline_def Let_def\<close>)

lemma reachable_progress:
  assumes "libs_ok L"
  shows "reachable L p \<Longrightarrow> progress_inv p"
proof (induction rule: reachable.induct)
  case (reach_init p)
  then show ?case by (simp add: initial_def progress_inv_def)
next
  case (reach_step p q)
  then show ?case using step_progress [OF assms] by blast
qed

text \<open>A process is where its handler has left it.\<close>

lemma proceed_waiting:
  assumes "waits c" "pr_reader p i = Handling msg c" "waits_for_peer c \<longleftrightarrow> pr_blocked p = Some i"
    and "pr_blocked p = None \<or> pr_blocked p = Some i"
  shows "proceed i msg (settle c (pr_server p)) p = p"
  using assms by (cases c) (auto simp: proceed_def process_defs fun_upd_idem)

section \<open>The login deadline\<close>

text \<open>An open session is logged in or its deadline is pending.\<close>

definition watched :: "'w server \<Rightarrow> bool" where
  "watched s \<longleftrightarrow> (\<forall>i. cs_open (srv_sessions s i) \<longrightarrow> cs_authenticated (srv_sessions s i) \<or> cs_deadline (srv_sessions s i))"

lemma watched_deliver [simp]: "watched (deliver i m s) = watched s"
  by (auto simp: watched_def deliver_def)

lemma watched_stop: "watched s \<Longrightarrow> watched (stop i s)"
  by (simp add: watched_def)

lemma watched_start: "watched s \<Longrightarrow> watched (join i (update_session i (\<lambda>_. fresh_session memory) s))"
  by (auto simp: watched_def join_def fresh_session_def)

lemma watched_handler: "handler_step L i msg G s t \<Longrightarrow> watched s \<Longrightarrow> watched t"
  by (auto simp: handler_step_def notified_def) (auto simp: watched_def become_def set_uid_def mark_authenticated_def)

lemma watched_service: "watched s \<Longrightarrow> watched (snd (chat_service L q s))"
  using chat_service_step [of L q s] by (cases "chat_service L q s") (auto simp: notified_def)

lemma watched_with:
  assumes "watched (pr_server p)"
    and "cs_open (f (session p i)) \<Longrightarrow> cs_open (session p i)"
    and "cs_authenticated (session p i) \<or> cs_deadline (session p i) \<Longrightarrow>
      cs_authenticated (f (session p i)) \<or> cs_deadline (f (session p i))"
  shows "watched (pr_server (with_session i f p))"
  using assms by (auto simp: watched_def with_session_def set_server_def)

lemma watched_proceed:
  assumes "watched (pr_server p)" "guar (handler_step L i msg) G c"
  shows "watched (pr_server (proceed i msg (settle c (pr_server p)) q))"
proof -
  obtain s c' where r: "settle c (pr_server p) = (s, c')" by force
  have "watched s"
    using settle_guar [OF assms(2) r, where P = watched] watched_handler assms(1) by blast
  then show ?thesis
    by (cases c') (simp_all add: r proceed_def process_defs watched_stop)
qed

lemma handler_guar:
  "process_inv L p \<Longrightarrow> pr_reader p i = Handling msg c \<Longrightarrow> guar (handler_step L i msg) (pr_log p i) c"
  unfolding process_inv_def reader_ok_def by blast

lemma step_watched:
  assumes "process_inv L p" "watched (pr_server p)" "session_step L p q"
  shows "watched (pr_server q)"
  using assms(3)
proof cases
  case (accept i memory)
  then show ?thesis using watched_start [OF assms(2)] by (simp add: start_def process_defs)
next
  case (arrive i bytes)
  then show ?thesis using assms(2) by simp
next
  case (read_head i)
  then show ?thesis
    using assms(2) watched_stop [OF assms(2), of i] by (auto simp: reader_head_def Let_def process_defs split: prod.split)
next
  case (read_body i n)
  then show ?thesis
    using watched_proceed [OF assms(2) guar_handle_message] by (simp add: reader_body_def Let_def)
next
  case (read_error i n)
  then show ?thesis using watched_stop [OF assms(2), of i] by (simp add: reader_failed_def process_defs)
next
  case (redis_reply i msg c k r)
  then have "guar (handler_step L i msg) (insert (c, r) (pr_log p i)) (k r)"
    using handler_guar [OF assms(1) redis_reply(3)] by simp
  from watched_proceed [OF assms(2) this] show ?thesis using redis_reply(1) by simp
next
  case (sql_reply i msg st k rs)
  then have "guar (handler_step L i msg) (pr_log p i) (k rs)"
    using handler_guar [OF assms(1) sql_reply(3)] by simp
  from watched_proceed [OF assms(2) this] show ?thesis using sql_reply(1) by simp
next
  case (rpc_reply i msg c k rr)
  then have "guar (handler_step L i msg) (pr_log p i) (k rr)"
    using handler_guar [OF assms(1) rpc_reply(3)] by simp
  from watched_proceed [OF assms(2) this] show ?thesis using rpc_reply(1) by simp
next
  case (uuid_reply i msg k u)
  then have "guar (handler_step L i msg) (pr_log p i) (k u)"
    using handler_guar [OF assms(1) uuid_reply(3)] by simp
  from watched_proceed [OF assms(2) this] show ?thesis using uuid_reply(1) by simp
next
  case (write_take i out c')
  then show ?thesis
    using watched_with [OF assms(2), of "\<lambda>_. c'" i] by (auto simp: channel_receive_def split: list.splits)
next
  case (write_done i out)
  have "watched (pr_server (set_server (stop i (pr_server p)) q))" for q
    using watched_stop [OF assms(2)] by (simp add: set_server_def)
  with write_done(1) assms(2) show ?thesis
    by (auto simp: writer_written_def Let_def set_server_def intro!: watched_with)
next
  case (write_error i out)
  have "watched (pr_server (set_server (stop i (pr_server p)) p))"
    using watched_stop [OF assms(2)] by (simp add: set_server_def)
  then show ?thesis using write_error(1) by (auto simp: writer_failed_def intro: watched_with)
next
  case (deadline i)
  then show ?thesis
    using watched_with [OF assms(2), of "\<lambda>c. c\<lparr>cs_deadline := False\<rparr>" i] watched_stop [OF assms(2), of i]
    by (auto simp: check_login_deadline_def set_server_def)
next
  case (notify c)
  then show ?thesis using watched_service [OF assms(2)] by (simp add: set_server_def)
qed

lemma reachable_watched: "reachable L p \<Longrightarrow> watched (pr_server p)"
proof (induction rule: reachable.induct)
  case (reach_init p)
  then show ?case by (simp add: initial_def watched_def)
next
  case (reach_step p q)
  then show ?case using step_watched [OF reachable_inv] by blast
qed

section \<open>Properties\<close>

text \<open>C7: every request that is being handled can be answered: in every reachable state, whatever the services
  answer to the calls of a handler, and if no other session blocks the thread, the process has steps that
  end the handler, deliver the reply it computes to the session, and bring its reader back to the next
  header. The reply is the answer to this request, and no exception gets out of a handler.\<close>

theorem request_can_be_answered:
  assumes "libs_ok L" "reachable L p" "pr_reader p i = Handling msg c" "pr_blocked p = None \<or> pr_blocked p = Some i"
    and "stateless env"
  shows "\<exists>q m t. (session_step L)\<^sup>*\<^sup>* p q \<and> run env c (pr_server p) = (Inr m, t) \<and> reply_to L msg m \<and>
    pr_server q = deliver i m t \<and> pr_reader q i = ReadHeader \<and> pr_blocked q = None \<and>
    pr_sent q = pr_sent p \<and> pr_inbox q = pr_inbox p"
proof -
  have h: "no_throw c" "waits c" "waits_for_peer c \<longleftrightarrow> pr_blocked p = Some i"
    using progress_handling [OF reachable_progress [OF assms(1,2)] assms(3)] by simp_all
  obtain m t where run: "run env c (pr_server p) = (Inr m, t)"
    using no_throw_run [OF h(1)] by blast
  have "returns (reply_to L msg) c"
    using wire_inv_handling [OF reachable_wire [OF assms(2)] assms(3)] by simp
  then have reply: "reply_to L msg m" by (rule returns_run [OF _ run])
  obtain g where "(session_step L)\<^sup>*\<^sup>* (proceed i msg (settle c (pr_server p)) p) (replied i m t g p)"
    using run_is_steps [OF assms(5) run] by blast
  then have "(session_step L)\<^sup>*\<^sup>* p (replied i m t g p)"
    unfolding proceed_waiting [OF h(2) assms(3) h(3) assms(4)] .
  with run reply show ?thesis
    by (intro exI [of _ "replied i m t g p"] exI [of _ m] exI [of _ t])
      (simp add: replied_def set_reader_def set_server_def)
qed

text \<open>Applied to a server that waits for its peer.\<close>

theorem request_can_be_answered_witness:
  "\<exists>p q. reachable sample_libs p \<and> pr_blocked p = Some 0 \<and> (session_step sample_libs)\<^sup>*\<^sup>* p q \<and>
     pr_blocked q = None \<and> pr_reader q 0 = ReadHeader"
proof -
  obtain p where p: "reachable sample_libs p" "pr_blocked p = Some 0"
    using blocked_reachable by blast
  then obtain msg q k where "pr_reader p 0 = Handling msg (RpcC q k)"
    using reachable_inv [OF p(1)] unfolding process_inv_def by blast
  from request_can_be_answered [OF sample_libs_ok p(1) this _ login_env_stateless] p
  show ?thesis by blast
qed

text \<open>C12: nobody stays on a server without logging in: in every reachable state a session that is open and has not logged
  in has its deadline pending, and whenever it passes, and the thread is not blocked in a call to the peer, the
  session is closed and no longer found, and a session that has logged in is left as it is.\<close>

theorem login_deadline_is_enforced:
  assumes "reachable L p" "i \<in> pr_started p" "cs_open (session p i)"
  shows "(if cs_authenticated (session p i)
      then srv_participants (pr_server (check_login_deadline i p)) = srv_participants (pr_server p) \<and>
        session (check_login_deadline i p) i = (session p i)\<lparr>cs_deadline := False\<rparr>
      else cs_deadline (session p i) \<and> (pr_blocked p = None \<longrightarrow> session_step L p (check_login_deadline i p)) \<and>
        \<not> cs_open (session (check_login_deadline i p) i) \<and>
        i \<notin> set (srv_participants (pr_server (check_login_deadline i p))))"
proof (cases "cs_authenticated (session p i)")
  case True
  then show ?thesis by (simp add: check_login_deadline_def with_session_def set_server_def update_session_def)
next
  case False
  have inv: "process_inv L p" by (rule reachable_inv [OF assms(1)])
  then have ok: "server_ok (pr_server p)" by (simp add: process_inv_def server_inv_def)
  have d: "cs_deadline (session p i)"
    using reachable_watched [OF assms(1)] assms(3) False by (auto simp: watched_def)
  with False ok assms(2) show ?thesis
    by (simp add: deadline) (simp add: check_login_deadline_def set_server_def)
qed

theorem login_deadline_is_enforced_witness:
  "session_step sample_libs (accepted 5) (check_login_deadline 0 (accepted 5)) \<and>
   \<not> cs_open (session (check_login_deadline 0 (accepted 5)) 0)"
proof -
  have a: "0 \<in> pr_started (accepted 5)" "cs_open (session (accepted 5) 0)" "\<not> cs_authenticated (session (accepted 5) 0)" "pr_blocked (accepted 5) = None"
    by (simp_all add: accepted_def start_def process_defs empty_process_def join_def fresh_session_def)
  show ?thesis using login_deadline_is_enforced [OF accepted_reachable a(1,2)] a(3,4) by simp
qed

end
