(* ===== verification/CrossServer.thy ===== *)
theory CrossServer
  imports EndToEnd SessionProgress
begin

text \<open>
  A chat message between users on two servers: from the line typed by the sender through its server, the call
  of the peer and the session of the receiver to the line the receiver's client prints.
\<close>

section \<open>Steps of one server are steps of the pair\<close>

lemma left_steps: "(free_step L)\<^sup>*\<^sup>* p p' \<Longrightarrow> (pair_step L)\<^sup>*\<^sup>* (p, q) (p', q)"
  by (induction rule: rtranclp_induct) (auto simp: free_step_def intro: rtranclp.rtrancl_into_rtrancl left)

lemma right_steps: "(free_step L)\<^sup>*\<^sup>* q q' \<Longrightarrow> (pair_step L)\<^sup>*\<^sup>* (p, q) (p, q')"
  by (induction rule: rtranclp_induct) (auto simp: free_step_def intro: rtranclp.rtrancl_into_rtrancl right)

section \<open>The calls of the handler\<close>

definition location_query :: "text_chat_msg \<Rightarrow> redis_cmd" where
  "location_query req = R_GET (UserLoginServerPrefix @ to_string (sint (tcm_touid req)))"

lemma remote_chat_calls:
  assumes "libs_ok L" "cs_authenticated (srv_sessions s i)" "mn_id msg = wire_id TextChatMsgReq"
    and "nlohmann_parse_json (lb_json L) (text_chat_msg_from_json (lb_json L)) (node_body msg) = Some req"
    and "tcm_fromuid req = cs_uid (srv_sessions s i)" "tcm_fromuid req \<noteq> tcm_touid req" "server \<noteq> srv_name s"
    and "message_response L (wire_id TextChatMsgRsp) = Inr reply"
  shows "\<exists>k k'. settle (handle_message L i msg) s = (s, RedisC (location_query req) k) \<and>
    settle (k (R_Value (R_Str server))) s = (s, RpcC (CallNotifyTextChatMsg (pb_of_text_chat req)) k') \<and>
    (\<forall>rsp. tcs_error rsp = 0 \<longrightarrow> settle (k' (RspTextChat rsp)) s = (s, Done reply))"
proof -
  have "cast_message_id (lb_enum L) (ucast (wire_id TextChatMsgReq)) = Some TextChatMsgReq"
    using cast_message_code [OF libs_okD(2) [OF assms(1)], of TextChatMsgReq] by (simp add: wire_id_def)
  then show ?thesis
    using assms(2-8)
    by (simp add: handle_message_def handlers_init_def smap_simps Let_def text_chat_msg_def location_query_def
        get_user_login_server_def redis_get_def client_notify_text_chat_msg_def text_response_of_pb_def)
qed

text \<open>From the bytes of the request to the reply in the sender's channel, with one call of the peer.\<close>

lemma remote_request_is_served:
  assumes "libs_ok L" "pr_blocked p = None" "pr_blocked q = None" "cs_open (session p i)"
    and "pr_reader p i = ReadHeader" "read_frame (lb_platform L) (pr_inbox p i) = Frame msg rest"
    and "cs_authenticated (session p i)" "mn_id msg = wire_id TextChatMsgReq"
    and "nlohmann_parse_json (lb_json L) (text_chat_msg_from_json (lb_json L)) (node_body msg) = Some req"
    and "tcm_fromuid req = cs_uid (session p i)" "tcm_fromuid req \<noteq> tcm_touid req" "server \<noteq> srv_name (pr_server p)"
    and "message_response L (wire_id TextChatMsgRsp) = Inr reply"
    and "chat_service L (CallNotifyTextChatMsg (pb_of_text_chat req)) (pr_server q) = (Some (RspTextChat rsp), t)"
    and "tcs_error rsp = 0"
  shows "\<exists>u. (pair_step L)\<^sup>*\<^sup>* (p, q) (u, set_server t q) \<and> pr_server u = deliver i reply (pr_server p) \<and>
    pr_blocked u = None \<and> pr_started u = pr_started p \<and> pr_sent u = pr_sent p \<and>
    pr_read u = (pr_read p)(i := pr_read p i @ [msg]) \<and> (location_query req, R_Value (R_Str server)) \<in> pr_log u i"
proof -
  let ?s = "pr_server p" and ?r = "R_Value (R_Str server)"
  let ?c = "CallNotifyTextChatMsg (pb_of_text_chat req)"
  obtain k k' where h: "settle (handle_message L i msg) ?s = (?s, RedisC (location_query req) k)"
    "settle (k ?r) ?s = (?s, RpcC ?c k')" "settle (k' (RspTextChat rsp)) ?s = (?s, Done reply)"
    using remote_chat_calls [OF assms(1,7-13)] assms(15) by blast
  obtain a where a: "(free_step L)\<^sup>*\<^sup>* p (proceed i msg (?s, RedisC (location_query req) k) a)"
    "pr_sent a = pr_sent p" "pr_started a = pr_started p" "pr_read a = (pr_read p)(i := pr_read p i @ [msg])"
    using frame_is_read [OF assms(2,5,4,6)] unfolding h(1) by blast
  let ?b = "proceed i msg (?s, RedisC (location_query req) k) a"
  let ?b' = "?b\<lparr>pr_log := (pr_log ?b)(i := insert (location_query req, ?r) (pr_log ?b i))\<rparr>"
  let ?d = "proceed i msg (?s, RpcC ?c k') ?b'"
  let ?u = "proceed i msg (?s, Done reply) ?d"
  have "session_step L ?b (proceed i msg (settle (k ?r) (pr_server ?b)) ?b')"
    by (rule redis_reply) (simp_all add: proceed_call waiting_simps)
  then have "pair_step L (?b, q) (?d, q)"
    using h(2) by (intro left) (simp_all add: proceed_call waiting_simps)
  moreover have "answered L ?d q ?u (set_server t q)"
    unfolding answered_def using assms(3,14) h(3) by (simp add: proceed_call waiting_simps)
  then have "pair_step L (?d, q) (?u, set_server t q)" by (rule left_call)
  ultimately have "(pair_step L)\<^sup>*\<^sup>* (p, q) (?u, set_server t q)"
    using left_steps [OF a(1), of q] by (meson rtranclp.rtrancl_into_rtrancl)
  then show ?thesis
    using a(2-4) by (intro exI [of _ ?u]) (simp add: proceed_def set_reader_def set_server_def)
qed

section \<open>The whole way\<close>

text \<open>C6: a chat message crosses the servers: when the sender is logged in on one server and the receiver on its
  peer, nothing waits in their channels and neither thread is blocked, a request typed into the sender's client is
  read, Redis is asked where the receiver is, the peer is called once, the request is answered with Success, and
  the frame the peer writes is printed by the receiver's client with a text from which exactly the sender,
  the receiver and the texts are read back. The ids must fit the 32 bits of the call.\<close>

theorem message_crosses_servers:
  assumes "libs_ok L" "platform_ok P" "platform_ok P'" "pr_blocked p = None" "pr_blocked q = None" "ready p i" "ready q j"
    and "pr_reader p i = ReadHeader" "pr_inbox p i = []" "cs_authenticated (session p i)"
    and "length body \<le> MAX_LENGTH" "CHR 0x00 \<notin> set body"
    and "nlohmann_parse_json (lb_json L) (text_chat_msg_from_json (lb_json L)) body = Some req"
    and "tcm_fromuid req = cs_uid (session p i)" "tcm_fromuid req \<noteq> tcm_touid req"
    and "fits_i32 (tcm_fromuid req)" "fits_i32 (tcm_touid req)" "\<forall>d\<in>set (tcm_text_array req). fits_i32 (tcd_msgid d)"
    and "server \<noteq> srv_name (pr_server p)" "get_participant (tcm_touid req) (pr_server q) = Some j"
    and "dump (lb_json L) (text_chat_msg_to_json req) = Some b" "length b \<le> MAX_LENGTH"
  shows "\<exists>bytes p' q' out reply text.
    client_loop P True [dec_nat 1017 @ CHR ''|'' # body] [(True, True)] = [bytes] \<and>
    pair_step L (p, q) (p\<lparr>pr_inbox := (pr_inbox p)(i := bytes)\<rparr>, q) \<and>
    (pair_step L)\<^sup>*\<^sup>* (p\<lparr>pr_inbox := (pr_inbox p)(i := bytes)\<rparr>, q) (p', q') \<and>
    pr_read p' i = pr_read p i @ [frame_node (wire_id TextChatMsgReq) body] \<and>
    (location_query req, R_Value (R_Str server)) \<in> pr_log p' i \<and>
    pr_sent p' i = pr_sent p i @ [reply] \<and> carries L reply (wire_id TextChatMsgRsp) (error_json L Success JNull) \<and>
    pr_sent q' j = pr_sent q j @ [out] \<and>
    recv_and_print P' (wire (cm_msg out)) = Some ((wire_id NotifyTextChatMsg, text), []) \<and>
    nlohmann_parse_json (lb_json L) (text_chat_msg_from_json (lb_json L)) text = Some req"
proof -
  let ?p = "p\<lparr>pr_inbox := (pr_inbox p)(i := wire (chat_frame body))\<rparr>"
  note typed = typed_request [OF assms(2) libs_okD(3) [OF assms(1)] assms(11,12)]
  obtain n where n: "node_of_json L (wire_id NotifyTextChatMsg) (text_chat_msg_to_json req) = Inr n"
    "recv_and_print P' (wire (cm_msg (channel_of n))) = Some ((wire_id NotifyTextChatMsg, node_body n), [])"
    "nlohmann_parse_json (lb_json L) (text_chat_msg_from_json (lb_json L)) (node_body n) = Some req"
    using notification_is_printed [OF assms(1,3,21,22)] by blast
  obtain reply where reply: "message_response L (wire_id TextChatMsgRsp) = Inr reply"
    "carries L reply (wire_id TextChatMsgRsp) (error_json L Success JNull)" "\<not> cm_close_after_send reply"
    using success_reply [OF assms(1)] by blast
  obtain rsp where rsp: "chat_service L (CallNotifyTextChatMsg (pb_of_text_chat req)) (pr_server q) =
      (Some (RspTextChat rsp), deliver j (channel_of n) (pr_server q))" "tcs_error rsp = 0"
    using peer_delivers [OF assms(16-18,20) n(1)] by blast
  let ?q = "set_server (deliver j (channel_of n) (pr_server q)) q"
  have p: "i \<in> pr_started p" "cs_open (session p i)" "cs_writer (session p i) = WaitReceive" "cs_channel (session p i) = []"
    and q: "j \<in> pr_started q" "cs_open (session q j)" "cs_writer (session q j) = WaitReceive" "cs_channel (session q j) = []"
    using assms(6,7) by (simp_all add: ready_def)
  obtain u where u: "(pair_step L)\<^sup>*\<^sup>* (?p, q) (u, ?q)" "pr_server u = deliver i reply (pr_server ?p)" "pr_blocked u = None"
    "pr_started u = pr_started ?p" "pr_sent u = pr_sent ?p" "pr_read u = (pr_read ?p)(i := pr_read ?p i @ [chat_frame body])"
    "(location_query req, R_Value (R_Str server)) \<in> pr_log u i"
    using remote_request_is_served [of L ?p q i "chat_frame body" "[]" req server reply rsp] assms(1,4,5,8,10,13-15,19)
      p(2) reply(1) rsp typed(2-4) by auto
  have c: "session u i = (session p i)\<lparr>cs_channel := [reply]\<rparr>" "session ?q j = (session q j)\<lparr>cs_channel := [channel_of n]\<rparr>"
    using p q by (simp_all add: u(2) set_server_def deliver_def try_send_def channel_room_def)
  obtain p' where p': "(free_step L)\<^sup>*\<^sup>* u p'" "pr_sent p' = (pr_sent u)(i := pr_sent u i @ [reply])" "pr_read p' = pr_read u"
    "pr_log p' = pr_log u"
    using waiting_is_written [OF u(3), of i reply "[]" L] c(1) p u(4) reply(3) by auto
  obtain q' where q': "(free_step L)\<^sup>*\<^sup>* ?q q'" "pr_sent q' = (pr_sent ?q)(j := pr_sent ?q j @ [channel_of n])"
    using waiting_is_written [of ?q j "channel_of n" "[]" L] c(2) q assms(5) by (auto simp: channel_of_def set_server_def)
  have "pair_step L (p, q) (?p, q)"
    using left_arrive [of i p L q "wire (chat_frame body)"] p(1) assms(9) by simp
  moreover have "(pair_step L)\<^sup>*\<^sup>* (?p, q) (p', q')"
    using u(1) left_steps [OF p'(1)] right_steps [OF q'(1)] by (meson rtranclp_trans)
  ultimately show ?thesis
    using u(5-7) p'(2-4) q'(2) n(2,3) reply(2) typed(1)
    by (intro exI [of _ "wire (chat_frame body)"] exI [of _ p'] exI [of _ q'] exI [of _ "channel_of n"] exI [of _ reply]
        exI [of _ "node_body n"]) (simp add: set_server_def)
qed

definition one_user :: "string \<Rightarrow> i64 \<Rightarrow> chat_process" where
  "one_user name uid = \<lparr>pr_server = \<lparr>srv_name = name, srv_participants = [0], srv_sessions = (\<lambda>_. sample_session uid)\<rparr>,
     pr_started = {0}, pr_reader = (\<lambda>_. ReadHeader), pr_inbox = (\<lambda>_. []), pr_sent = (\<lambda>_. []), pr_read = (\<lambda>_. []),
     pr_log = (\<lambda>_. {}), pr_blocked = None\<rparr>"

lemma one_user_simps:
  "ready (one_user name uid) 0" "pr_blocked (one_user name uid) = None" "pr_reader (one_user name uid) 0 = ReadHeader"
  "pr_inbox (one_user name uid) 0 = []" "cs_authenticated (session (one_user name uid) 0)"
  "cs_uid (session (one_user name uid) 0) = uid" "srv_name (pr_server (one_user name uid)) = name"
  "get_participant uid (pr_server (one_user name uid)) = Some 0" "pr_sent (one_user name uid) = (\<lambda>_. [])"
  by (simp_all add: ready_def one_user_def sample_session_def set_uid_def mark_authenticated_def fresh_session_def
      get_participant_def)

theorem message_crosses_servers_witness:
  "\<exists>bytes p' q' out text. (pair_step sample_libs)\<^sup>*\<^sup>*
      ((one_user ''chat1'' 1)\<lparr>pr_inbox := (pr_inbox (one_user ''chat1'' 1))(0 := bytes)\<rparr>, one_user ''chat2'' 2) (p', q') \<and>
     pr_sent q' 0 = [out] \<and> recv_and_print sample_platform (wire (cm_msg out)) = Some ((1019, text), [])"
proof -
  have parse: "nlohmann_parse_json (lb_json sample_libs) (text_chat_msg_from_json (lb_json sample_libs))
      (print_json (text_chat_msg_to_json hello_msg)) = Some hello_msg"
    using parse_text_chat [of hello_msg] by (simp add: sample_msg_def node_body_frame [OF print_json_no_zero])
  have plat: "platform_ok sample_platform"
    using libs_okD(3) [OF sample_libs_ok] by (simp add: sample_libs_def)
  have hello: "tcm_fromuid hello_msg = cs_uid (session (one_user ''chat1'' 1) 0)" "tcm_fromuid hello_msg \<noteq> tcm_touid hello_msg"
    "fits_i32 (tcm_fromuid hello_msg)" "fits_i32 (tcm_touid hello_msg)" "\<forall>d\<in>set (tcm_text_array hello_msg). fits_i32 (tcd_msgid d)"
    "get_participant (tcm_touid hello_msg) (pr_server (one_user ''chat2'' 2)) = Some 0"
    "''chat2'' \<noteq> srv_name (pr_server (one_user ''chat1'' 1))"
    by (simp_all add: one_user_simps) (simp_all add: hello_msg_def fits_i32_def one_user_simps)
  have dump: "dump (lb_json sample_libs) (text_chat_msg_to_json hello_msg) = Some (print_json (text_chat_msg_to_json hello_msg))"
    by (simp add: sample_json_def)
  note crossing = message_crosses_servers [OF sample_libs_ok plat plat one_user_simps(2,2,1,1,3,4,5) hello_dump print_json_no_zero parse
      hello(1-5,7,6) dump hello_dump]
  obtain bytes p' q' out shown where r: "(pair_step sample_libs)\<^sup>*\<^sup>*
      ((one_user ''chat1'' 1)\<lparr>pr_inbox := (pr_inbox (one_user ''chat1'' 1))(0 := bytes)\<rparr>, one_user ''chat2'' 2) (p', q')"
    "pr_sent q' 0 = pr_sent (one_user ''chat2'' 2) 0 @ [out]"
    "recv_and_print sample_platform (wire (cm_msg out)) = Some ((wire_id NotifyTextChatMsg, shown), [])"
    using crossing by blast
  have "pr_sent q' 0 = [out]" using r(2) by (simp add: one_user_simps)
  moreover have "wire_id NotifyTextChatMsg = 1019" by (simp add: wire_id_def)
  ultimately show ?thesis using r(1,3) by metis
qed

end
