(* ===== verification/Diagnostics.thy ===== *)
theory Diagnostics
  imports Gate
begin

text \<open>
  The helpers of the gate and the chat server around their handlers: the error codes of the gate's own category
  (\<^verbatim>\<open>gate_server/error.hpp\<close>, \<^verbatim>\<open>error.cpp\<close>), the lines written to the error log, the decimal parser of
  \<^verbatim>\<open>gate_server/dispatcher.cpp\<close> and an HTTP response of the chat server.
\<close>

section \<open>Error codes\<close>

text \<open>\<^verbatim>\<open>boost::system::error_code\<close>: a value and a category, of which the name and the messages matter here.\<close>

record error_category =
  cat_name :: string
  cat_message :: "int \<Rightarrow> string"

record sys_error_code =
  ec_value :: int
  ec_category :: error_category

text \<open>The library's \<^verbatim>\<open>failed\<close> of a category that does not override it: every value but zero.\<close>

definition ec_failed :: "sys_error_code \<Rightarrow> bool" where
  "ec_failed ec \<longleftrightarrow> ec_value ec \<noteq> 0"

definition service_category :: error_category where
  "service_category = \<lparr>cat_name = ''service'', cat_message = error_to_string\<rparr>"

definition make_error_code :: "int \<Rightarrow> sys_error_code" where
  "make_error_code v = \<lparr>ec_value = v, ec_category = service_category\<rparr>"

section \<open>The error log\<close>

text \<open>\<^verbatim>\<open>operator<<\<close> of an error code: the category, a colon and the value.\<close>

definition print_error_code :: "sys_error_code \<Rightarrow> string" where
  "print_error_code ec = cat_name (ec_category ec) @ '':'' @ to_string (ec_value ec)"

definition ec_message :: "sys_error_code \<Rightarrow> string" where
  "ec_message ec = cat_message (ec_category ec) (ec_value ec)"

record diagnostics =
  dg_client :: string
  dg_server :: string

definition gate_log_mysql_error :: "sys_error_code \<Rightarrow> diagnostics \<Rightarrow> string" where
  "gate_log_mysql_error ec diag =
     ''MySQL error: '' @ print_error_code ec @ '' '' @ ec_message ec @
     (if dg_client diag \<noteq> [] then '': '' @ dg_client diag else []) @
     (if dg_server diag \<noteq> [] then '': '' @ dg_server diag else []) @ [CHR 0x0A]"

definition chat_log_mysql_error :: "sys_error_code \<Rightarrow> diagnostics \<Rightarrow> string" where
  "chat_log_mysql_error ec diag =
     ''MySQL error: '' @ print_error_code ec @ '' '' @ ec_message ec @
     (if dg_client diag \<noteq> [] then '': '' @ dg_client diag else []) @
     (if dg_server diag \<noteq> [] then '': '' @ dg_server diag else []) @ [CHR 0x0A]"

definition log_error :: "string \<Rightarrow> sys_error_code \<Rightarrow> string" where
  "log_error header ec = header @ '': '' @ print_error_code ec @ '' '' @ ec_message ec @ [CHR 0x0A]"

text \<open>The two servers log alike.\<close>

lemma log_mysql_error_same: "chat_log_mysql_error = gate_log_mysql_error"
  by (simp add: fun_eq_iff chat_log_mysql_error_def gate_log_mysql_error_def)

text \<open>The code for a user that is not found has the value zero: tested as an error, it is none.\<close>

lemma not_found_is_no_error: "ec_failed (make_error_code v) \<longleftrightarrow> v \<noteq> ERR_NOT_FOUND"
  by (simp add: ec_failed_def make_error_code_def ERR_NOT_FOUND_def)

section \<open>The HTTP response of the chat server\<close>

text \<open>\<^verbatim>\<open>nlohmann_json_response\<close> of \<^verbatim>\<open>chat_server/handle_message.cpp\<close>, which no handler calls.\<close>

definition chat_nlohmann_json_response :: "json_lib \<Rightarrow> json \<Rightarrow> ('s, http_response) cor" where
  "chat_nlohmann_json_response J body =
     (case dump J body of
        None \<Rightarrow> Throw StdException
      | Some t \<Rightarrow> Done \<lparr>hr_status = 200, hr_content_type = Some ''application/json'', hr_body = t\<rparr>)"

section \<open>Decimal numbers\<close>

text \<open>
  \<^verbatim>\<open>std::from_chars\<close> in base ten: a minus sign, no plus sign, no white space, then digits; the value, unless there is
  no digit or it does not fit, and the number of characters consumed.
\<close>

definition from_chars :: "string \<Rightarrow> (i64 \<times> nat) option" where
  "from_chars s =
     (let negative = (case s of c # _ \<Rightarrow> c = CHR ''-'' | [] \<Rightarrow> False);
          digits = takeWhile is_digit (if negative then tl s else s);
          value = (if negative then - int (undec digits) else int (undec digits))
      in if digits = [] \<or> value < - (2 ^ 63) \<or> 2 ^ 63 \<le> value then None
         else Some (word_of_int value, (if negative then 1 else 0) + length digits))"

definition parse_id :: "string \<Rightarrow> i64 option" where
  "parse_id s = (case from_chars s of
       None \<Rightarrow> None
     | Some (i, consumed) \<Rightarrow> if consumed \<noteq> length s then None else Some i)"

text \<open>Every id is read back from its decimal text, and nothing that is out of range is accepted.\<close>

lemma takeWhile_dec_nat [simp]: "takeWhile is_digit (dec_nat n) = dec_nat n"
  using dec_nat_digits by (simp add: takeWhile_eq_all_conv)

lemma parse_id_to_string: "parse_id (to_string (sint x)) = Some x"
proof -
  have range: "- (2 ^ 63) \<le> sint x" "sint x < 2 ^ 63"
    using sint_ge [of x] sint_lt [of x] by simp_all
  show ?thesis
  proof (cases "sint x < 0")
    case True
    then show ?thesis
      using range by (simp add: parse_id_def from_chars_def to_string_def Let_def)
  next
    case False
    obtain c s where d: "dec_nat (nat (sint x)) = c # s"
      by (cases "dec_nat (nat (sint x))") auto
    then have "c \<noteq> CHR ''-''" using dec_nat_head by blast
    then show ?thesis
      using False range takeWhile_dec_nat [of "nat (sint x)"] undec_dec_nat [of "nat (sint x)"]
      by (simp add: parse_id_def from_chars_def to_string_def Let_def d del: takeWhile_dec_nat undec_dec_nat)
  qed
qed

lemma parse_id_out_of_range: "2 ^ 63 \<le> n \<Longrightarrow> parse_id (dec_nat n) = None"
proof -
  assume n: "2 ^ 63 \<le> n"
  obtain c s where d: "dec_nat n = c # s" by (cases "dec_nat n") auto
  then have "c \<noteq> CHR ''-''" using dec_nat_head by blast
  then show ?thesis
    using n takeWhile_dec_nat [of n] undec_dec_nat [of n]
    by (simp add: parse_id_def from_chars_def Let_def d del: takeWhile_dec_nat undec_dec_nat)
qed

end
