(* ===== verification/Shutdown.thy ===== *)
theory Shutdown
  imports Main
begin

text \<open>
  How the four servers end: the signal handlers of the \<^verbatim>\<open>main\<close> functions, the gRPC server's \<^verbatim>\<open>Shutdown\<close>, and the
  joins behind \<^verbatim>\<open>io_context::run\<close>. The handler of a signal runs on the thread of the main context, which also
  runs the coroutines that finish the gRPC calls.
\<close>

section \<open>Programs\<close>

datatype program = ChatProgram | StatusProgram | VerifyProgram | GateProgram

datatype signal_action =
    CancelRedis
  | ShutdownGrpc
  | StopPool
  | StopLoop
  | ReleaseGuard
  | StopServer

text \<open>What the handler of SIGINT and SIGTERM does in each program, in its order.\<close>

definition chat_signals :: "signal_action list" where
  "chat_signals = [CancelRedis, ShutdownGrpc, StopPool, StopLoop]"

definition status_signals :: "signal_action list" where
  "status_signals = [ShutdownGrpc, CancelRedis, ReleaseGuard]"

definition verify_signals :: "signal_action list" where
  "verify_signals = [CancelRedis, ShutdownGrpc, StopLoop]"

definition gate_signals :: "signal_action list" where
  "gate_signals = [StopServer, StopLoop]"

lemmas signals_defs [simp] = chat_signals_def status_signals_def verify_signals_def gate_signals_def

fun signal_handler :: "program \<Rightarrow> signal_action list" where
  "signal_handler ChatProgram = chat_signals"
| "signal_handler StatusProgram = status_signals"
| "signal_handler VerifyProgram = verify_signals"
| "signal_handler GateProgram = gate_signals"

text \<open>The threads \<^verbatim>\<open>main\<close> joins after its loop: the one in \<^verbatim>\<open>server->Wait()\<close>, and the pool of the chat server.\<close>

datatype joined = GrpcThread | PoolThreads

definition chat_joins :: "joined list" where
  "chat_joins = [GrpcThread, PoolThreads]"

definition status_joins :: "joined list" where
  "status_joins = [GrpcThread]"

definition verify_joins :: "joined list" where
  "verify_joins = [GrpcThread]"

lemmas joins_defs [simp] = chat_joins_def status_joins_def verify_joins_def

fun joins_of :: "program \<Rightarrow> joined list" where
  "joins_of ChatProgram = chat_joins"
| "joins_of StatusProgram = status_joins"
| "joins_of VerifyProgram = verify_joins"
| "joins_of GateProgram = []"

fun joins_grpc :: "program \<Rightarrow> bool" where
  "joins_grpc g \<longleftrightarrow> GrpcThread \<in> set (joins_of g)"

fun joins_pool :: "program \<Rightarrow> bool" where
  "joins_pool g \<longleftrightarrow> PoolThreads \<in> set (joins_of g)"

section \<open>State\<close>

text \<open>
  Where the main thread is; \<open>InHandler\<close> lists the actions of the signal handler that are left. \<open>rs_calls\<close> counts
  the gRPC calls that were accepted and not finished, \<open>rs_io\<close> the socket operations that are pending on the contexts
  of the gate's pool. \<open>rs_redis\<close> and \<open>rs_guard\<close> keep a loop that is not stopped from returning: the Redis
  connection, and the work guard or the acceptor.
\<close>

datatype main_thread = InLoop | InHandler "signal_action list" | JoinGrpc | JoinPool | Returned int

record run_state =
  rs_main :: main_thread
  rs_signalled :: bool
  rs_accepting :: bool
  rs_down :: bool
  rs_calls :: nat
  rs_io :: nat
  rs_redis :: bool
  rs_guard :: bool
  rs_stopped :: bool
  rs_pool_stopped :: bool

definition serving :: "program \<Rightarrow> run_state" where
  "serving g = \<lparr>rs_main = InLoop, rs_signalled = False, rs_accepting = joins_grpc g, rs_down = False, rs_calls = 0,
     rs_io = 0, rs_redis = True, rs_guard = (g \<noteq> VerifyProgram), rs_stopped = False, rs_pool_stopped = False\<rparr>"

section \<open>Steps\<close>

text \<open>
  \<^verbatim>\<open>Server::Shutdown()\<close> without a deadline refuses new calls and returns when all calls are finished. A call is
  finished by a coroutine on the main context, so only while the main thread is in its loop. \<^verbatim>\<open>Server::stop\<close> of the
  gate joins the threads of the pool, which return when no operation is pending on their contexts; the time limits
  of these operations run on the main context as well, so that only the peer can end them.
\<close>

inductive run_step :: "program \<Rightarrow> run_state \<Rightarrow> run_state \<Rightarrow> bool" for g where
  call_arrives: "rs_accepting s \<Longrightarrow> run_step g s (s\<lparr>rs_calls := Suc (rs_calls s)\<rparr>)"
| call_finishes: "rs_main s = InLoop \<Longrightarrow> \<not> rs_stopped s \<Longrightarrow> rs_calls s = Suc n \<Longrightarrow>
    run_step g s (s\<lparr>rs_calls := n\<rparr>)"
| io_starts: "g = GateProgram \<Longrightarrow> rs_main s = InLoop \<Longrightarrow> \<not> rs_stopped s \<Longrightarrow>
    run_step g s (s\<lparr>rs_io := Suc (rs_io s)\<rparr>)"
| io_completes: "rs_io s = Suc n \<Longrightarrow> run_step g s (s\<lparr>rs_io := n\<rparr>)"
| signal: "rs_main s = InLoop \<Longrightarrow> \<not> rs_signalled s \<Longrightarrow>
    run_step g s (s\<lparr>rs_main := InHandler (signal_handler g), rs_signalled := True\<rparr>)"
| cancel_redis: "rs_main s = InHandler (CancelRedis # as) \<Longrightarrow>
    run_step g s (s\<lparr>rs_main := InHandler as, rs_redis := False\<rparr>)"
| refuse_calls: "rs_main s = InHandler (ShutdownGrpc # as) \<Longrightarrow> rs_accepting s \<Longrightarrow>
    run_step g s (s\<lparr>rs_accepting := False\<rparr>)"
| shutdown_done: "rs_main s = InHandler (ShutdownGrpc # as) \<Longrightarrow> \<not> rs_accepting s \<Longrightarrow> rs_calls s = 0 \<Longrightarrow>
    run_step g s (s\<lparr>rs_main := InHandler as, rs_down := True\<rparr>)"
| stop_pool: "rs_main s = InHandler (StopPool # as) \<Longrightarrow>
    run_step g s (s\<lparr>rs_main := InHandler as, rs_pool_stopped := True\<rparr>)"
| stop_loop: "rs_main s = InHandler (StopLoop # as) \<Longrightarrow>
    run_step g s (s\<lparr>rs_main := InHandler as, rs_stopped := True\<rparr>)"
| release_guard: "rs_main s = InHandler (ReleaseGuard # as) \<Longrightarrow>
    run_step g s (s\<lparr>rs_main := InHandler as, rs_guard := False\<rparr>)"
| stop_server: "rs_main s = InHandler (StopServer # as) \<Longrightarrow> rs_io s = 0 \<Longrightarrow>
    run_step g s (s\<lparr>rs_main := InHandler as\<rparr>)"
| handler_returns: "rs_main s = InHandler [] \<Longrightarrow> run_step g s (s\<lparr>rs_main := InLoop\<rparr>)"
| loop_returns: "rs_main s = InLoop \<Longrightarrow>
    rs_stopped s \<or> (rs_signalled s \<and> \<not> rs_guard s \<and> \<not> rs_redis s \<and> rs_calls s = 0) \<Longrightarrow>
    run_step g s (s\<lparr>rs_main := JoinGrpc\<rparr>)"
| grpc_joined: "rs_main s = JoinGrpc \<Longrightarrow> joins_grpc g \<longrightarrow> rs_down s \<Longrightarrow> run_step g s (s\<lparr>rs_main := JoinPool\<rparr>)"
| pool_joined: "rs_main s = JoinPool \<Longrightarrow> joins_pool g \<longrightarrow> rs_pool_stopped s \<Longrightarrow>
    run_step g s (s\<lparr>rs_main := Returned 0\<rparr>)"

inductive_cases run_stepE: "run_step g s t"

section \<open>A call in progress\<close>

text \<open>Stuck in \<^verbatim>\<open>Shutdown\<close>: the thread that waits for the calls is the one that would finish them.\<close>

definition stuck_in_shutdown :: "run_state \<Rightarrow> bool" where
  "stuck_in_shutdown s \<longleftrightarrow> (\<exists>as. rs_main s = InHandler (ShutdownGrpc # as)) \<and> 0 < rs_calls s"

lemma shutdown_stuck_step: "run_step g s t \<Longrightarrow> stuck_in_shutdown s \<Longrightarrow> stuck_in_shutdown t \<and> rs_main t = rs_main s"
  by (erule run_stepE) (auto simp: stuck_in_shutdown_def)

lemma shutdown_stuck_forever:
  assumes "(run_step g)\<^sup>*\<^sup>* s t" "stuck_in_shutdown s"
  shows "stuck_in_shutdown t \<and> rs_main t = rs_main s"
  using assms by (induction) (auto dest: shutdown_stuck_step)

section \<open>No call in progress\<close>

text \<open>What the actions that are done have left behind.\<close>

fun actions_left :: "program \<Rightarrow> run_state \<Rightarrow> signal_action list" where
  "actions_left g s = (case rs_main s of
     InLoop \<Rightarrow> if rs_signalled s then [] else signal_handler g | InHandler as \<Rightarrow> as | _ \<Rightarrow> [])"

definition done_ok :: "program \<Rightarrow> signal_action list \<Rightarrow> run_state \<Rightarrow> bool" where
  "done_ok g d s \<longleftrightarrow> d @ actions_left g s = signal_handler g \<and>
     (CancelRedis \<in> set d \<longrightarrow> \<not> rs_redis s) \<and>
     (ShutdownGrpc \<in> set d \<longrightarrow> rs_down s \<and> \<not> rs_accepting s \<and> rs_calls s = 0) \<and>
     (StopPool \<in> set d \<longrightarrow> rs_pool_stopped s) \<and> (StopLoop \<in> set d \<longrightarrow> rs_stopped s) \<and>
     (ReleaseGuard \<in> set d \<longrightarrow> \<not> rs_guard s)"

definition run_inv :: "program \<Rightarrow> run_state \<Rightarrow> bool" where
  "run_inv g s \<longleftrightarrow> (\<exists>d. done_ok g d s) \<and>
     (\<not> rs_signalled s \<longrightarrow> rs_main s = InLoop \<and> \<not> rs_stopped s) \<and>
     (g = GateProgram \<longrightarrow> \<not> rs_accepting s \<and> rs_calls s = 0) \<and>
     (\<forall>r. rs_main s = Returned r \<longrightarrow> r = 0)"

lemma serving_inv: "run_inv g (serving g)"
  by (cases g) (auto simp: run_inv_def done_ok_def serving_def)

lemma run_step_inv:
  assumes "run_step g s t" "run_inv g s"
  shows "run_inv g t"
proof -
  obtain d where ok: "done_ok g d s" using assms(2) by (auto simp: run_inv_def)
  have rest: "\<not> rs_signalled s \<Longrightarrow> rs_main s = InLoop \<and> \<not> rs_stopped s"
    "g = GateProgram \<Longrightarrow> \<not> rs_accepting s \<and> rs_calls s = 0" "\<And>r. rs_main s = Returned r \<Longrightarrow> r = 0"
    using assms(2) by (simp_all add: run_inv_def)
  have shut: "ShutdownGrpc \<in> set d \<Longrightarrow> rs_down s \<and> \<not> rs_accepting s \<and> rs_calls s = 0"
    using ok by (simp add: done_ok_def)
  have same: ?thesis if "actions_left g t = actions_left g s" "rs_redis t = rs_redis s"
    "ShutdownGrpc \<in> set d \<Longrightarrow> rs_down t \<and> \<not> rs_accepting t \<and> rs_calls t = 0"
    "rs_pool_stopped t = rs_pool_stopped s" "rs_stopped t = rs_stopped s" "rs_guard t = rs_guard s"
    "\<not> rs_signalled t \<Longrightarrow> rs_main t = InLoop \<and> \<not> rs_stopped t"
    "g = GateProgram \<Longrightarrow> \<not> rs_accepting t \<and> rs_calls t = 0" "\<And>r. rs_main t = Returned r \<Longrightarrow> r = 0"
  proof -
    have "done_ok g d t" using ok that(1-6) by (simp add: done_ok_def del: actions_left.simps)
    then show ?thesis using that(7-9) by (auto simp: run_inv_def)
  qed
  have act: ?thesis if "rs_main s = InHandler (a # as)" "rs_main t = InHandler as" "rs_signalled t = rs_signalled s"
    "a = CancelRedis \<or> rs_redis t = rs_redis s" "a = CancelRedis \<longrightarrow> \<not> rs_redis t"
    "rs_calls t = rs_calls s" "rs_accepting t = rs_accepting s"
    "rs_down s \<longrightarrow> rs_down t" "a = ShutdownGrpc \<longrightarrow> rs_down t \<and> \<not> rs_accepting t \<and> rs_calls t = 0"
    "rs_pool_stopped s \<longrightarrow> rs_pool_stopped t" "a = StopPool \<longrightarrow> rs_pool_stopped t"
    "rs_stopped s \<longrightarrow> rs_stopped t" "a = StopLoop \<longrightarrow> rs_stopped t"
    "rs_guard t \<longrightarrow> rs_guard s" "a = ReleaseGuard \<longrightarrow> \<not> rs_guard t" for a as
  proof -
    have left: "(d @ [a]) @ actions_left g t = signal_handler g"
      using ok that(1,2) by (simp add: done_ok_def)
    have "done_ok g (d @ [a]) t"
      unfolding done_ok_def using left
    proof (intro conjI impI)
      show "CancelRedis \<in> set (d @ [a]) \<Longrightarrow> \<not> rs_redis t" using ok that(4,5) by (auto simp: done_ok_def)
      show "ShutdownGrpc \<in> set (d @ [a]) \<Longrightarrow> rs_down t" using shut that(8,9) by auto
      show "ShutdownGrpc \<in> set (d @ [a]) \<Longrightarrow> \<not> rs_accepting t" using shut that(7,9) by auto
      show "ShutdownGrpc \<in> set (d @ [a]) \<Longrightarrow> rs_calls t = 0" using shut that(6,9) by auto
      show "StopPool \<in> set (d @ [a]) \<Longrightarrow> rs_pool_stopped t" using ok that(10,11) by (auto simp: done_ok_def)
      show "StopLoop \<in> set (d @ [a]) \<Longrightarrow> rs_stopped t" using ok that(12,13) by (auto simp: done_ok_def)
      show "ReleaseGuard \<in> set (d @ [a]) \<Longrightarrow> \<not> rs_guard t" using ok that(14,15) by (auto simp: done_ok_def)
    qed
    moreover have "rs_signalled t" using rest(1) that(1,3) by auto
    ultimately show ?thesis using rest(2) that(2,6,7) by (auto simp: run_inv_def)
  qed
  from assms(1) show ?thesis
  proof cases
    case call_arrives then show ?thesis using shut rest by (intro same) auto
  next
    case (call_finishes n) then show ?thesis using shut rest by (intro same) auto
  next
    case io_starts then show ?thesis using shut rest by (intro same) auto
  next
    case (io_completes n) then show ?thesis using shut rest by (intro same) auto
  next
    case signal then show ?thesis using shut rest by (intro same) auto
  next
    case (cancel_redis as) then show ?thesis by (intro act [of CancelRedis as]) auto
  next
    case (refuse_calls as) then show ?thesis using shut rest by (intro same) auto
  next
    case (shutdown_done as) then show ?thesis by (intro act [of ShutdownGrpc as]) auto
  next
    case (stop_pool as) then show ?thesis by (intro act [of StopPool as]) auto
  next
    case (stop_loop as) then show ?thesis by (intro act [of StopLoop as]) auto
  next
    case (release_guard as) then show ?thesis by (intro act [of ReleaseGuard as]) auto
  next
    case (stop_server as) then show ?thesis by (intro act [of StopServer as]) auto
  next
    case handler_returns then show ?thesis using shut rest by (intro same) auto
  next
    case loop_returns then show ?thesis using shut rest by (intro same) auto
  next
    case grpc_joined then show ?thesis using shut rest by (intro same) auto
  next
    case pool_joined then show ?thesis using shut rest by (intro same) auto
  qed
qed

inductive run_reachable :: "program \<Rightarrow> run_state \<Rightarrow> bool" for g where
  run_init: "run_reachable g (serving g)"
| run_next: "run_reachable g s \<Longrightarrow> run_step g s t \<Longrightarrow> run_reachable g t"

lemma run_reachable_inv: "run_reachable g s \<Longrightarrow> run_inv g s"
  by (induction rule: run_reachable.induct) (auto intro: serving_inv run_step_inv)

text \<open>The shutdown has begun and nothing holds it up: no call is left, and none can arrive.\<close>

definition draining :: "program \<Rightarrow> run_state \<Rightarrow> bool" where
  "draining g s \<longleftrightarrow> run_inv g s \<and> rs_signalled s \<and> \<not> rs_accepting s \<and> rs_calls s = 0"

fun steps_left :: "run_state \<Rightarrow> nat" where
  "steps_left s = rs_io s + (case rs_main s of
     InHandler as \<Rightarrow> 4 + length as | InLoop \<Rightarrow> 3 | JoinGrpc \<Rightarrow> 2 | JoinPool \<Rightarrow> 1 | Returned r \<Rightarrow> 0)"

text \<open>Once no action is left, all of them have been done.\<close>

lemma all_done:
  assumes "run_inv g s" "actions_left g s = []"
  shows "g = ChatProgram \<Longrightarrow> rs_stopped s \<and> rs_down s \<and> rs_pool_stopped s"
    "g = StatusProgram \<Longrightarrow> rs_down s \<and> \<not> rs_redis s \<and> \<not> rs_guard s"
    "g = VerifyProgram \<Longrightarrow> rs_stopped s \<and> rs_down s" "g = GateProgram \<Longrightarrow> rs_stopped s"
proof -
  obtain d where "done_ok g d s" using assms(1) by (auto simp: run_inv_def)
  then have "done_ok g (signal_handler g) s" using assms(2) by (simp add: done_ok_def del: actions_left.simps)
  then show "g = ChatProgram \<Longrightarrow> rs_stopped s \<and> rs_down s \<and> rs_pool_stopped s"
    "g = StatusProgram \<Longrightarrow> rs_down s \<and> \<not> rs_redis s \<and> \<not> rs_guard s"
    "g = VerifyProgram \<Longrightarrow> rs_stopped s \<and> rs_down s" "g = GateProgram \<Longrightarrow> rs_stopped s"
    by (simp_all add: done_ok_def del: actions_left.simps)
qed

lemma draining_step:
  assumes "run_step g s t" "draining g s"
  shows "draining g t \<and> steps_left t < steps_left s"
proof -
  have inv: "run_inv g t" using run_step_inv assms by (simp add: draining_def)
  have gate: "rs_stopped s" if "g = GateProgram" "rs_main s = InLoop"
    using all_done(4) [of g s] assms(2) that by (simp add: draining_def)
  from assms(1) show ?thesis
    by cases (use inv gate assms(2) in \<open>simp_all add: draining_def\<close>)
qed

lemma draining_progress:
  assumes "draining g s" "rs_main s \<noteq> Returned 0"
  shows "\<exists>t. run_step g s t"
proof (cases "rs_io s")
  case (Suc n)
  then show ?thesis using io_completes by blast
next
  case io: 0
  have inv: "run_inv g s" "rs_signalled s" "\<not> rs_accepting s" "rs_calls s = 0"
    using assms(1) by (simp_all add: draining_def)
  show ?thesis
  proof (cases "rs_main s")
    case InLoop
    then have "rs_stopped s \<or> (rs_signalled s \<and> \<not> rs_guard s \<and> \<not> rs_redis s \<and> rs_calls s = 0)"
      using all_done [OF inv(1)] inv by (cases g) auto
    then show ?thesis using loop_returns [OF InLoop] by blast
  next
    case (InHandler as)
    show ?thesis
    proof (cases as)
      case Nil
      then show ?thesis using handler_returns InHandler by blast
    next
      case (Cons a as')
      then show ?thesis
        using InHandler inv io cancel_redis shutdown_done stop_pool stop_loop release_guard stop_server
        by (cases a) blast+
    qed
  next
    case JoinGrpc
    then have "joins_grpc g \<longrightarrow> rs_down s" using all_done [OF inv(1)] by (cases g) auto
    then show ?thesis using grpc_joined [OF JoinGrpc] by blast
  next
    case JoinPool
    then have "joins_pool g \<longrightarrow> rs_pool_stopped s" using all_done [OF inv(1)] by (cases g) auto
    then show ?thesis using pool_joined [OF JoinPool] by blast
  next
    case (Returned r)
    then show ?thesis using assms(2) inv(1) by (auto simp: run_inv_def)
  qed
qed

lemma draining_bounded: "(run_step g ^^ n) s t \<Longrightarrow> draining g s \<Longrightarrow> draining g t \<and> n + steps_left t \<le> steps_left s"
proof (induction n arbitrary: t)
  case (Suc n)
  then obtain u where "(run_step g ^^ n) s u" "run_step g u t" by auto
  then show ?case using Suc draining_step by fastforce
qed simp

lemma draining_returns: "draining g s \<Longrightarrow> \<exists>t. (run_step g)\<^sup>*\<^sup>* s t \<and> rs_main t = Returned 0"
proof (induction "steps_left s" arbitrary: s rule: less_induct)
  case less
  show ?case
  proof (cases "rs_main s = Returned 0")
    case False
    then obtain u where u: "run_step g s u" using draining_progress less.prems by blast
    then show ?thesis using less.hyps draining_step [OF u less.prems] by (meson converse_rtranclp_into_rtranclp)
  qed blast
qed

section \<open>Properties\<close>


text \<open>A chat server that has accepted one call and then a signal.\<close>

definition called :: run_state where
  "called = (serving ChatProgram)\<lparr>rs_calls := Suc 0\<rparr>"

definition signalled :: run_state where
  "signalled = called\<lparr>rs_main := InHandler [ShutdownGrpc, StopPool, StopLoop], rs_signalled := True, rs_redis := False\<rparr>"

lemma signalled_reachable: "run_reachable ChatProgram signalled"
proof -
  have a: "run_reachable ChatProgram called"
    using run_next [OF run_init [of ChatProgram] call_arrives] by (simp add: called_def serving_def)
  have b: "run_reachable ChatProgram (called\<lparr>rs_main := InHandler (signal_handler ChatProgram), rs_signalled := True\<rparr>)"
    by (rule run_next [OF a signal]) (simp_all add: called_def serving_def)
  have "run_step ChatProgram (called\<lparr>rs_main := InHandler (signal_handler ChatProgram), rs_signalled := True\<rparr>) signalled"
    using cancel_redis [of "called\<lparr>rs_main := InHandler (signal_handler ChatProgram), rs_signalled := True\<rparr>"
        "[ShutdownGrpc, StopPool, StopLoop]" ChatProgram]
    by (simp add: signalled_def called_def serving_def)
  then show ?thesis by (rule run_next [OF b])
qed


text \<open>C35: with no call in progress the shutdown ends: once the signal has been taken, no call is left and no new one
  is accepted, no run of the program is longer than eight steps and one for each pending socket operation, and
  every run can be continued until \<open>main\<close> has returned 0.\<close>

theorem shutdown_returns:
  assumes "run_reachable g s" "rs_signalled s" "\<not> rs_accepting s" "rs_calls s = 0"
    and "(run_step g ^^ n) s t"
  shows "n \<le> 8 + rs_io s \<and> (\<exists>u. (run_step g)\<^sup>*\<^sup>* t u \<and> rs_main u = Returned 0)"
proof -
  have d: "draining g s" using assms run_reachable_inv by (simp add: draining_def)
  from run_reachable_inv [OF assms(1)] obtain e where "e @ actions_left g s = signal_handler g"
    by (auto simp: run_inv_def done_ok_def)
  then have "length (actions_left g s) \<le> length (signal_handler g)" by (metis le_add2 length_append)
  also have "\<dots> \<le> 4" by (cases g) simp_all
  finally have "steps_left s \<le> 8 + rs_io s" by (cases "rs_main s") simp_all
  with draining_bounded [OF assms(5) d] draining_returns show ?thesis by fastforce
qed

theorem shutdown_returns_witness:
  "\<exists>u. (run_step GateProgram)\<^sup>*\<^sup>* ((serving GateProgram)\<lparr>rs_main := InHandler [StopServer, StopLoop], rs_signalled := True\<rparr>) u \<and>
     rs_main u = Returned 0"
proof -
  have "run_reachable GateProgram
      ((serving GateProgram)\<lparr>rs_main := InHandler (signal_handler GateProgram), rs_signalled := True\<rparr>)"
    by (rule run_next [OF run_init signal]) (simp_all add: serving_def)
  from shutdown_returns [OF this, of 0] show ?thesis by (simp add: serving_def)
qed

end
