(* ===== verification/Spec2Isabelle.thy ===== *)
theory Spec2Isabelle
  imports SessionRefinement CrossServer Diagnostics Shutdown
begin

text \<open>
  \<^bold>\<open>A verification development for the chat system.\<close>

  \<^bold>\<open>The program.\<close> Four servers and a client in C++20 on Boost.Asio coroutines. A client registers and logs
  in at the HTTP gate (\<^verbatim>\<open>gate_server\<close>), which checks verification codes against the verify server's
  (\<^verbatim>\<open>verify_server\<close>), keeps accounts in MySQL, and asks the status server (\<^verbatim>\<open>status_server\<close>) for a chat server
  and a token; with its id and that token the client logs in at the chat server (\<^verbatim>\<open>chat_server\<close>) over framed TCP,
  and searches users, applies for and accepts friendships, and sends text messages. A chat server delivers to
  its own sessions directly and reaches those of its one peer by gRPC. Tokens, codes, the server a user is on
  and the login counts of the servers are keys in Redis (\<^verbatim>\<open>common/redis_client\<close>). \<^verbatim>\<open>chat_client\<close> is a command
  line client for the framed protocol.

  \<^bold>\<open>How the program is modelled.\<close> A coroutine is the tree of the calls it suspends on (Coroutine): Redis, SQL,
  gRPC and UUID calls are nodes whose continuation takes any answer, and between two nodes a coroutine reads and
  updates the state of its process. \<open>run env\<close> executes it with an environment that answers and that may change the
  state meanwhile; \<open>guar\<close> speaks of all environments, that is of every interleaving; \<open>settle\<close> runs it up to the next
  call, which is what the step relations of the processes use. Exceptions are \<open>Throw\<close> nodes, so every early
  return, error code and catch block of the source is a branch. Integers have the width of the source.

  \<^bold>\<open>Theories and sources.\<close>
  \<^item> Prelude: ordered maps (\<^verbatim>\<open>std::map\<close>, \<^verbatim>\<open>std::set\<close>), \<^verbatim>\<open>std::to_string\<close>, bounded queues, and the locales
    of a dictionary, a queue and a component; Effects, Coroutine: the calls and the coroutines.
  \<^item> MsgNode: \<^verbatim>\<open>chat_server/msg_node.hpp\<close>. MessageCommon: \<^verbatim>\<open>message_common.hpp\<close>. Json: what is used of
    nlohmann::json. ChatTypes: \<^verbatim>\<open>types.hpp\<close> and the message classes of \<^verbatim>\<open>grpc_service.hpp\<close> and \<^verbatim>\<open>handle_message.cpp\<close>.
  \<^item> ChatServer, ChatSession: \<^verbatim>\<open>chat_server.hpp\<close> and the listener of \<^verbatim>\<open>main.cpp\<close>; a process is a record with
    the server, a state per reader coroutine, the bytes that arrived and the messages written, and \<open>session_step\<close>
    has one rule per resumption of a coroutine. ChatGrpc: \<^verbatim>\<open>grpc_service.hpp\<close>. ChatHandlers: \<^verbatim>\<open>handle_message.cpp\<close>.
  \<^item> Database, Repos: the SQL statements of \<^verbatim>\<open>friend_repo.hpp\<close>, \<^verbatim>\<open>user_repo.hpp\<close> with a semantics on tables that
    have the unique keys of \<^verbatim>\<open>sql/*.sql\<close>. RedisClient: \<^verbatim>\<open>common/redis_client.cpp\<close>.
  \<^item> StatusServer, VerifyServer (with the mail worker of \<^verbatim>\<open>mail_client.hpp\<close>), Config: the two services and the
    configurations of all programs.
  \<^item> Gate: \<^verbatim>\<open>gate_server/dispatcher.cpp\<close>, \<^verbatim>\<open>user_repo.hpp\<close>, \<^verbatim>\<open>error.*\<close>, \<^verbatim>\<open>verify_service.hpp\<close>. GateServer:
    \<^verbatim>\<open>server.*\<close>, \<^verbatim>\<open>http_connection.cpp\<close>, \<^verbatim>\<open>context_*.hpp\<close>. ChatClient: \<^verbatim>\<open>chat_client/main.cpp\<close>.
  \<^item> Startup: \<^verbatim>\<open>main\<close> of the four servers from the arguments to the point where they serve, \<^verbatim>\<open>MessageHandler::init\<close>,
    \<^verbatim>\<open>Dispatcher::init\<close>, the MySQL pool, and the first jobs on a server's main context. Shutdown: the same functions
    from a signal to their return; the actions of each signal handler, the loop, the calls in progress and the joins.
  \<^item> Diagnostics: the error codes of \<^verbatim>\<open>gate_server/error.*\<close>, the text of the log lines, and the helpers of the two
    dispatchers that no handler uses.
  \<^item> World, SampleLibs, SampleRun: services that behave as documented (Redis returns what was stored, MySQL executes
    the statements), and concrete libraries, services and sessions for the witnesses.

  \<^bold>\<open>Interfaces.\<close> \<open>dictionary\<close> (interpreted on the association lists of Prelude), \<open>framing\<close> (of and on the frames of MsgNode:
  \<open>net\<close>), \<open>fifo\<close> (on the channel of a session and the mail queue: \<open>channel\<close>, \<open>mails\<close>), \<open>component\<close> (operations that
  keep an invariant: the notification service and the tables), \<open>message_handler\<close> (on each of the five handlers).

  \<^bold>\<open>What the lemmas show.\<close>
  \<^item> HandlerSafety, SessionSafety: what a handler may do to the server in any interleaving, the invariant of
    every reachable state of a chat server, and that what \<open>run\<close> computes with services that leave the server alone,
    the steps of a process can do. SessionProperties: authentication by a token Redis confirmed,
    participants are the open sessions, order and bounds of the channel, a closing message is the last one,
    a login that goes on after its session was closed.
  \<^item> SessionRefinement: a chat server refines an abstract session that is absent, anonymous, logged in or gone.
    ServerPair: two servers that are each other's peer, and the state in which they wait for each other for ever.
    SessionProgress: every request that is being handled can be answered, whatever the services answer, and no session
    stays without logging in; \<open>no_throw\<close>, \<open>waits\<close> and \<open>watched\<close> are the invariants behind it.
  \<^item> HandlerBehaviour, Replies, ChatProperties: every branch of the handlers against services that behave as
    documented, errors included, and what arrives at whom, locally and through the peer, which notifies as a local handler does.
  \<^item> FrameProperties: round trips of streams of frames, bounds of headers, client against server. WireSafety: every
    node a reachable server writes is a well-formed frame, and a notification or an answer to this session.
  \<^item> ServiceProperties: choice of the chat server, reuse of codes, order, completeness and termination of the mail
    worker, quoting of the mail command. GateBehaviour, GateProperties: accounts, passwords, routing, the session
    table, start-up. Shutdown: when a signal ends a program, and when it never does.
  \<^item> SystemProperties: the client prints what the server wrote, the status server goes by the load that the chat
    servers report, and a code of the verify server opens any account.
  \<^item> EndToEnd: the way of a chat message from the line typed by its sender to the line printed for its receiver.
    CrossServer: the same way when the receiver is on the peer, with the calls to Redis and to the peer in between.
  \<^item> This theory: the way from the gate's login to the chat server's login through the status server, and the
    disclosure of stored login tokens through the gate and the verify server.

  \<^bold>\<open>Bounds and fuel.\<close> \<open>read_all\<close> takes fuel; it is enough when it exceeds the number of frames, which the round trip
  states. The mail worker delivers everything in twice as many steps as mails are waiting, and one more. A program
  without calls in progress ends in at most eight steps after the signal, beside its pending socket operations. All other
  functions are total by structural recursion. The sessions of a server and the steps of a process are not bounded.

  \<^bold>\<open>Assumptions.\<close> Library and service behaviour enters as arguments (\<open>libs\<close>, \<open>gate_libs\<close>, \<open>platform\<close>,
  environments) with named hypotheses: \<open>libs_ok\<close>, \<open>json_lib_ok\<close>, \<open>platform_ok\<close>, \<open>keeps_keys\<close>, \<open>serves_tables\<close>,
  \<open>dialect_ok\<close> and \<open>services\<close>, each instantiated in the witnesses. Redis keys do not expire within one statement.
  \<open>services\<close> takes the peer's answers as arbitrary and assumes that a call to the peer leaves the caller's own state
  alone; ServerPair drops this and runs both servers. A gRPC call to the peer has no deadline in the source, so its
  failure is a step of a single server (\<open>rpc_reply\<close>) and no step of a pair whose connection holds. Shutdown rests on
  the documentation of \<^verbatim>\<open>grpc::Server::Shutdown\<close>: it refuses new calls and returns when all calls are finished.
  \<open>keeps_counts\<close> is Redis's behaviour on the hash of the login counts, \<open>verify_behind\<close> and \<open>status_behind\<close> say that
  a channel reaches the modelled service.

  \<^bold>\<open>Not modelled.\<close> The bodies of Boost, nlohmann::json, magic_enum, toml++, protobuf, gRPC,
  MySQL and Redis; reconnection by the Redis library; log output as an effect; the template
  \<^verbatim>\<open>parse_json\<close>, which is within the parsers of \<open>gate_libs\<close> and
  \<open>libs\<close>; classes that only bundle references (\<^verbatim>\<open>MessageData\<close>,
  \<^verbatim>\<open>RequestData\<close>); generated code, build files, tests.
\<close>

section \<open>From the gate to the chat server\<close>

text \<open>The status server answers the calls of its channel; \<open>senv\<close> is what it runs in.\<close>

definition status_behind :: "chat_server_config list \<Rightarrow> world environment \<Rightarrow> world environment \<Rightarrow> bool" where
  "status_behind servers senv env \<longleftrightarrow>
     (\<forall>uid s. on_rpc env (CallGetChatServer uid) s =
        (case run senv (GetChatServer_rpc servers uid) s of
           (Inr (Some rsp), t) \<Rightarrow> (RspChatServer rsp, t)
         | (_, t) \<Rightarrow> (RpcFailed [], t)))"

lemma services_keep_db:
  assumes "services D env"
  shows "w_db (snd (on_redis env q s)) = w_db s"
  using assms unfolding services_def by (metis world.select_convs(2) world.surjective world.update_convs(1))

lemma run_redis_keeps_db:
  assumes "services D env"
  shows "w_db (snd (run env (redis_hgetall k) s)) = w_db s" "w_db (snd (run env (redis_set k v) s)) = w_db s"
  using services_keep_db [OF assms] by (simp_all add: redis_hgetall_def redis_set_def case_prod_beta)

lemma run_index_keeps_db:
  assumes "services D env"
  shows "w_db (snd (run env (get_server_index servers) s)) = w_db s"
  using run_redis_keeps_db(1) [OF assms, of LoginCountKey s]
  by (auto simp: get_server_index_def run_bind split: prod.split sum.split)

lemma run_status_keeps_db:
  assumes "services D env" "\<forall>s. snd (on_uuid env s) = s"
  shows "w_db (snd (run env (GetChatServer_rpc servers uid) s)) = w_db s"
  using run_redis_keeps_db(2) [OF assms(1)] run_index_keeps_db [OF assms(1), of servers s] assms(2)
  by (auto simp: GetChatServer_rpc_def run_bind case_prod_beta split: sum.split)

lemma token_key_same: "fits_i32 uid \<Longrightarrow> token_key (narrow_i32 uid) = UserTokenKey uid"
  by (simp add: token_key_def UserTokenKey_def sint_narrow_i32 fits_i32_def signed_take_bit_int_eq_self)

lemma find_user_in: "find_user D d n p = Some u \<Longrightarrow> u \<in> set (db_users d)"
  by (auto simp: find_user_def find_Some_iff)

text \<open>C17: the way into the system fits together: a user whose name and password the gate finds is sent to a
  configured chat server, and with the id and the token of the gate's answer the login at a chat server
  succeeds and makes the session that user's.\<close>

theorem gate_login_opens_chat_login:
  assumes "services D env" "services D senv" "\<forall>s. snd (on_uuid senv s) = s"
    and "status_behind servers senv env" "servers \<noteq> []"
    and "nlohmann_parse_json (gl_json G) (gate_login_request_from_json (gl_json G)) (rq_body rq) = Some req"
    and "find_user D (w_db s) (glr_user req) (glr_passwd req) = Some u" "fits_int (u_id u)"
  shows "\<exists>rsp t srv. srv \<in> set servers \<and> gcs_host rsp = csc_host srv \<and> gcs_port rsp = csc_port srv \<and>
    run env (user_login G rq) s = run env (nlohmann_json_response G (gate_payload
      (Some (gate_login_response_to_json (word_of_int (u_id u)) (glr_user req) rsp)) SUCCESS [])) t \<and>
    (\<forall>L me msg. nlohmann_parse_json (lb_json L) (user_login_request_from_json (lb_json L)) (node_body msg) =
        Some \<lparr>ulr_uid = word_of_int (u_id u), ulr_token = gcs_token rsp\<rparr> \<longrightarrow>
      cs_authenticated (srv_sessions (snd (run env (login L me msg) t)) me) \<and>
      cs_uid (srv_sessions (snd (run env (login L me msg) t)) me) = word_of_int (u_id u))"
proof -
  let ?uid = "word_of_int (u_id u) :: i64"
  have fits: "fits_i32 ?uid" "fits_i64 (u_id u)"
    using assms(8) by (simp_all add: fits_i32_def fits_int_def fits_i64_def signed_of_int signed_take_bit_int_eq_self)
  obtain rsp t srv where st: "run senv (GetChatServer_rpc servers (narrow_i32 ?uid)) s = (Inr (Some rsp), t)"
    "gcs_error rsp = 0" "gcs_host rsp = csc_host srv" "gcs_port rsp = csc_port srv"
    "fewest_logins (login_counts senv s) servers srv" "w_keys t (token_key (narrow_i32 ?uid)) = Some (gcs_token rsp)"
    using chat_server_chosen [OF servicesD(1) [OF assms(2)] assms(5), of "narrow_i32 ?uid" s] by blast
  have rpc: "on_rpc env (CallGetChatServer (narrow_i32 ?uid)) s = (RspChatServer rsp, t)"
    using assms(4) st(1) by (simp add: status_behind_def)
  have db: "w_db t = w_db s"
    using run_status_keeps_db [OF assms(2,3), of servers "narrow_i32 ?uid" s] st(1) by simp
  have login: "cs_authenticated (srv_sessions (snd (run env (login L me msg) t)) me) \<and>
      cs_uid (srv_sessions (snd (run env (login L me msg) t)) me) = ?uid"
    if parse: "nlohmann_parse_json (lb_json L) (user_login_request_from_json (lb_json L)) (node_body msg) =
      Some \<lparr>ulr_uid = ?uid, ulr_token = gcs_token rsp\<rparr>" for L me msg
  proof -
    have "u_id u = sint ?uid"
      using fits(2) by (simp add: fits_i64_def signed_of_int signed_take_bit_int_eq_self)
    then obtain info where "user_by_id (w_db t) ?uid = Some info"
      using user_by_id_found [OF find_user_in [OF assms(7)]] db by auto
    then show ?thesis
      using login_with_token [OF assms(1) parse] st(6) token_key_same [OF fits(1)] by simp
  qed
  have "run env (user_login G rq) s = run env (nlohmann_json_response G (gate_payload
      (Some (gate_login_response_to_json ?uid (glr_user req) rsp)) SUCCESS [])) t"
    using run_user_login [OF assms(1,6), of s] assms(7) rpc st(2) by simp
  with st(3-5) login show ?thesis unfolding fewest_logins_def by blast
qed

definition status_env :: "world environment" where
  "status_env = sample_env\<lparr>on_rpc := (\<lambda>q s. case q of
       CallGetChatServer uid \<Rightarrow> (case run sample_env (GetChatServer_rpc sample_servers uid) s of
           (Inr (Some rsp), t) \<Rightarrow> (RspChatServer rsp, t)
         | (_, t) \<Rightarrow> (RpcFailed [], t))
     | _ \<Rightarrow> (RpcFailed ''unavailable'', s))\<rparr>"

lemma status_env_services: "services sample_dialect status_env"
  unfolding status_env_def
  apply (rule sample_env_rpc)
  subgoal for q s by (cases q) simp_all
  done

definition alice_login :: json where
  "alice_login = json_set ''user'' (JStr ''alice'') (json_set ''passwd'' (JStr ''p1'') JNull)"

theorem gate_login_opens_chat_login_witness:
  "\<exists>rsp t. run status_env (user_login sample_gate (sample_post ''/user_login'' alice_login)) sample_world =
     run status_env (nlohmann_json_response sample_gate (gate_payload
       (Some (gate_login_response_to_json 1 ''alice'' rsp)) SUCCESS [])) t"
proof -
  have parse: "nlohmann_parse_json (gl_json sample_gate) (gate_login_request_from_json (gl_json sample_gate))
      (rq_body (sample_post ''/user_login'' alice_login)) = Some \<lparr>glr_user = ''alice'', glr_passwd = ''p1''\<rparr>"
    by (simp add: sample_post_parse alice_login_def gate_login_request_from_json_def field_string_def json_at_norm)
  have found: "find_user sample_dialect (w_db sample_world) (glr_user \<lparr>glr_user = ''alice'', glr_passwd = ''p1''\<rparr>)
      (glr_passwd \<lparr>glr_user = ''alice'', glr_passwd = ''p1''\<rparr>) =
      Some \<lparr>u_id = 1, u_name = ''alice'', u_email = ''a@x'', u_pwd = ''p1''\<rparr>"
    by (simp add: find_user_def sample_dialect_def sample_world_def)
  have "\<forall>s. snd (on_uuid sample_env s) = s" "status_behind sample_servers sample_env status_env"
    "sample_servers \<noteq> []" "fits_int 1"
    by (simp_all add: sample_env_def status_behind_def sample_servers_def fits_int_def status_env_def)
  from gate_login_opens_chat_login [OF status_env_services sample_services this(1-3) parse found]
  show ?thesis by (auto simp: fits_int_def)
qed

section \<open>Reading a login token through the gate\<close>

text \<open>Anybody can read the login token of a logged-in user: asked for the verification code of the address
  \<open>user_token_\<close> followed by the user's id, the gate answers with the token that the chat servers accept.\<close>

lemma gate_discloses_login_token:
  assumes "keeps_keys vw_keys venv" "vw_keys vs (UserTokenKey uid) = Some token"
    and "\<exists>vt. run venv (GetVerifyCode_rpc (UserTokenKey uid)) vs = (Inr rsp, vt)"
    and "fst (on_rpc env (CallGetVerifyCode (UserTokenKey uid)) s) = RspVerify rsp"
    and "rq_content_type rq = Some ''application/json''" "bj_parse_email G (rq_body rq) = Some (UserTokenKey uid)"
  shows "fst (run env (gate_get_verify_code G rq) s) =
    Inr (json_text_response (bj_serialize_verify G (UserTokenKey uid) token))"
proof -
  have "rsp = \<lparr>gvr_error = 0, gvr_email = UserTokenKey uid, gvr_code = token\<rparr>"
    using verify_code_disclosed [OF assms(1,2)] assms(3) by auto
  then show ?thesis
    using assms(4-6) by (simp add: gate_get_verify_code_def run_bind verify_client_get_code_def case_prod_beta)
qed

end
